(* ===== verification/Mkmq_Prelude.thy ===== *)
theory Mkmq_Prelude
  imports Main "HOL-Library.Word"
begin

text \<open>
  Shared ground of the development: bytes, the error values that stand for the exceptions
  of the C++ sources, the result type with its bind, the value ranges of the signed C++
  integer types, and the list and word lemmas the components use.

  C++ \<^verbatim>\<open>std::intN_t\<close> values are \<^typ>\<open>int\<close>s; the predicates \<open>i8\<close>, \<open>i16\<close>, \<open>i32\<close> and
  \<open>i64\<close> say that a value lies in the range of its C++ type. Unsigned 32-bit values whose
  wrap-around matters are \<^typ>\<open>32 word\<close>s, sizes and file positions are \<^typ>\<open>nat\<close>s.
\<close>

unbundle bit_operations_syntax

section \<open>Bytes, errors and results\<close>

type_synonym byte = "8 word"
type_synonym bytes = "8 word list"

text \<open>
  One constructor per exception class the sources throw. \<open>OutOfBounds\<close> is not thrown by
  the code: it marks a memory access outside a buffer, which C++ leaves undefined, so
  that memory safety is the statement that a function never yields it.
\<close>

datatype error =
    ProtocolError string
  | InvalidArgument string
  | RuntimeError string
  | OutOfRange string
  | GateClosed
  | OutOfBounds

type_synonym 'a result = "error + 'a"

fun rbind :: "'a result \<Rightarrow> ('a \<Rightarrow> 'b result) \<Rightarrow> 'b result" where
  "rbind (Inl e) f = Inl e"
| "rbind (Inr x) f = f x"

definition guardR :: "bool \<Rightarrow> error \<Rightarrow> unit result" where
  "guardR b e = (if b then Inr () else Inl e)"

text \<open>A loop whose body may throw: the first error ends it.\<close>

fun foldR :: "('a \<Rightarrow> 's \<Rightarrow> 's result) \<Rightarrow> 'a list \<Rightarrow> 's \<Rightarrow> 's result" where
  "foldR f [] s = Inr s"
| "foldR f (x # xs) s = rbind (f x s) (foldR f xs)"

fun mapR :: "('a \<Rightarrow> 'b result) \<Rightarrow> 'a list \<Rightarrow> 'b list result" where
  "mapR f [] = Inr []"
| "mapR f (x # xs) = rbind (f x) (\<lambda>y. rbind (mapR f xs) (\<lambda>ys. Inr (y # ys)))"

section \<open>Ranges of the C++ integer types\<close>

definition i8 :: "int \<Rightarrow> bool" where
  "i8 v \<longleftrightarrow> - (2 ^ 7) \<le> v \<and> v < 2 ^ 7"

definition i16 :: "int \<Rightarrow> bool" where
  "i16 v \<longleftrightarrow> - (2 ^ 15) \<le> v \<and> v < 2 ^ 15"

definition i32 :: "int \<Rightarrow> bool" where
  "i32 v \<longleftrightarrow> - (2 ^ 31) \<le> v \<and> v < 2 ^ 31"

definition i64 :: "int \<Rightarrow> bool" where
  "i64 v \<longleftrightarrow> - (2 ^ 63) \<le> v \<and> v < 2 ^ 63"

lemmas int_ranges = i8_def i16_def i32_def i64_def

text \<open>
  \<^verbatim>\<open>static_cast<std::int16_t>(n)\<close> and \<^verbatim>\<open>static_cast<std::int32_t>(n)\<close> of a size.
\<close>

definition cast_i16 :: "int \<Rightarrow> int" where
  "cast_i16 n = sint (word_of_int n :: 16 word)"

definition cast_i32 :: "int \<Rightarrow> int" where
  "cast_i32 n = sint (word_of_int n :: 32 word)"

definition cast_i64 :: "int \<Rightarrow> int" where
  "cast_i64 n = sint (word_of_int n :: 64 word)"

section \<open>std::string and byte vectors\<close>

definition byte_of_char :: "char \<Rightarrow> byte" where
  "byte_of_char c = word_of_nat (of_char c)"

definition char_of_byte :: "byte \<Rightarrow> char" where
  "char_of_byte b = char_of (unat b)"

definition bytes_of_string :: "string \<Rightarrow> bytes" where
  "bytes_of_string s = map byte_of_char s"

definition string_of_bytes :: "bytes \<Rightarrow> string" where
  "string_of_bytes bs = map char_of_byte bs"

section \<open>Lemmas on results\<close>

lemma rbind_eq_Inr_iff:
  "rbind m f = Inr y \<longleftrightarrow> (\<exists>x. m = Inr x \<and> f x = Inr y)"
  by (cases m) auto

lemma rbind_eq_Inl_iff:
  "rbind m f = Inl e \<longleftrightarrow> m = Inl e \<or> (\<exists>x. m = Inr x \<and> f x = Inl e)"
  by (cases m) auto

lemmas rbind_iffs = rbind_eq_Inr_iff rbind_eq_Inl_iff

lemma rbind_cong [fundef_cong]:
  "m = m' \<Longrightarrow> (\<And>x. m' = Inr x \<Longrightarrow> f x = g x) \<Longrightarrow> rbind m f = rbind m' g"
  by (cases m') auto

lemma rbind_assoc: "rbind (rbind m f) g = rbind m (\<lambda>x. rbind (f x) g)"
  by (cases m) auto

lemma guardR_eq_Inr [simp]: "guardR b e = Inr u \<longleftrightarrow> b"
  by (simp add: guardR_def)

lemma guardR_eq_Inl [simp]: "guardR b e = Inl e' \<longleftrightarrow> \<not> b \<and> e = e'"
  by (simp add: guardR_def)

lemma guardR_True [simp]: "b \<Longrightarrow> guardR b e = Inr ()"
  by (simp add: guardR_def)

lemma guardR_False [simp]: "\<not> b \<Longrightarrow> guardR b e = Inl e"
  by (simp add: guardR_def)

lemma foldR_append: "foldR f (xs @ ys) s = rbind (foldR f xs s) (foldR f ys)"
  by (induction xs arbitrary: s) (auto simp: rbind_assoc intro: rbind_cong)

lemma foldR_unit_iff:
  "foldR (\<lambda>x u. g x) xs () = Inr () \<longleftrightarrow> (\<forall>x \<in> set xs. g x = Inr ())"
  by (induction xs) (auto simp: rbind_eq_Inr_iff)

lemma mapR_length: "mapR f xs = Inr ys \<Longrightarrow> length ys = length xs"
  by (induction xs arbitrary: ys) (auto simp: rbind_eq_Inr_iff)

lemma mapR_Inr_iff:
  "mapR f xs = Inr ys \<longleftrightarrow> list_all2 (\<lambda>x y. f x = Inr y) xs ys"
proof (induction xs arbitrary: ys)
  case Nil
  then show ?case by auto
next
  case (Cons x xs)
  show ?case by (cases ys) (auto simp: rbind_eq_Inr_iff Cons.IH)
qed

lemma mapR_in_set: "mapR f xs = Inr ys \<Longrightarrow> \<forall>y\<in>set ys. \<exists>x\<in>set xs. f x = Inr y"
  by (induction xs arbitrary: ys) (fastforce simp: rbind_eq_Inr_iff)+

section \<open>Lemmas on integers of a fixed width\<close>

lemma sint_word_of_int_id:
  assumes "- (2 ^ (LENGTH('a::len) - 1)) \<le> v" and "v < 2 ^ (LENGTH('a) - 1)"
  shows "sint (word_of_int v :: 'a word) = v"
proof -
  have "signed_take_bit (LENGTH('a) - 1) v = v"
    using assms by (simp add: signed_take_bit_int_eq_self_iff)
  then show ?thesis by (simp add: signed_of_int)
qed

lemma sint_word_of_int_8: "i8 v \<Longrightarrow> sint (word_of_int v :: 8 word) = v"
  by (rule sint_word_of_int_id) (simp_all add: i8_def)

lemma sint_word_of_int_16: "i16 v \<Longrightarrow> sint (word_of_int v :: 16 word) = v"
  by (rule sint_word_of_int_id) (simp_all add: i16_def)

lemma sint_word_of_int_32: "i32 v \<Longrightarrow> sint (word_of_int v :: 32 word) = v"
  by (rule sint_word_of_int_id) (simp_all add: i32_def)

lemma sint_word_of_int_64: "i64 v \<Longrightarrow> sint (word_of_int v :: 64 word) = v"
  by (rule sint_word_of_int_id) (simp_all add: i64_def)

lemmas sint_word_of_int_range =
  sint_word_of_int_8 sint_word_of_int_16 sint_word_of_int_32 sint_word_of_int_64

lemma cast_i16_id [simp]: "i16 v \<Longrightarrow> cast_i16 v = v"
  by (simp add: cast_i16_def sint_word_of_int_16)

lemma cast_i32_id [simp]: "i32 v \<Longrightarrow> cast_i32 v = v"
  by (simp add: cast_i32_def sint_word_of_int_32)

lemma cast_i64_id [simp]: "i64 v \<Longrightarrow> cast_i64 v = v"
  by (simp add: cast_i64_def sint_word_of_int_64)

lemma sint_range:
  "- (2 ^ (LENGTH('a::len) - 1)) \<le> sint (w :: 'a word)" "sint w < 2 ^ (LENGTH('a) - 1)"
  using sint_greater_eq [of w] sint_lt [of w] by simp_all

lemma i8_sint [simp]: "i8 (sint (w :: 8 word))"
  using sint_range [of w] by (simp add: i8_def)

lemma i16_sint [simp]: "i16 (sint (w :: 16 word))"
  using sint_range [of w] by (simp add: i16_def)

lemma i32_sint [simp]: "i32 (sint (w :: 32 word))"
  using sint_range [of w] by (simp add: i32_def)

lemma i64_sint [simp]: "i64 (sint (w :: 64 word))"
  using sint_range [of w] by (simp add: i64_def)

lemma i16_cast [simp]: "i16 (cast_i16 v)"
  by (simp add: cast_i16_def)

lemma i32_cast [simp]: "i32 (cast_i32 v)"
  by (simp add: cast_i32_def)

lemma i64_cast [simp]: "i64 (cast_i64 v)"
  by (simp add: cast_i64_def)

section \<open>Lemmas on strings\<close>

lemma char_of_byte_of_char [simp]: "char_of_byte (byte_of_char c) = c"
proof -
  have "unat (word_of_nat (of_char c) :: byte) = of_char c"
    by (simp add: unat_of_nat take_bit_nat_eq_self_iff)
  then show ?thesis
    by (simp add: char_of_byte_def byte_of_char_def)
qed

lemma byte_of_char_of_byte [simp]: "byte_of_char (char_of_byte b) = b"
proof -
  have "unat b < 2 ^ LENGTH(8)"
    by (rule unsigned_less)
  then show ?thesis
    by (simp add: char_of_byte_def byte_of_char_def of_char_of)
qed

lemma string_of_bytes_of_string [simp]: "string_of_bytes (bytes_of_string s) = s"
  by (simp add: string_of_bytes_def bytes_of_string_def o_def)

lemma bytes_of_string_of_bytes [simp]: "bytes_of_string (string_of_bytes bs) = bs"
  by (simp add: string_of_bytes_def bytes_of_string_def o_def)

lemma length_bytes_of_string [simp]: "length (bytes_of_string s) = length s"
  by (simp add: bytes_of_string_def)

lemma length_string_of_bytes [simp]: "length (string_of_bytes bs) = length bs"
  by (simp add: string_of_bytes_def)

section \<open>Lemmas on words\<close>

lemma word_0xff_mask: "(0xff :: 'a::len word) = mask 8"
  by (simp add: mask_eq_exp_minus_1)

lemma ucast_and_0xff [simp]: "(ucast (w AND 0xff) :: byte) = ucast (w :: 'a::len word)"
  unfolding word_0xff_mask by (rule bit_word_eqI) (auto simp: bit_simps dest: bit_imp_le_length)

lemma bit_less_32: "bit (v :: 32 word) n \<Longrightarrow> n < 32"
  using bit_imp_le_length [of v n] by simp

lemma bit_byte_lane:
  "bit (push_bit k (ucast (ucast (drop_bit k w) :: byte)) :: 'a::len word) n \<longleftrightarrow>
     k \<le> n \<and> n < k + 8 \<and> bit (w :: 'a word) n"
  by (auto simp: bit_simps dest: bit_imp_le_length)

end
