(* ===== verification/Crc32c.thy ===== *)
theory Crc32c
  imports Mkmq_Prelude
begin

text \<open>
  The checksum of \<^verbatim>\<open>src/crc32c.cpp\<close>. The SSE4.2 instructions behind
  \<^verbatim>\<open>_mm_crc32_u8/u32/u64\<close> divide by the Castagnoli polynomial one bit at a time, least
  significant bit first; \<open>crc_step\<close> is that division step on a register of any width. The
  routine consumes eight, then four, then single bytes; it is shown equal to the
  byte-at-a-time checksum, which detects every change inside one byte.
\<close>

section \<open>The CRC32 instructions\<close>

definition castagnoli :: "32 word" where
  "castagnoli = 0x82f63b78"

definition crc_step :: "'a::len word \<Rightarrow> 'a word" where
  "crc_step w = (if bit w 0 then drop_bit 1 w XOR ucast castagnoli else drop_bit 1 w)"

definition mm_crc32_u8 :: "32 word \<Rightarrow> byte \<Rightarrow> 32 word" where
  "mm_crc32_u8 crc v = (crc_step ^^ 8) (crc XOR ucast v)"

definition mm_crc32_u32 :: "32 word \<Rightarrow> 32 word \<Rightarrow> 32 word" where
  "mm_crc32_u32 crc v = (crc_step ^^ 32) (crc XOR v)"

text \<open>The 64-bit form uses the low half of the accumulator only.\<close>

definition mm_crc32_u64 :: "64 word \<Rightarrow> 64 word \<Rightarrow> 64 word" where
  "mm_crc32_u64 crc v = (crc_step ^^ 64) (ucast (ucast crc :: 32 word) XOR v)"

section \<open>crc32c\<close>

text \<open>\<^verbatim>\<open>__builtin_memcpy\<close> into an integer on a little-endian machine.\<close>

fun le_word :: "bytes \<Rightarrow> 'a::len word" where
  "le_word [] = 0"
| "le_word (b # bs) = ucast b OR push_bit 8 (le_word bs)"

function crc_loop64 :: "64 word \<Rightarrow> bytes \<Rightarrow> 64 word \<times> bytes" where
  "crc_loop64 crc data =
     (if length data \<ge> 8 then crc_loop64 (mm_crc32_u64 crc (le_word (take 8 data))) (drop 8 data)
      else (crc, data))"
  by pat_completeness auto
termination
  by (relation "measure (\<lambda>(crc, data). length data)") auto

function crc_loop32 :: "32 word \<Rightarrow> bytes \<Rightarrow> 32 word \<times> bytes" where
  "crc_loop32 crc data =
     (if length data \<ge> 4 then crc_loop32 (mm_crc32_u32 crc (le_word (take 4 data))) (drop 4 data)
      else (crc, data))"
  by pat_completeness auto
termination
  by (relation "measure (\<lambda>(crc, data). length data)") auto

declare crc_loop64.simps [simp del] crc_loop32.simps [simp del]

fun crc_loop8 :: "32 word \<Rightarrow> bytes \<Rightarrow> 32 word" where
  "crc_loop8 crc [] = crc"
| "crc_loop8 crc (b # data) = crc_loop8 (mm_crc32_u8 crc b) data"

definition crc32c :: "bytes \<Rightarrow> 32 word" where
  "crc32c data =
     (let (crc, data1) = crc_loop64 0xffffffff data;
          (crc32, data2) = crc_loop32 (ucast crc) data1
      in crc_loop8 crc32 data2 XOR 0xffffffff)"

text \<open>The checksum taken byte by byte.\<close>

definition crc32c_bytewise :: "bytes \<Rightarrow> 32 word" where
  "crc32c_bytewise data = crc_loop8 0xffffffff data XOR 0xffffffff"

section \<open>The division step is linear and width-independent\<close>

lemma crc_step_xor: "crc_step (a XOR b) = crc_step a XOR crc_step b"
  by (simp add: crc_step_def bit_simps xor.assoc xor.left_commute xor.commute flip: drop_bit_xor)

lemma crc_steps_xor: "(crc_step ^^ n) (a XOR b) = (crc_step ^^ n) a XOR (crc_step ^^ n) b"
  by (induction n) (simp_all add: crc_step_xor)

lemma crc_step_ucast:
  assumes "32 \<le> LENGTH('a::len)"
  shows "crc_step (ucast (c :: 32 word) :: 'a word) = ucast (crc_step c)"
proof -
  have "bit c m \<Longrightarrow> m < LENGTH('a)" for m
    using bit_less_32 [of c m] assms by simp
  then show ?thesis
    by (auto simp: crc_step_def bit_simps intro!: bit_word_eqI)
qed

lemma crc_steps_ucast:
  assumes "32 \<le> LENGTH('a::len)"
  shows "(crc_step ^^ n) (ucast (c :: 32 word) :: 'a word) = ucast ((crc_step ^^ n) c)"
  by (induction n) (simp_all add: crc_step_ucast [OF assms])

lemma crc_steps_low_zero:
  "(\<And>i. i < n \<Longrightarrow> \<not> bit w i) \<Longrightarrow> (crc_step ^^ n) w = drop_bit n w"
proof (induction n)
  case 0
  then show ?case by simp
next
  case (Suc n)
  from Suc.prems have "\<not> bit (drop_bit n w) 0" by (simp add: bit_simps)
  with Suc show ?case by (simp add: crc_step_def)
qed

lemma xor_cancel [simp]: "a XOR c = b XOR c \<longleftrightarrow> a = (b :: 'a::len word)"
  by (metis xor.assoc xor.right_neutral xor_self_eq)

lemma xor_cancel_left [simp]: "c XOR a = c XOR b \<longleftrightarrow> a = (b :: 'a::len word)"
  by (simp add: xor.commute [of c])

lemma crc_step_inj: "crc_step a = crc_step (b :: 32 word) \<Longrightarrow> a = b"
proof -
  assume eq: "crc_step a = crc_step b"
  have top: "bit (crc_step w) 31 = bit w 0" for w :: "32 word"
    by (auto simp: crc_step_def castagnoli_def bit_simps dest: bit_imp_le_length)
  from eq top have low: "bit a 0 = bit b 0" by metis
  with eq have "drop_bit 1 a = drop_bit 1 b"
    by (auto simp: crc_step_def split: if_splits)
  then have high: "bit a (Suc n) = bit b (Suc n)" for n
    by (metis bit_drop_bit_eq comp_apply plus_1_eq_Suc)
  show "a = b"
    by (rule bit_word_eqI) (metis low high not0_implies_Suc)
qed

lemma crc_steps_inj: "(crc_step ^^ n) a = (crc_step ^^ n) (b :: 32 word) \<Longrightarrow> a = b"
  by (induction n) (auto dest: crc_step_inj)

section \<open>Wide chunks equal their bytes\<close>

lemma bit_le_word_bound:
  "bit (le_word bs :: 'a::len word) n \<Longrightarrow> n < 8 * length bs"
proof (induction bs arbitrary: n)
  case Nil
  then show ?case by simp
next
  case (Cons b bs)
  then show ?case
    by (cases "n < 8") (auto simp: bit_simps dest: bit_imp_le_length, fastforce)
qed

lemma crc_steps_byte:
  fixes rest :: "'a::len word"
  assumes len: "32 \<le> LENGTH('a)" and fits: "\<And>i. bit rest i \<Longrightarrow> i + 8 < LENGTH('a)"
  shows "(crc_step ^^ 8) (ucast (c :: 32 word) XOR (ucast (b :: byte) OR push_bit 8 rest)) =
         ucast (mm_crc32_u8 c b) XOR rest"
proof -
  have "ucast b OR push_bit 8 rest = ucast b XOR push_bit 8 rest"
    by (rule bit_word_eqI) (auto simp: bit_simps dest: bit_imp_le_length)
  moreover have "(ucast c :: 'a word) XOR ucast b = ucast (c XOR ucast b)"
    using len by (intro bit_word_eqI) (auto simp: bit_simps dest: bit_imp_le_length)
  ultimately have "ucast c XOR (ucast b OR push_bit 8 rest) = ucast (c XOR ucast b) XOR push_bit 8 rest"
    by (simp flip: xor.assoc)
  moreover have "(crc_step ^^ 8) (push_bit 8 rest) = rest"
  proof -
    have "(crc_step ^^ 8) (push_bit 8 rest) = drop_bit 8 (push_bit 8 rest)"
      by (rule crc_steps_low_zero) (simp add: bit_simps)
    also have "\<dots> = rest"
      by (rule bit_word_eqI) (use fits in \<open>auto simp: bit_simps add.commute\<close>)
    finally show ?thesis .
  qed
  ultimately show ?thesis
    by (simp add: crc_steps_xor crc_steps_ucast [OF len] mm_crc32_u8_def)
qed

lemma crc_steps_le_word:
  assumes len: "32 \<le> LENGTH('a::len)"
  shows "8 * length bs \<le> LENGTH('a) \<Longrightarrow>
    (crc_step ^^ (8 * length bs)) (ucast (c :: 32 word) XOR (le_word bs :: 'a word)) = ucast (crc_loop8 c bs)"
proof (induction bs arbitrary: c)
  case Nil
  then show ?case by simp
next
  case (Cons b bs)
  have fits: "bit (le_word bs :: 'a word) i \<Longrightarrow> i + 8 < LENGTH('a)" for i
    using bit_le_word_bound [of bs i] Cons.prems by fastforce
  have "(crc_step ^^ (8 * length (b # bs))) (ucast c XOR (le_word (b # bs) :: 'a word)) =
        (crc_step ^^ (8 * length bs)) ((crc_step ^^ 8) (ucast c XOR (ucast b OR push_bit 8 (le_word bs))))"
    by (simp add: funpow_add add.commute [of 8])
  also have "\<dots> = (crc_step ^^ (8 * length bs)) (ucast (mm_crc32_u8 c b) XOR le_word bs)"
    by (simp only: crc_steps_byte [OF len fits])
  also have "\<dots> = ucast (crc_loop8 (mm_crc32_u8 c b) bs)"
    using Cons by simp
  finally show ?case by simp
qed

lemma mm_crc32_u32_bytes:
  "length bs = 4 \<Longrightarrow> mm_crc32_u32 c (le_word bs) = crc_loop8 c bs"
  using crc_steps_le_word [where ?'a = 32, of bs c] by (simp add: mm_crc32_u32_def)

lemma mm_crc32_u64_bytes:
  "length bs = 8 \<Longrightarrow> ucast (mm_crc32_u64 c (le_word bs)) = crc_loop8 (ucast c) bs"
  using crc_steps_le_word [where ?'a = 64, of bs "ucast c"]
  by (simp add: mm_crc32_u64_def) (rule bit_word_eqI, simp add: bit_simps)

lemma crc_loop8_append: "crc_loop8 c (xs @ ys) = crc_loop8 (crc_loop8 c xs) ys"
  by (induction xs arbitrary: c) auto

lemma crc_loop64_bytes:
  "crc_loop64 c data = (c', data') \<Longrightarrow> crc_loop8 (ucast c') data' = crc_loop8 (ucast c) data"
proof (induction c data rule: crc_loop64.induct)
  case (1 c data)
  show ?case
  proof (cases "length data \<ge> 8")
    case True
    with 1 have "crc_loop8 (ucast c') data' =
        crc_loop8 (ucast (mm_crc32_u64 c (le_word (take 8 data)))) (drop 8 data)"
      by (simp add: crc_loop64.simps [of c data])
    also have "\<dots> = crc_loop8 (ucast c) (take 8 data @ drop 8 data)"
      using True by (simp only: crc_loop8_append) (simp add: mm_crc32_u64_bytes)
    finally show ?thesis by simp
  next
    case False
    with "1.prems" show ?thesis by (simp add: crc_loop64.simps [of c data])
  qed
qed

lemma crc_loop32_bytes:
  "crc_loop32 c data = (c', data') \<Longrightarrow> crc_loop8 c' data' = crc_loop8 c data"
proof (induction c data rule: crc_loop32.induct)
  case (1 c data)
  show ?case
  proof (cases "length data \<ge> 4")
    case True
    with 1 have "crc_loop8 c' data' =
        crc_loop8 (mm_crc32_u32 c (le_word (take 4 data))) (drop 4 data)"
      by (simp add: crc_loop32.simps [of c data])
    also have "\<dots> = crc_loop8 c (take 4 data @ drop 4 data)"
      using True by (simp only: crc_loop8_append) (simp add: mm_crc32_u32_bytes)
    finally show ?thesis by simp
  next
    case False
    with "1.prems" show ?thesis by (simp add: crc_loop32.simps [of c data])
  qed
qed

lemma crc32c_eq_bytewise: "crc32c data = crc32c_bytewise data"
proof -
  obtain c1 d1 where 1: "crc_loop64 0xffffffff data = (c1, d1)" by (cases "crc_loop64 0xffffffff data")
  obtain c2 d2 where 2: "crc_loop32 (ucast c1) d1 = (c2, d2)" by (cases "crc_loop32 (ucast c1) d1")
  have "crc_loop8 c2 d2 = crc_loop8 (ucast (0xffffffff :: 64 word)) data"
    using crc_loop64_bytes [OF 1] crc_loop32_bytes [OF 2] by simp
  then show ?thesis
    by (simp add: crc32c_def crc32c_bytewise_def 1 2)
qed

section \<open>Error detection\<close>

lemma mm_crc32_u8_inj_crc: "mm_crc32_u8 c b = mm_crc32_u8 c' b \<Longrightarrow> c = c'"
  unfolding mm_crc32_u8_def by (drule crc_steps_inj) simp

lemma mm_crc32_u8_inj_byte: "mm_crc32_u8 c b = mm_crc32_u8 c b' \<Longrightarrow> b = b'"
proof -
  assume "mm_crc32_u8 c b = mm_crc32_u8 c b'"
  then have "(ucast b :: 32 word) = ucast b'"
    unfolding mm_crc32_u8_def by (auto dest: crc_steps_inj)
  moreover have "ucast (ucast x :: 32 word) = x" for x :: byte
    by (rule bit_word_eqI) (simp add: bit_simps)
  ultimately show "b = b'" by metis
qed

lemma crc_loop8_inj: "crc_loop8 c bs = crc_loop8 c' bs \<Longrightarrow> c = c'"
  by (induction bs arbitrary: c c') (auto dest: mm_crc32_u8_inj_crc)

section \<open>Properties\<close>

lemma eight_steps: "(f ^^ 8) x = f (f (f (f (f (f (f (f x)))))))"
  by (simp add: numeral_eq_Suc)

lemma crc_step_lit:
  "crc_step (w :: 32 word) = (if odd w then drop_bit 1 w XOR 0x82f63b78 else drop_bit 1 w)"
  by (simp add: crc_step_def castagnoli_def bit_0)

text \<open>The catalogue check value of CRC-32C, the checksum of the ASCII digits 1 to 9.\<close>

lemma crc32c_check_value: "crc32c [0x31, 0x32, 0x33, 0x34, 0x35, 0x36, 0x37, 0x38, 0x39] = 0xE3069283"
  by (simp add: crc32c_eq_bytewise crc32c_bytewise_def mm_crc32_u8_def eight_steps crc_step_lit)

text \<open>
  C38: the checksum routine, which consumes the data in eight-byte and four-byte chunks with a
  64-bit accumulator, equals the byte-at-a-time CRC-32C of the same data, whatever the length.
\<close>

theorem crc32c_bytewise_equiv: "crc32c data = crc32c_bytewise data"
  by (rule crc32c_eq_bytewise)

text \<open>
  C39: a change confined to one byte of a record batch always changes its checksum.
\<close>

theorem crc32c_detects_byte_error: "b \<noteq> b' \<Longrightarrow> crc32c (xs @ b # ys) \<noteq> crc32c (xs @ b' # ys)"
  by (auto simp: crc32c_eq_bytewise crc32c_bytewise_def crc_loop8_append
      dest: crc_loop8_inj mm_crc32_u8_inj_byte)

theorem crc32c_detects_byte_error_witness:
  "crc32c ([1, 2, 3] @ 4 # [5, 6, 7, 8, 9]) \<noteq> crc32c ([1, 2, 3] @ 5 # [5, 6, 7, 8, 9])"
  by (rule crc32c_detects_byte_error) simp

end
