(* ===== verification/Decimal.thy ===== *)
theory Decimal
  imports Mkmq_Prelude
begin

text \<open>
  The decimal text of integers as the C++ library produces and reads it: \<^verbatim>\<open>std::to_string\<close>,
  an output stream with \<^verbatim>\<open>std::setw\<close> and \<^verbatim>\<open>std::setfill('0')\<close>, and \<^verbatim>\<open>std::stoll\<close> on a string
  of digits. The text of a number is read back to the number, with or without padding.
\<close>

definition digit_char :: "nat \<Rightarrow> char" where
  "digit_char d = char_of (48 + d)"

definition is_digit :: "char \<Rightarrow> bool" where
  "is_digit c \<longleftrightarrow> (of_char c :: nat) \<ge> 48 \<and> (of_char c :: nat) \<le> 57"

definition digit_value :: "char \<Rightarrow> nat" where
  "digit_value c = of_char c - 48"

fun nat_to_string :: "nat \<Rightarrow> string" where
  "nat_to_string n = (if n < 10 then [digit_char n] else nat_to_string (n div 10) @ [digit_char (n mod 10)])"

declare nat_to_string.simps [simp del]

definition to_string_int :: "int \<Rightarrow> string" where
  "to_string_int v = (if v < 0 then CHR ''-'' # nat_to_string (nat (- v)) else nat_to_string (nat v))"

text \<open>\<^verbatim>\<open>out << std::setw(w) << std::setfill('0') << s\<close>: the padding goes before the text.\<close>

definition setw_zero :: "nat \<Rightarrow> string \<Rightarrow> string" where
  "setw_zero w s = replicate (w - length s) CHR ''0'' @ s"

definition digits_value :: "string \<Rightarrow> nat" where
  "digits_value s = foldl (\<lambda>acc c. 10 * acc + digit_value c) 0 s"

text \<open>\<^verbatim>\<open>std::stoll\<close> on a non-empty string of digits.\<close>

definition stoll :: "string \<Rightarrow> int result" where
  "stoll digits =
     (if digits_value digits \<ge> 2 ^ 63 then Inl (OutOfRange ''stoll'') else Inr (int (digits_value digits)))"

lemma of_digit_char: "d < 10 \<Longrightarrow> of_char (digit_char d) = 48 + d"
  by (simp add: digit_char_def)

lemma is_digit_digit_char [simp]: "d < 10 \<Longrightarrow> is_digit (digit_char d)"
  by (simp add: is_digit_def of_digit_char)

lemma digit_value_digit_char [simp]: "d < 10 \<Longrightarrow> digit_value (digit_char d) = d"
  by (simp add: digit_value_def of_digit_char)

lemma is_digit_zero [simp]: "is_digit CHR ''0''" and digit_value_zero [simp]: "digit_value CHR ''0'' = 0"
  by (simp_all add: is_digit_def digit_value_def)

lemma not_is_digit_minus [simp]: "\<not> is_digit CHR ''-''"
  by (simp add: is_digit_def)

lemma digits_value_snoc [simp]: "digits_value (s @ [c]) = 10 * digits_value s + digit_value c"
  by (simp add: digits_value_def)

lemma digits_value_zeros [simp]: "digits_value (replicate k CHR ''0'' @ s) = digits_value s"
  by (induction k) (simp_all add: digits_value_def)

lemma nat_to_string_digits: "list_all is_digit (nat_to_string n)"
  by (induction n rule: nat_to_string.induct) (subst nat_to_string.simps, simp)

lemma nat_to_string_not_Nil [simp]: "nat_to_string n \<noteq> []"
  by (subst nat_to_string.simps) simp

lemma digits_value_nat_to_string [simp]: "digits_value (nat_to_string n) = n"
proof (induction n rule: nat_to_string.induct)
  case (1 n)
  then show ?case
    by (subst nat_to_string.simps) (simp add: digits_value_def)
qed

lemma nat_to_string_inject [simp]: "nat_to_string m = nat_to_string n \<longleftrightarrow> m = n"
  by (metis digits_value_nat_to_string)

lemma nat_to_string_no_minus: "CHR ''-'' \<notin> set (nat_to_string n)"
  using nat_to_string_digits [of n] by (auto simp: list_all_iff)

lemma to_string_int_inject [simp]: "to_string_int u = to_string_int v \<longleftrightarrow> u = v"
proof -
  have "nat_to_string m \<noteq> CHR ''-'' # s" for m s
    using nat_to_string_no_minus [of m] by auto
  then show ?thesis
    by (auto simp: to_string_int_def eq_nat_nat_iff split: if_splits) (metis)+
qed

lemma setw_zero_nat:
  assumes "0 \<le> v"
  shows "list_all is_digit (setw_zero w (to_string_int v))" and "setw_zero w (to_string_int v) \<noteq> []"
    and "digits_value (setw_zero w (to_string_int v)) = nat v"
  using assms nat_to_string_digits [of "nat v"]
  by (auto simp: setw_zero_def to_string_int_def list_all_iff)

lemma stoll_setw_zero: "0 \<le> v \<Longrightarrow> i64 v \<Longrightarrow> stoll (setw_zero w (to_string_int v)) = Inr v"
  by (simp add: stoll_def setw_zero_nat i64_def nat_le_iff not_le nat_less_iff)

lemma stoll_not_OutOfBounds [simp]: "stoll s \<noteq> Inl OutOfBounds"
  by (simp add: stoll_def)

end
