(* ===== verification/Config.thy ===== *)
theory Config
  imports Decimal
begin

text \<open>
  The broker configuration of \<^verbatim>\<open>include/mkmq/config.hpp\<close> and \<^verbatim>\<open>src/config.cpp\<close>. The YAML
  library is a parameter: the record \<open>yaml\<close> holds the accessors the source calls on a node
  of an unspecified type. Validation is shown equivalent to the declarative \<open>config_ok\<close>.
\<close>

section \<open>Data\<close>

datatype Durability = DurWrite | DurFsync

datatype FetchVisibility = HighWatermark | LeaderLocalEnd

record BrokerEndpoint =
  be_id :: int
  be_kafka_host :: string
  be_kafka_port :: nat
  be_mercury_address :: string

record PartitionConfig =
  pc_topic :: string
  pc_partition :: int
  pc_shard :: nat
  pc_replicas :: "int list"
  pc_isr :: "int list"
  pc_durability :: Durability
  pc_queue_limit :: nat
  pc_max_frame_bytes :: nat
  pc_fetch_visibility :: FetchVisibility
  pc_allow_follower_fetch :: bool
  pc_leader :: int
  pc_migration_generation :: nat
  pc_migration_target_shard :: nat
  pc_migration_target_leader :: int

record TopicConfig =
  tc_name :: string
  tc_partitions :: "PartitionConfig list"

record BrokerConfig =
  bc_node_id :: int
  bc_cluster_generation :: nat
  bc_data_dir :: string
  bc_metrics_port :: nat
  bc_fetch_max_wait_ms_cap :: nat
  bc_produce_wait_ms_cap :: nat
  bc_segment_bytes :: nat
  bc_brokers :: "BrokerEndpoint list"
  bc_topics :: "TopicConfig list"

section \<open>validate_config\<close>

text \<open>\<^verbatim>\<open>"partition " + topic + "/" + std::to_string(partition) + what\<close>\<close>

definition partition_error :: "string \<Rightarrow> int \<Rightarrow> string \<Rightarrow> error" where
  "partition_error topic p what =
     RuntimeError (''partition '' @ topic @ ''/'' @ to_string_int p @ what)"

abbreviation partition_key :: "PartitionConfig \<Rightarrow> string \<times> int" where
  "partition_key p \<equiv> (pc_topic p, pc_partition p)"

definition validate_broker :: "BrokerEndpoint \<Rightarrow> int set \<Rightarrow> int set result" where
  "validate_broker broker broker_ids =
     (if be_id broker \<in> broker_ids
      then Inl (RuntimeError (''duplicate broker id: '' @ to_string_int (be_id broker)))
      else if be_kafka_host broker = [] \<or> be_kafka_port broker = 0 \<or> be_mercury_address broker = []
      then Inl (RuntimeError (''broker '' @ to_string_int (be_id broker) @ '' requires kafka and Mercury endpoints''))
      else Inr (insert (be_id broker) broker_ids))"

definition validate_partition ::
    "int set \<Rightarrow> PartitionConfig \<Rightarrow> (string \<times> int) set \<Rightarrow> (string \<times> int) set result" where
  "validate_partition broker_ids p partitions =
     (let err = partition_error (pc_topic p) (pc_partition p);
          in_replicas = (\<lambda>i. i \<in> set (pc_replicas p))
      in rbind (guardR (partition_key p \<notin> partitions)
                  (RuntimeError (''duplicate partition '' @ pc_topic p @ ''/'' @ to_string_int (pc_partition p)))) (\<lambda>_.
         rbind (guardR (pc_replicas p \<noteq> []) (err '' requires at least one replica'')) (\<lambda>_.
         rbind (guardR (pc_isr p \<noteq> []) (err '' requires at least one ISR'')) (\<lambda>_.
         rbind (guardR (in_replicas (pc_leader p)) (err '' leader must be in replicas'')) (\<lambda>_.
         rbind (foldR (\<lambda>replica _. guardR (replica \<in> broker_ids) (err '' references unknown replica broker''))
                  (pc_replicas p) ()) (\<lambda>_.
         rbind (foldR (\<lambda>isr _. guardR (in_replicas isr) (err '' ISR must be a subset of replicas''))
                  (pc_isr p) ()) (\<lambda>_.
         rbind (guardR (\<not> (pc_queue_limit p = 0 \<or> pc_max_frame_bytes p = 0))
                  (err '' queue_limit and max_frame_bytes must be positive'')) (\<lambda>_.
         rbind (guardR (\<not> (pc_migration_generation p \<noteq> 0 \<and>
                          (pc_migration_target_leader p < 0 \<or> pc_migration_target_leader p \<notin> broker_ids)))
                  (err '' migration target_leader must reference a broker'')) (\<lambda>_.
         Inr (insert (partition_key p) partitions))))))))))"

definition validate_topic ::
    "int set \<Rightarrow> TopicConfig \<Rightarrow> (string \<times> int) set \<Rightarrow> (string \<times> int) set result" where
  "validate_topic broker_ids topic partitions =
     rbind (guardR (tc_name topic \<noteq> []) (RuntimeError ''topic name must not be empty'')) (\<lambda>_.
     foldR (validate_partition broker_ids) (tc_partitions topic) partitions)"

definition validate_config :: "BrokerConfig \<Rightarrow> unit result" where
  "validate_config config =
     rbind (foldR validate_broker (bc_brokers config) {}) (\<lambda>broker_ids.
     rbind (guardR (bc_node_id config \<in> broker_ids)
              (RuntimeError ''node_id does not match any configured broker'')) (\<lambda>_.
     rbind (guardR (bc_segment_bytes config \<noteq> 0)
              (RuntimeError ''segment_bytes must be positive'')) (\<lambda>_.
     rbind (foldR (validate_topic broker_ids) (bc_topics config) {}) (\<lambda>_. Inr ()))))"

section \<open>Parsing\<close>

text \<open>
  What the source uses of the YAML library: \<open>y_get\<close> is \<^verbatim>\<open>node[field]\<close>, with None for an
  undefined node and an error where the library throws; the others are \<^verbatim>\<open>IsSequence\<close>, the
  elements an iteration visits, and \<^verbatim>\<open>as<T>()\<close>, which also accepts an undefined node.
\<close>

record 'n yaml =
  y_get :: "'n \<Rightarrow> string \<Rightarrow> 'n option result"
  y_is_sequence :: "'n \<Rightarrow> bool"
  y_items :: "'n \<Rightarrow> 'n list"
  y_string :: "'n option \<Rightarrow> string result"
  y_int32 :: "'n option \<Rightarrow> int result"
  y_unsigned :: "'n option \<Rightarrow> nat result"
  y_uint16 :: "'n option \<Rightarrow> nat result"
  y_uint32 :: "'n option \<Rightarrow> nat result"
  y_uint64 :: "'n option \<Rightarrow> nat result"
  y_bool :: "'n option \<Rightarrow> bool result"

definition require_node :: "'n yaml \<Rightarrow> 'n \<Rightarrow> string \<Rightarrow> 'n option result" where
  "require_node y node field =
     rbind (y_get y node field) (\<lambda>v.
     if v = None then Inl (RuntimeError (''config requires '' @ field)) else Inr v)"

definition require_partition_field :: "'n yaml \<Rightarrow> 'n \<Rightarrow> string \<Rightarrow> int \<Rightarrow> string \<Rightarrow> unit result" where
  "require_partition_field y node topic p field =
     rbind (y_get y node field) (\<lambda>v.
     guardR (v \<noteq> None) (partition_error topic p ('' requires '' @ field)))"

definition parse_durability :: "'n yaml \<Rightarrow> 'n option \<Rightarrow> Durability result" where
  "parse_durability y node =
     rbind (y_string y node) (\<lambda>v.
     if v = ''write'' then Inr DurWrite
     else if v = ''fsync'' then Inr DurFsync
     else Inl (RuntimeError (''durability must be '' @ [CHR 0x27] @ ''write'' @ [CHR 0x27] @ '' or '' @
            [CHR 0x27] @ ''fsync'' @ [CHR 0x27])))"

definition parse_visibility :: "'n yaml \<Rightarrow> 'n option \<Rightarrow> FetchVisibility result" where
  "parse_visibility y node =
     rbind (y_string y node) (\<lambda>v.
     if v = ''high_watermark'' then Inr HighWatermark
     else if v = ''leader_local_end'' then Inr LeaderLocalEnd
     else Inl (RuntimeError (''fetch_visibility must be '' @ [CHR 0x27] @ ''high_watermark'' @ [CHR 0x27] @
            '' or '' @ [CHR 0x27] @ ''leader_local_end'' @ [CHR 0x27])))"

definition parse_vector ::
    "'n yaml \<Rightarrow> ('n option \<Rightarrow> 't result) \<Rightarrow> 'n option \<Rightarrow> string \<Rightarrow> 't list result" where
  "parse_vector y as_T node field =
     (case node of
        Some n \<Rightarrow>
          if y_is_sequence y n then mapR (\<lambda>item. as_T (Some item)) (y_items y n)
          else Inl (RuntimeError (field @ '' must be a YAML sequence''))
      | None \<Rightarrow> Inl (RuntimeError (field @ '' must be a YAML sequence'')))"

text \<open>\<^verbatim>\<open>root[field] ? root[field].as<T>() : fallback\<close>\<close>

definition optional_field ::
    "'n yaml \<Rightarrow> ('n option \<Rightarrow> 't result) \<Rightarrow> 'n \<Rightarrow> string \<Rightarrow> 't \<Rightarrow> 't result" where
  "optional_field y as_T node field fallback =
     rbind (y_get y node field) (\<lambda>v. if v = None then Inr fallback else as_T v)"

text \<open>\<^verbatim>\<open>if (!node[field] || !node[field].IsSequence()) throw ...; for (item : node[field])\<close>\<close>

definition sequence_field :: "'n yaml \<Rightarrow> 'n \<Rightarrow> string \<Rightarrow> string \<Rightarrow> 'n list result" where
  "sequence_field y node field message =
     rbind (y_get y node field) (\<lambda>v.
     case v of
       Some n \<Rightarrow> if y_is_sequence y n then Inr (y_items y n) else Inl (RuntimeError message)
     | None \<Rightarrow> Inl (RuntimeError message))"

definition parse_broker :: "'n yaml \<Rightarrow> 'n \<Rightarrow> BrokerEndpoint result" where
  "parse_broker y node =
     rbind (rbind (require_node y node ''id'') (y_int32 y)) (\<lambda>i.
     rbind (rbind (require_node y node ''kafka_host'') (y_string y)) (\<lambda>host.
     rbind (rbind (require_node y node ''kafka_port'') (y_uint16 y)) (\<lambda>port.
     rbind (rbind (require_node y node ''mercury_address'') (y_string y)) (\<lambda>address.
     Inr \<lparr>be_id = i, be_kafka_host = host, be_kafka_port = port, be_mercury_address = address\<rparr>))))"

text \<open>The migration block; without one the defaults of the struct stay.\<close>

definition parse_migration :: "'n yaml \<Rightarrow> 'n option \<Rightarrow> (nat \<times> nat \<times> int) result" where
  "parse_migration y node =
     (case node of
        None \<Rightarrow> Inr (0, 0, - 1)
      | Some migration \<Rightarrow>
          rbind (rbind (require_node y migration ''generation'') (y_uint64 y)) (\<lambda>generation.
          rbind (rbind (require_node y migration ''target_shard'') (y_unsigned y)) (\<lambda>target_shard.
          rbind (rbind (require_node y migration ''target_leader'') (y_int32 y)) (\<lambda>target_leader.
          Inr (generation, target_shard, target_leader)))))"

definition required_partition_fields :: "string list" where
  "required_partition_fields =
     [''shard'', ''leader'', ''replicas'', ''isr'', ''durability'', ''queue_limit'', ''max_frame_bytes'',
      ''fetch_visibility'', ''allow_follower_fetch'']"

definition parse_partition :: "'n yaml \<Rightarrow> string \<Rightarrow> 'n \<Rightarrow> PartitionConfig result" where
  "parse_partition y topic node =
     rbind (rbind (require_node y node ''id'') (y_int32 y)) (\<lambda>p.
     rbind (foldR (\<lambda>field _. require_partition_field y node topic p field) required_partition_fields ()) (\<lambda>_.
     rbind (rbind (y_get y node ''shard'') (y_unsigned y)) (\<lambda>shard.
     rbind (rbind (y_get y node ''replicas'') (\<lambda>v. parse_vector y (y_int32 y) v ''replicas'')) (\<lambda>replicas.
     rbind (rbind (y_get y node ''isr'') (\<lambda>v. parse_vector y (y_int32 y) v ''isr'')) (\<lambda>isr.
     rbind (rbind (y_get y node ''leader'') (y_int32 y)) (\<lambda>leader.
     rbind (rbind (y_get y node ''durability'') (parse_durability y)) (\<lambda>durability.
     rbind (rbind (y_get y node ''queue_limit'') (y_uint32 y)) (\<lambda>queue_limit.
     rbind (rbind (y_get y node ''max_frame_bytes'') (y_uint32 y)) (\<lambda>max_frame_bytes.
     rbind (rbind (y_get y node ''fetch_visibility'') (parse_visibility y)) (\<lambda>visibility.
     rbind (rbind (y_get y node ''allow_follower_fetch'') (y_bool y)) (\<lambda>follower_fetch.
     rbind (rbind (y_get y node ''migration'') (parse_migration y)) (\<lambda>(generation, target_shard, target_leader).
     Inr \<lparr>pc_topic = topic, pc_partition = p, pc_shard = shard, pc_replicas = replicas, pc_isr = isr,
          pc_durability = durability, pc_queue_limit = queue_limit, pc_max_frame_bytes = max_frame_bytes,
          pc_fetch_visibility = visibility, pc_allow_follower_fetch = follower_fetch, pc_leader = leader,
          pc_migration_generation = generation, pc_migration_target_shard = target_shard,
          pc_migration_target_leader = target_leader\<rparr>))))))))))))"

definition parse_topic :: "'n yaml \<Rightarrow> 'n \<Rightarrow> TopicConfig result" where
  "parse_topic y node =
     rbind (rbind (y_get y node ''name'') (y_string y)) (\<lambda>name.
     rbind (sequence_field y node ''partitions'' (''topic '' @ name @ '' requires partitions sequence'')) (\<lambda>items.
     rbind (mapR (parse_partition y name) items) (\<lambda>partitions.
     Inr \<lparr>tc_name = name, tc_partitions = partitions\<rparr>)))"

definition parse_config_node :: "'n yaml \<Rightarrow> 'n \<Rightarrow> BrokerConfig result" where
  "parse_config_node y root =
     rbind (rbind (require_node y root ''node_id'') (y_int32 y)) (\<lambda>node_id.
     rbind (rbind (require_node y root ''cluster_generation'') (y_uint64 y)) (\<lambda>generation.
     rbind (rbind (require_node y root ''data_dir'') (y_string y)) (\<lambda>data_dir.
     rbind (optional_field y (y_uint16 y) root ''metrics_port'' 9642) (\<lambda>metrics_port.
     rbind (optional_field y (y_uint32 y) root ''fetch_max_wait_ms_cap'' 100) (\<lambda>fetch_cap.
     rbind (optional_field y (y_uint32 y) root ''produce_wait_ms_cap'' 100) (\<lambda>produce_cap.
     rbind (optional_field y (y_uint64 y) root ''segment_bytes'' (1024 * 1024 * 1024)) (\<lambda>segment_bytes.
     rbind (rbind (sequence_field y root ''brokers'' ''config requires brokers sequence'')
              (mapR (parse_broker y))) (\<lambda>brokers.
     rbind (rbind (sequence_field y root ''topics'' ''config requires topics sequence'')
              (mapR (parse_topic y))) (\<lambda>topics.
     let config = \<lparr>bc_node_id = node_id, bc_cluster_generation = generation, bc_data_dir = data_dir,
           bc_metrics_port = metrics_port, bc_fetch_max_wait_ms_cap = fetch_cap,
           bc_produce_wait_ms_cap = produce_cap, bc_segment_bytes = segment_bytes,
           bc_brokers = brokers, bc_topics = topics\<rparr>
     in rbind (validate_config config) (\<lambda>_. Inr config))))))))))"

definition load_config_yaml :: "'n yaml \<Rightarrow> (string \<Rightarrow> 'n result) \<Rightarrow> string \<Rightarrow> BrokerConfig result" where
  "load_config_yaml y load text = rbind (load text) (parse_config_node y)"

section \<open>Lookups and names\<close>

fun find_in_topics :: "TopicConfig list \<Rightarrow> string \<Rightarrow> int \<Rightarrow> PartitionConfig option" where
  "find_in_topics [] topic p = None"
| "find_in_topics (t # ts) topic p =
     (if tc_name t \<noteq> topic then find_in_topics ts topic p
      else case List.find (\<lambda>candidate. pc_partition candidate = p) (tc_partitions t) of
             Some found \<Rightarrow> Some found
           | None \<Rightarrow> find_in_topics ts topic p)"

definition find_partition :: "BrokerConfig \<Rightarrow> string \<Rightarrow> int \<Rightarrow> PartitionConfig option" where
  "find_partition config topic p = find_in_topics (bc_topics config) topic p"

definition find_broker :: "BrokerConfig \<Rightarrow> int \<Rightarrow> BrokerEndpoint option" where
  "find_broker config node_id = List.find (\<lambda>broker. be_id broker = node_id) (bc_brokers config)"

definition to_string_durability :: "Durability \<Rightarrow> string" where
  "to_string_durability d = (if d = DurFsync then ''fsync'' else ''write'')"

definition to_string_visibility :: "FetchVisibility \<Rightarrow> string" where
  "to_string_visibility v = (if v = LeaderLocalEnd then ''leader_local_end'' else ''high_watermark'')"

text \<open>\<^verbatim>\<open>all_partitions\<close> of \<^verbatim>\<open>src/broker_shard_detail.cpp\<close>\<close>

definition all_partitions :: "BrokerConfig \<Rightarrow> PartitionConfig list" where
  "all_partitions config = concat (map tc_partitions (bc_topics config))"

section \<open>What a valid configuration is\<close>

definition partition_ok :: "int set \<Rightarrow> PartitionConfig \<Rightarrow> bool" where
  "partition_ok broker_ids p \<longleftrightarrow>
     pc_isr p \<noteq> [] \<and> pc_leader p \<in> set (pc_replicas p) \<and>
     set (pc_replicas p) \<subseteq> broker_ids \<and> set (pc_isr p) \<subseteq> set (pc_replicas p) \<and>
     0 < pc_queue_limit p \<and> 0 < pc_max_frame_bytes p \<and>
     (pc_migration_generation p = 0 \<or>
      0 \<le> pc_migration_target_leader p \<and> pc_migration_target_leader p \<in> broker_ids)"

definition broker_ok :: "BrokerEndpoint \<Rightarrow> bool" where
  "broker_ok b \<longleftrightarrow> be_kafka_host b \<noteq> [] \<and> be_kafka_port b \<noteq> 0 \<and> be_mercury_address b \<noteq> []"

definition config_ok :: "BrokerConfig \<Rightarrow> bool" where
  "config_ok c \<longleftrightarrow>
     distinct (map be_id (bc_brokers c)) \<and> (\<forall>b\<in>set (bc_brokers c). broker_ok b) \<and>
     bc_node_id c \<in> be_id ` set (bc_brokers c) \<and> 0 < bc_segment_bytes c \<and>
     (\<forall>t\<in>set (bc_topics c). tc_name t \<noteq> []) \<and>
     distinct (map partition_key (all_partitions c)) \<and>
     (\<forall>p\<in>set (all_partitions c). partition_ok (be_id ` set (bc_brokers c)) p)"

text \<open>The topic name is repeated in each partition of the topic.\<close>

definition topics_named :: "BrokerConfig \<Rightarrow> bool" where
  "topics_named c \<longleftrightarrow>
     (\<forall>t\<in>set (bc_topics c). \<forall>p\<in>set (tc_partitions t). pc_topic p = tc_name t)"

section \<open>Validation is the declarative predicate\<close>

lemma foldR_insert_iff:
  assumes "\<And>x S S'. f x S = Inr S' \<longleftrightarrow> k x \<notin> S \<and> P x \<and> S' = insert (k x) S"
  shows "foldR f xs S = Inr S' \<longleftrightarrow>
           distinct (map k xs) \<and> k ` set xs \<inter> S = {} \<and> (\<forall>x\<in>set xs. P x) \<and> S' = S \<union> k ` set xs"
proof (induction xs arbitrary: S)
  case Nil
  then show ?case by auto
next
  case (Cons x xs)
  then show ?case by (auto simp: rbind_eq_Inr_iff assms)
qed

lemma validate_broker_iff:
  "validate_broker b S = Inr S' \<longleftrightarrow> be_id b \<notin> S \<and> broker_ok b \<and> S' = insert (be_id b) S"
  by (auto simp: validate_broker_def broker_ok_def)

lemma validate_partition_iff:
  "validate_partition ids p S = Inr S' \<longleftrightarrow>
     partition_key p \<notin> S \<and> partition_ok ids p \<and> S' = insert (partition_key p) S"
  by (auto simp: validate_partition_def Let_def partition_ok_def rbind_eq_Inr_iff foldR_unit_iff not_le)

lemma foldR_validate_topic:
  "foldR (validate_topic ids) ts S = Inr S' \<longleftrightarrow>
     (\<forall>t\<in>set ts. tc_name t \<noteq> []) \<and>
     foldR (validate_partition ids) (concat (map tc_partitions ts)) S = Inr S'"
  by (induction ts arbitrary: S) (auto simp: validate_topic_def foldR_append rbind_eq_Inr_iff)

lemma validate_config_iff: "validate_config c = Inr () \<longleftrightarrow> config_ok c"
  by (auto simp: validate_config_def config_ok_def rbind_eq_Inr_iff foldR_validate_topic
      foldR_insert_iff [OF validate_broker_iff] foldR_insert_iff [OF validate_partition_iff]
      all_partitions_def)

lemma parse_partition_topic: "parse_partition y topic node = Inr p \<Longrightarrow> pc_topic p = topic"
  by (auto simp: parse_partition_def rbind_eq_Inr_iff)

lemma parse_topic_named: "parse_topic y node = Inr t \<Longrightarrow> \<forall>p\<in>set (tc_partitions t). pc_topic p = tc_name t"
  by (auto simp: parse_topic_def rbind_eq_Inr_iff dest!: mapR_in_set parse_partition_topic)

lemma parse_config_node_named: "parse_config_node y root = Inr c \<Longrightarrow> topics_named c"
  by (auto simp: parse_config_node_def topics_named_def Let_def rbind_eq_Inr_iff
      dest!: mapR_in_set parse_topic_named)

lemma parse_config_node_ok: "parse_config_node y root = Inr c \<Longrightarrow> config_ok c"
  by (auto simp: parse_config_node_def Let_def rbind_eq_Inr_iff validate_config_iff)

section \<open>Lookups\<close>

lemma find_in_topics_Some:
  "find_in_topics ts topic n = Some p \<Longrightarrow>
     (\<exists>t\<in>set ts. tc_name t = topic \<and> p \<in> set (tc_partitions t)) \<and> pc_partition p = n"
  by (induction ts) (auto split: if_splits option.splits simp: find_Some_iff)

lemma find_in_topics_None:
  "find_in_topics ts topic n = None \<longleftrightarrow>
     (\<forall>t\<in>set ts. tc_name t = topic \<longrightarrow> (\<forall>p\<in>set (tc_partitions t). pc_partition p \<noteq> n))"
  by (induction ts) (auto split: option.splits simp: find_None_iff find_Some_iff)

lemma distinct_key_eq:
  assumes "distinct (map k xs)" "x \<in> set xs" "y \<in> set xs" "k x = k y"
  shows "x = y"
  using assms by (metis distinct_map inj_onD)

lemma find_partition_iff:
  assumes "topics_named c" and "distinct (map partition_key (all_partitions c))"
  shows "find_partition c topic n = Some p \<longleftrightarrow>
           p \<in> set (all_partitions c) \<and> pc_topic p = topic \<and> pc_partition p = n"
proof
  assume "find_partition c topic n = Some p"
  then show "p \<in> set (all_partitions c) \<and> pc_topic p = topic \<and> pc_partition p = n"
    using assms(1) find_in_topics_Some [of "bc_topics c" topic n p]
    by (auto simp: find_partition_def topics_named_def all_partitions_def)
next
  assume p: "p \<in> set (all_partitions c) \<and> pc_topic p = topic \<and> pc_partition p = n"
  with assms(1) have "find_in_topics (bc_topics c) topic n \<noteq> None"
    unfolding find_in_topics_None by (auto simp: topics_named_def all_partitions_def)
  then obtain q where q: "find_in_topics (bc_topics c) topic n = Some q" by auto
  have "q \<in> set (all_partitions c)" "partition_key q = partition_key p"
    using find_in_topics_Some [OF q] assms(1) p by (auto simp: topics_named_def all_partitions_def)
  with distinct_key_eq [OF assms(2)] p have "q = p" by blast
  with q show "find_partition c topic n = Some p" by (simp add: find_partition_def)
qed

lemma find_broker_iff:
  assumes "distinct (map be_id (bc_brokers c))"
  shows "find_broker c n = Some b \<longleftrightarrow> b \<in> set (bc_brokers c) \<and> be_id b = n"
proof
  assume "find_broker c n = Some b"
  then show "b \<in> set (bc_brokers c) \<and> be_id b = n"
    by (auto simp: find_broker_def find_Some_iff)
next
  assume b: "b \<in> set (bc_brokers c) \<and> be_id b = n"
  then have "find_broker c n \<noteq> None" by (auto simp: find_broker_def find_None_iff)
  then obtain b' where b': "find_broker c n = Some b'" by auto
  then have "b' \<in> set (bc_brokers c)" "be_id b' = be_id b"
    using b by (auto simp: find_broker_def find_Some_iff)
  with distinct_key_eq [OF assms] b b' show "find_broker c n = Some b" by metis
qed

section \<open>Properties\<close>

text \<open>
  C27: configuration validation accepts exactly the well-formed configurations: distinct broker
  ids with complete endpoints, a known node id, a positive segment size, named topics, no
  repeated topic partition, and for every partition a leader among its replicas, known
  replicas, a non-empty in-sync set within them, positive limits and a known migration target.
\<close>

theorem validate_config_exact: "validate_config c = Inr () \<longleftrightarrow> config_ok c"
  by (rule validate_config_iff)

text \<open>
  C28: whatever the YAML library delivers, a configuration that is loaded is well formed, and its
  lookups are exact: a partition is found if and only if it is configured under that topic and
  id, and every broker, the local one included, is found under its id.
\<close>

theorem loaded_config_lookups:
  assumes "load_config_yaml y load text = Inr c"
  shows "config_ok c \<and>
    (find_partition c topic n = Some p \<longleftrightarrow>
       p \<in> set (all_partitions c) \<and> pc_topic p = topic \<and> pc_partition p = n) \<and>
    (find_broker c i = Some b \<longleftrightarrow> b \<in> set (bc_brokers c) \<and> be_id b = i) \<and>
    find_broker c (bc_node_id c) \<noteq> None"
proof -
  obtain root where root: "parse_config_node y root = Inr c"
    using assms by (auto simp: load_config_yaml_def rbind_eq_Inr_iff)
  note ok = parse_config_node_ok [OF root]
  then have "distinct (map be_id (bc_brokers c))" "distinct (map partition_key (all_partitions c))"
    by (simp_all add: config_ok_def)
  moreover have "find_broker c (bc_node_id c) \<noteq> None"
    using ok by (auto simp: config_ok_def find_broker_def find_None_iff)
  ultimately show ?thesis
    using ok find_partition_iff [OF parse_config_node_named [OF root]] find_broker_iff by blast
qed

text \<open>A small document type that stands for the YAML library in the witness.\<close>

datatype doc = DStr string | DInt int | DBool bool | DSeq "doc list" | DMap "(string \<times> doc) list"

fun doc_int :: "doc option \<Rightarrow> int result" where
  "doc_int (Some (DInt i)) = Inr i"
| "doc_int _ = Inl (RuntimeError ''bad conversion'')"

fun doc_nat :: "doc option \<Rightarrow> nat result" where
  "doc_nat (Some (DInt i)) = (if i < 0 then Inl (RuntimeError ''bad conversion'') else Inr (nat i))"
| "doc_nat _ = Inl (RuntimeError ''bad conversion'')"

fun doc_string :: "doc option \<Rightarrow> string result" where
  "doc_string (Some (DStr s)) = Inr s"
| "doc_string _ = Inl (RuntimeError ''bad conversion'')"

fun doc_bool :: "doc option \<Rightarrow> bool result" where
  "doc_bool (Some (DBool b)) = Inr b"
| "doc_bool _ = Inl (RuntimeError ''bad conversion'')"

fun doc_get :: "doc \<Rightarrow> string \<Rightarrow> doc option result" where
  "doc_get (DMap kvs) field = Inr (map_of kvs field)"
| "doc_get _ field = Inl (RuntimeError ''bad subscript'')"

fun doc_items :: "doc \<Rightarrow> doc list" where
  "doc_items (DSeq xs) = xs"
| "doc_items _ = []"

definition doc_yaml :: "doc yaml" where
  "doc_yaml = \<lparr>y_get = doc_get, y_is_sequence = (\<lambda>d. case d of DSeq _ \<Rightarrow> True | _ \<Rightarrow> False),
     y_items = doc_items, y_string = doc_string, y_int32 = doc_int, y_unsigned = doc_nat,
     y_uint16 = doc_nat, y_uint32 = doc_nat, y_uint64 = doc_nat, y_bool = doc_bool\<rparr>"

definition sample_doc :: doc where
  "sample_doc = DMap
     [(''node_id'', DInt 0), (''cluster_generation'', DInt 1), (''data_dir'', DStr ''d''),
      (''brokers'', DSeq [DMap [(''id'', DInt 0), (''kafka_host'', DStr ''h''), (''kafka_port'', DInt 9092),
         (''mercury_address'', DStr ''m'')]]),
      (''topics'', DSeq [DMap [(''name'', DStr ''t''), (''partitions'', DSeq [DMap
         [(''id'', DInt 0), (''shard'', DInt 0), (''leader'', DInt 0), (''replicas'', DSeq [DInt 0]),
          (''isr'', DSeq [DInt 0]), (''durability'', DStr ''write''), (''queue_limit'', DInt 8),
          (''max_frame_bytes'', DInt 4096), (''fetch_visibility'', DStr ''high_watermark''),
          (''allow_follower_fetch'', DBool False)]])]])]"

definition sample_partition :: PartitionConfig where
  "sample_partition =
     \<lparr>pc_topic = ''t'', pc_partition = 0, pc_shard = 0, pc_replicas = [0], pc_isr = [0],
      pc_durability = DurWrite, pc_queue_limit = 8, pc_max_frame_bytes = 4096,
      pc_fetch_visibility = HighWatermark, pc_allow_follower_fetch = False, pc_leader = 0,
      pc_migration_generation = 0, pc_migration_target_shard = 0, pc_migration_target_leader = - 1\<rparr>"

definition sample_broker :: BrokerEndpoint where
  "sample_broker = \<lparr>be_id = 0, be_kafka_host = ''h'', be_kafka_port = 9092, be_mercury_address = ''m''\<rparr>"

definition sample_config :: BrokerConfig where
  "sample_config =
     \<lparr>bc_node_id = 0, bc_cluster_generation = 1, bc_data_dir = ''d'', bc_metrics_port = 9642,
      bc_fetch_max_wait_ms_cap = 100, bc_produce_wait_ms_cap = 100, bc_segment_bytes = 1073741824,
      bc_brokers = [sample_broker], bc_topics = [\<lparr>tc_name = ''t'', tc_partitions = [sample_partition]\<rparr>]\<rparr>"

lemma sample_config_ok: "config_ok sample_config"
  by (simp add: config_ok_def sample_config_def sample_partition_def sample_broker_def
      all_partitions_def broker_ok_def partition_ok_def)

lemmas doc_parse = parse_broker_def parse_topic_def parse_partition_def parse_migration_def
  required_partition_fields_def require_partition_field_def require_node_def optional_field_def
  sequence_field_def parse_vector_def parse_durability_def parse_visibility_def doc_yaml_def

lemma sample_config_loads: "load_config_yaml doc_yaml (\<lambda>_. Inr sample_doc) ''config'' = Inr sample_config"
proof -
  have "validate_config sample_config = Inr ()"
    by (simp add: validate_config_iff sample_config_ok)
  then show ?thesis
    by (simp add: load_config_yaml_def parse_config_node_def sample_doc_def doc_parse
        sample_config_def sample_partition_def sample_broker_def)
qed

lemma sample_partition_in:
  "sample_partition \<in> set (all_partitions sample_config) \<and>
   pc_topic sample_partition = ''t'' \<and> pc_partition sample_partition = 0"
  by (simp add: sample_config_def all_partitions_def) (simp add: sample_partition_def)

theorem loaded_config_lookups_witness:
  "config_ok sample_config \<and> find_partition sample_config ''t'' 0 = Some sample_partition \<and>
   find_broker sample_config (bc_node_id sample_config) \<noteq> None"
  using loaded_config_lookups [OF sample_config_loads, of "''t''" 0 sample_partition 0 sample_broker]
    sample_partition_in by blast

end
