(* ===== verification/Wire.thy ===== *)
theory Wire
  imports Mkmq_Prelude
begin

text \<open>
  The byte-level codec of \<^verbatim>\<open>src/protocol/wire.cpp\<close>: \<^verbatim>\<open>WireReader\<close> as a record of the
  buffer and the read position, \<^verbatim>\<open>WireWriter\<close> as the vector it grows. Every method that may
  throw yields a \<open>result\<close>. The locales state what the codecs above this layer rely on: a
  reader operation stays inside its buffer (\<open>safe_read\<close>), a writer appends a fixed
  encoding (\<open>wire_encoder\<close>), a reader takes that encoding back off the front of the input
  (\<open>wire_decoder\<close>), and the pair is a round trip (\<open>wire_format\<close>).
\<close>

section \<open>WireReader\<close>

record wire_reader =
  reader_data :: bytes
  reader_pos :: nat

type_synonym 'a reads = "wire_reader \<Rightarrow> ('a \<times> wire_reader) result"

definition wire_reader_of :: "bytes \<Rightarrow> wire_reader" where
  "wire_reader_of data = \<lparr>reader_data = data, reader_pos = 0\<rparr>"

definition remaining :: "wire_reader \<Rightarrow> nat" where
  "remaining r = length (reader_data r) - reader_pos r"

definition reader_empty :: "wire_reader \<Rightarrow> bool" where
  "reader_empty r \<longleftrightarrow> remaining r = 0"

definition require :: "nat \<Rightarrow> wire_reader \<Rightarrow> unit result" where
  "require n r = guardR (n \<le> remaining r) (ProtocolError ''Kafka frame ended while decoding'')"

text \<open>The memory access \<^verbatim>\<open>data_[pos_ .. pos_ + n)\<close>, made explicit.\<close>

definition load :: "nat \<Rightarrow> wire_reader \<Rightarrow> bytes result" where
  "load n r = (if reader_pos r + n \<le> length (reader_data r)
               then Inr (take n (drop (reader_pos r) (reader_data r)))
               else Inl OutOfBounds)"

definition advance :: "nat \<Rightarrow> wire_reader \<Rightarrow> wire_reader" where
  "advance n r = r\<lparr>reader_pos := reader_pos r + n\<rparr>"

text \<open>Sequencing of reader operations.\<close>

definition rd_return :: "'a \<Rightarrow> 'a reads" where
  "rd_return x r = Inr (x, r)"

definition rd_throw :: "error \<Rightarrow> 'a reads" where
  "rd_throw e r = Inl e"

definition rd_bind :: "'a reads \<Rightarrow> ('a \<Rightarrow> 'b reads) \<Rightarrow> 'b reads" where
  "rd_bind m f r = rbind (m r) (\<lambda>(x, r'). f x r')"

text \<open>\<^verbatim>\<open>for (int32_t i = 0; i < count; ++i) out.push_back(item)\<close>.\<close>

fun rd_times :: "nat \<Rightarrow> 'a reads \<Rightarrow> 'a list reads" where
  "rd_times 0 item = rd_return []"
| "rd_times (Suc n) item =
     rd_bind item (\<lambda>x. rd_bind (rd_times n item) (\<lambda>xs. rd_return (x # xs)))"

definition rd_count :: "int \<Rightarrow> 'a reads \<Rightarrow> 'a list reads" where
  "rd_count count item = rd_times (nat count) item"

definition read_raw :: "nat \<Rightarrow> bytes reads" where
  "read_raw n r =
     rbind (require n r) (\<lambda>_. rbind (load n r) (\<lambda>bs. Inr (bs, advance n r)))"

definition skip :: "nat \<Rightarrow> unit reads" where
  "skip n r = rbind (require n r) (\<lambda>_. Inr ((), advance n r))"

definition read_int8 :: "int reads" where
  "read_int8 = rd_bind (read_raw 1) (\<lambda>b. rd_return (sint (b ! 0)))"

definition read_bool :: "bool reads" where
  "read_bool = rd_bind read_int8 (\<lambda>v. rd_return (v \<noteq> 0))"

definition read_int16 :: "int reads" where
  "read_int16 = rd_bind (read_raw 2) (\<lambda>b.
     rd_return (sint (push_bit 8 (ucast (b ! 0)) OR ucast (b ! 1) :: 16 word)))"

definition read_int32 :: "int reads" where
  "read_int32 = rd_bind (read_raw 4) (\<lambda>b.
     rd_return (sint (push_bit 24 (ucast (b ! 0)) OR push_bit 16 (ucast (b ! 1)) OR
                      push_bit 8 (ucast (b ! 2)) OR ucast (b ! 3) :: 32 word)))"

definition read_int64 :: "int reads" where
  "read_int64 = rd_bind (read_raw 8) (\<lambda>b.
     rd_return (sint (fold (\<lambda>x value. push_bit 8 value OR ucast x) b (0 :: 64 word))))"

function read_unsigned_varint_loop :: "32 word \<Rightarrow> nat \<Rightarrow> (32 word) reads" where
  "read_unsigned_varint_loop value shift r =
     (if shift < 32 then
        rbind (read_raw 1 r) (\<lambda>(b, r').
          let byte = b ! 0;
              value' = value OR push_bit shift (ucast (byte AND 0x7f))
          in if byte AND 0x80 = 0 then Inr (value', r')
             else read_unsigned_varint_loop value' (shift + 7) r')
      else Inl (ProtocolError ''Kafka unsigned varint is too large''))"
  by pat_completeness auto
termination
  by (relation "measure (\<lambda>(value, shift, r). 32 - shift)") auto

declare read_unsigned_varint_loop.simps [simp del]

definition read_unsigned_varint :: "(32 word) reads" where
  "read_unsigned_varint = read_unsigned_varint_loop 0 0"

definition read_string :: "string reads" where
  "read_string = rd_bind read_int16 (\<lambda>len.
     if len < 0 then rd_throw (ProtocolError ''Kafka string cannot be null'')
     else rd_bind (read_raw (nat len)) (\<lambda>bs. rd_return (string_of_bytes bs)))"

definition read_nullable_string :: "string option reads" where
  "read_nullable_string = rd_bind read_int16 (\<lambda>len.
     if len < 0 then rd_return None
     else rd_bind (read_raw (nat len)) (\<lambda>bs. rd_return (Some (string_of_bytes bs))))"

definition read_compact_string :: "string reads" where
  "read_compact_string = rd_bind read_unsigned_varint (\<lambda>size_plus_one.
     if size_plus_one = 0 then rd_throw (ProtocolError ''Kafka compact string cannot be null'')
     else rd_bind (read_raw (unat (size_plus_one - 1))) (\<lambda>bs. rd_return (string_of_bytes bs)))"

definition read_compact_nullable_string :: "string option reads" where
  "read_compact_nullable_string = rd_bind read_unsigned_varint (\<lambda>size_plus_one.
     if size_plus_one = 0 then rd_return None
     else rd_bind (read_raw (unat (size_plus_one - 1))) (\<lambda>bs. rd_return (Some (string_of_bytes bs))))"

definition read_bytes :: "bytes reads" where
  "read_bytes = rd_bind read_int32 (\<lambda>len.
     if len < 0 then rd_throw (ProtocolError ''Kafka bytes cannot be null'')
     else read_raw (nat len))"

definition read_nullable_bytes :: "bytes option reads" where
  "read_nullable_bytes = rd_bind read_int32 (\<lambda>len.
     if len < 0 then rd_return None
     else rd_bind (read_raw (nat len)) (\<lambda>bs. rd_return (Some bs)))"

definition read_compact_nullable_bytes :: "bytes option reads" where
  "read_compact_nullable_bytes = rd_bind read_unsigned_varint (\<lambda>size_plus_one.
     if size_plus_one = 0 then rd_return None
     else rd_bind (read_raw (unat (size_plus_one - 1))) (\<lambda>bs. rd_return (Some bs)))"

definition read_array_count :: "bool \<Rightarrow> bool \<Rightarrow> int reads" where
  "read_array_count flexible nullable =
     (if \<not> flexible then
        rd_bind read_int32 (\<lambda>count.
          if count < 0 \<and> \<not> nullable then rd_throw (ProtocolError ''Kafka array cannot be null'')
          else rd_return count)
      else
        rd_bind read_unsigned_varint (\<lambda>count_plus_one.
          if count_plus_one = 0 then
            (if \<not> nullable then rd_throw (ProtocolError ''Kafka compact array cannot be null'')
             else rd_return (- 1))
          else if count_plus_one > 2147483647 then
            rd_throw (ProtocolError ''Kafka compact array is too large'')
          else rd_return (sint (count_plus_one - 1))))"

fun skip_fields :: "nat \<Rightarrow> bool \<Rightarrow> 32 word \<Rightarrow> unit reads" where
  "skip_fields 0 first previous_tag = rd_return ()"
| "skip_fields (Suc n) first previous_tag =
     rd_bind read_unsigned_varint (\<lambda>tag.
       if \<not> first \<and> tag \<le> previous_tag
       then rd_throw (ProtocolError ''Kafka tagged fields are not strictly increasing'')
       else rd_bind read_unsigned_varint (\<lambda>len.
              rd_bind (skip (unat len)) (\<lambda>_. skip_fields n False tag)))"

definition skip_tagged_fields :: "unit reads" where
  "skip_tagged_fields = rd_bind read_unsigned_varint (\<lambda>fields. skip_fields (unat fields) True 0)"

section \<open>WireWriter\<close>

type_synonym writes = "bytes \<Rightarrow> bytes result"

definition write_seq :: "writes list \<Rightarrow> writes" where
  "write_seq ops = foldR (\<lambda>op. op) ops"

text \<open>\<^verbatim>\<open>for (const auto& x : xs) { ... }\<close> around writer calls.\<close>

definition write_each :: "('a \<Rightarrow> writes) \<Rightarrow> 'a list \<Rightarrow> writes" where
  "write_each f xs = foldR f xs"

definition write_raw :: "bytes \<Rightarrow> writes" where
  "write_raw v w = Inr (w @ v)"

definition write_int8 :: "int \<Rightarrow> writes" where
  "write_int8 value w = Inr (w @ [word_of_int value])"

definition write_bool :: "bool \<Rightarrow> writes" where
  "write_bool value = write_int8 (if value then 1 else 0)"

definition write_int16 :: "int \<Rightarrow> writes" where
  "write_int16 value w =
     (let raw = word_of_int value :: 16 word
      in Inr (w @ [ucast (drop_bit 8 raw AND 0xff), ucast (raw AND 0xff)]))"

definition write_int32 :: "int \<Rightarrow> writes" where
  "write_int32 value w =
     (let raw = word_of_int value :: 32 word
      in Inr (w @ [ucast (drop_bit 24 raw AND 0xff), ucast (drop_bit 16 raw AND 0xff),
                   ucast (drop_bit 8 raw AND 0xff), ucast (raw AND 0xff)]))"

definition write_int64 :: "int \<Rightarrow> writes" where
  "write_int64 value w =
     (let raw = word_of_int value :: 64 word
      in Inr (w @ map (\<lambda>shift. ucast (drop_bit shift raw AND 0xff)) [56, 48, 40, 32, 24, 16, 8, 0]))"

function write_unsigned_varint_loop :: "32 word \<Rightarrow> bytes \<Rightarrow> bytes" where
  "write_unsigned_varint_loop value w =
     (if value AND 0xffffff80 \<noteq> 0
      then write_unsigned_varint_loop (drop_bit 7 value) (w @ [ucast ((value AND 0x7f) OR 0x80)])
      else w @ [ucast value])"
  by pat_completeness auto
termination
proof (relation "measure (\<lambda>(value, w). unat value)")
  fix v :: "32 word" and w :: bytes
  assume "v AND 0xffffff80 \<noteq> 0"
  then have "v \<noteq> 0" by auto
  then have "unat v div 2 ^ 7 < unat v"
    by (intro div_less_dividend) (auto simp: unat_gt_0)
  moreover have "unat (drop_bit 7 v) = unat v div 2 ^ 7"
    by (simp only: unat_drop_bit_eq drop_bit_eq_div [of 7 "unat v"])
  ultimately have "unat (drop_bit 7 v) < unat v"
    by simp
  then show "((drop_bit 7 v, w @ [ucast ((v AND 0x7f) OR 0x80)]), v, w)
             \<in> measure (\<lambda>(value, w). unat value)"
    by simp
qed auto

declare write_unsigned_varint_loop.simps [simp del]

definition write_unsigned_varint :: "32 word \<Rightarrow> writes" where
  "write_unsigned_varint value w = Inr (write_unsigned_varint_loop value w)"

definition write_string :: "string \<Rightarrow> writes" where
  "write_string value w =
     (if length value > 32767 then Inl (ProtocolError ''Kafka string is too large'')
      else write_seq [write_int16 (cast_i16 (int (length value))),
                      write_raw (bytes_of_string value)] w)"

definition write_nullable_string :: "string option \<Rightarrow> writes" where
  "write_nullable_string value =
     (case value of None \<Rightarrow> write_int16 (- 1) | Some s \<Rightarrow> write_string s)"

definition write_compact_string :: "string \<Rightarrow> writes" where
  "write_compact_string value =
     write_seq [write_unsigned_varint (word_of_nat (length value + 1)),
                write_raw (bytes_of_string value)]"

definition write_compact_nullable_string :: "string option \<Rightarrow> writes" where
  "write_compact_nullable_string value =
     (case value of None \<Rightarrow> write_unsigned_varint 0 | Some s \<Rightarrow> write_compact_string s)"

definition write_bytes :: "bytes \<Rightarrow> writes" where
  "write_bytes value = write_seq [write_int32 (cast_i32 (int (length value))), write_raw value]"

definition write_nullable_bytes :: "bytes option \<Rightarrow> writes" where
  "write_nullable_bytes value =
     (case value of None \<Rightarrow> write_int32 (- 1) | Some v \<Rightarrow> write_bytes v)"

definition write_compact_nullable_bytes :: "bytes option \<Rightarrow> writes" where
  "write_compact_nullable_bytes value =
     (case value of
        None \<Rightarrow> write_unsigned_varint 0
      | Some v \<Rightarrow> write_seq [write_unsigned_varint (word_of_nat (length v + 1)), write_raw v])"

definition write_array_count :: "int \<Rightarrow> bool \<Rightarrow> writes" where
  "write_array_count count flexible w =
     (if count < 0 then Inl (ProtocolError ''Kafka array count cannot be negative'')
      else if flexible then write_unsigned_varint (word_of_int (count + 1)) w
      else write_int32 count w)"

definition write_nullable_array_count :: "int \<Rightarrow> bool \<Rightarrow> writes" where
  "write_nullable_array_count count flexible w =
     (if count < 0 then (if flexible then write_unsigned_varint 0 w else write_int32 (- 1) w)
      else write_array_count count flexible w)"

definition write_empty_tagged_fields :: writes where
  "write_empty_tagged_fields = write_unsigned_varint 0"

definition patch_int32 :: "nat \<Rightarrow> int \<Rightarrow> writes" where
  "patch_int32 offset value w =
     (if offset + 4 > length w then Inl (ProtocolError ''cannot patch int32 outside buffer'')
      else let raw = word_of_int value :: 32 word
           in Inr (w[offset := ucast (drop_bit 24 raw AND 0xff),
                     offset + 1 := ucast (drop_bit 16 raw AND 0xff),
                     offset + 2 := ucast (drop_bit 8 raw AND 0xff),
                     offset + 3 := ucast (raw AND 0xff)]))"

section \<open>Reader operations stay inside the buffer\<close>

text \<open>
  \<open>reader_ok\<close> is the class invariant of \<^verbatim>\<open>WireReader\<close>; \<open>safe_read\<close> says that an
  operation started under it never touches memory outside the buffer, leaves the buffer
  as it is, never moves backwards and re-establishes the invariant.
\<close>

definition reader_ok :: "wire_reader \<Rightarrow> bool" where
  "reader_ok r \<longleftrightarrow> reader_pos r \<le> length (reader_data r)"

definition safe_read :: "'a reads \<Rightarrow> bool" where
  "safe_read op \<longleftrightarrow> (\<forall>r. reader_ok r \<longrightarrow>
     (case op r of
        Inl e \<Rightarrow> e \<noteq> OutOfBounds
      | Inr (x, r') \<Rightarrow> reader_ok r' \<and> reader_data r' = reader_data r \<and> reader_pos r \<le> reader_pos r'))"

named_theorems safe_reads

lemma safe_readI:
  assumes "\<And>r. reader_ok r \<Longrightarrow> op r \<noteq> Inl OutOfBounds"
    and "\<And>r x r'. reader_ok r \<Longrightarrow> op r = Inr (x, r') \<Longrightarrow>
           reader_ok r' \<and> reader_data r' = reader_data r \<and> reader_pos r \<le> reader_pos r'"
  shows "safe_read op"
  unfolding safe_read_def
proof (intro allI impI)
  fix r assume ok: "reader_ok r"
  show "case op r of
        Inl e \<Rightarrow> e \<noteq> OutOfBounds
      | Inr (x, r') \<Rightarrow> reader_ok r' \<and> reader_data r' = reader_data r \<and> reader_pos r \<le> reader_pos r'"
  proof (cases "op r")
    case (Inl e)
    with assms(1) [OF ok] show ?thesis by simp
  next
    case (Inr y)
    obtain x r' where y: "y = (x, r')" by (cases y)
    show ?thesis using assms(2) [OF ok Inr [unfolded y]] Inr y by simp
  qed
qed

lemma safe_readD:
  assumes "safe_read op" and "reader_ok r"
  shows "op r \<noteq> Inl OutOfBounds"
    and "op r = Inr (x, r') \<Longrightarrow> reader_ok r'"
    and "op r = Inr (x, r') \<Longrightarrow> reader_data r' = reader_data r"
    and "op r = Inr (x, r') \<Longrightarrow> reader_pos r \<le> reader_pos r'"
proof -
  have "case op r of
        Inl e \<Rightarrow> e \<noteq> OutOfBounds
      | Inr (x, r') \<Rightarrow> reader_ok r' \<and> reader_data r' = reader_data r \<and> reader_pos r \<le> reader_pos r'"
    using assms unfolding safe_read_def by blast
  then show "op r \<noteq> Inl OutOfBounds"
    and "op r = Inr (x, r') \<Longrightarrow> reader_ok r'"
    and "op r = Inr (x, r') \<Longrightarrow> reader_data r' = reader_data r"
    and "op r = Inr (x, r') \<Longrightarrow> reader_pos r \<le> reader_pos r'"
    by auto
qed

lemma reader_ok_wire_reader_of [simp]: "reader_ok (wire_reader_of bs)"
  by (simp add: reader_ok_def wire_reader_of_def)

lemma safe_rd_return [safe_reads]: "safe_read (rd_return x)"
  by (simp add: safe_read_def rd_return_def)

lemma safe_rd_throw [safe_reads]: "e \<noteq> OutOfBounds \<Longrightarrow> safe_read (rd_throw e)"
  by (simp add: safe_read_def rd_throw_def)

lemma safe_rd_bind [safe_reads]:
  assumes m: "safe_read m" and f: "\<And>x. safe_read (f x)"
  shows "safe_read (rd_bind m f)"
proof (rule safe_readI)
  fix r assume ok: "reader_ok r"
  show "rd_bind m f r \<noteq> Inl OutOfBounds"
  proof
    assume "rd_bind m f r = Inl OutOfBounds"
    with safe_readD(1) [OF m ok] obtain x r1
      where 1: "m r = Inr (x, r1)" and 2: "f x r1 = Inl OutOfBounds"
      by (auto simp: rd_bind_def rbind_eq_Inl_iff)
    from safe_readD(2) [OF m ok 1] have "f x r1 \<noteq> Inl OutOfBounds"
      by (rule safe_readD(1) [OF f])
    with 2 show False by contradiction
  qed
next
  fix r y r' assume ok: "reader_ok r" and eq: "rd_bind m f r = Inr (y, r')"
  then obtain x r1 where 1: "m r = Inr (x, r1)" and 2: "f x r1 = Inr (y, r')"
    by (auto simp: rd_bind_def rbind_eq_Inr_iff)
  show "reader_ok r' \<and> reader_data r' = reader_data r \<and> reader_pos r \<le> reader_pos r'"
    using safe_readD(2-4) [OF m ok 1] safe_readD(2-4) [OF f safe_readD(2) [OF m ok 1] 2] by simp
qed

lemma safe_if [safe_reads]:
  "(b \<Longrightarrow> safe_read m) \<Longrightarrow> (\<not> b \<Longrightarrow> safe_read n) \<Longrightarrow> safe_read (if b then m else n)"
  by simp

lemma safe_rd_times [safe_reads]: "safe_read item \<Longrightarrow> safe_read (rd_times n item)"
  by (induction n) (auto intro!: safe_reads)

lemma safe_rd_count [safe_reads]: "safe_read item \<Longrightarrow> safe_read (rd_count n item)"
  by (simp add: rd_count_def safe_rd_times)

lemma safe_read_raw [safe_reads]: "safe_read (read_raw n)"
  by (rule safe_readI)
    (auto simp: read_raw_def require_def load_def advance_def remaining_def reader_ok_def
                rbind_iffs)

lemma safe_skip [safe_reads]: "safe_read (skip n)"
  by (rule safe_readI)
    (auto simp: skip_def require_def advance_def remaining_def reader_ok_def rbind_iffs)

lemma safe_read_int8 [safe_reads]: "safe_read read_int8"
  unfolding read_int8_def by (intro safe_reads)

lemma safe_read_bool [safe_reads]: "safe_read read_bool"
  unfolding read_bool_def by (intro safe_reads)

lemma safe_read_int16 [safe_reads]: "safe_read read_int16"
  unfolding read_int16_def by (intro safe_reads)

lemma safe_read_int32 [safe_reads]: "safe_read read_int32"
  unfolding read_int32_def by (intro safe_reads)

lemma safe_read_int64 [safe_reads]: "safe_read read_int64"
  unfolding read_int64_def by (intro safe_reads)

lemma read_unsigned_varint_loop_unfold:
  "read_unsigned_varint_loop value shift =
     (if shift < 32 then
        rd_bind (read_raw 1) (\<lambda>b.
          if b ! 0 AND 0x80 = 0
          then rd_return (value OR push_bit shift (ucast (b ! 0 AND 0x7f)))
          else read_unsigned_varint_loop
                 (value OR push_bit shift (ucast (b ! 0 AND 0x7f))) (shift + 7))
      else rd_throw (ProtocolError ''Kafka unsigned varint is too large''))"
proof (rule ext)
  fix r
  show "read_unsigned_varint_loop value shift r =
     (if shift < 32 then
        rd_bind (read_raw 1) (\<lambda>b.
          if b ! 0 AND 0x80 = 0
          then rd_return (value OR push_bit shift (ucast (b ! 0 AND 0x7f)))
          else read_unsigned_varint_loop
                 (value OR push_bit shift (ucast (b ! 0 AND 0x7f))) (shift + 7))
      else rd_throw (ProtocolError ''Kafka unsigned varint is too large'')) r"
    by (subst read_unsigned_varint_loop.simps)
      (cases "read_raw 1 r"; auto simp: rd_bind_def rd_return_def rd_throw_def Let_def)
qed

lemma safe_read_unsigned_varint_loop: "safe_read (read_unsigned_varint_loop value shift)"
proof (induction "32 - shift" arbitrary: "value" shift rule: less_induct)
  case less
  show ?case
    by (subst read_unsigned_varint_loop_unfold) (auto intro!: safe_reads less)
qed

lemma safe_read_unsigned_varint [safe_reads]: "safe_read read_unsigned_varint"
  unfolding read_unsigned_varint_def by (rule safe_read_unsigned_varint_loop)

lemma safe_read_string [safe_reads]: "safe_read read_string"
  unfolding read_string_def by (intro safe_reads) simp

lemma safe_read_nullable_string [safe_reads]: "safe_read read_nullable_string"
  unfolding read_nullable_string_def by (intro safe_reads)

lemma safe_read_compact_string [safe_reads]: "safe_read read_compact_string"
  unfolding read_compact_string_def by (intro safe_reads) simp

lemma safe_read_compact_nullable_string [safe_reads]: "safe_read read_compact_nullable_string"
  unfolding read_compact_nullable_string_def by (intro safe_reads)

lemma safe_read_bytes [safe_reads]: "safe_read read_bytes"
  unfolding read_bytes_def by (intro safe_reads) simp

lemma safe_read_nullable_bytes [safe_reads]: "safe_read read_nullable_bytes"
  unfolding read_nullable_bytes_def by (intro safe_reads)

lemma safe_read_compact_nullable_bytes [safe_reads]: "safe_read read_compact_nullable_bytes"
  unfolding read_compact_nullable_bytes_def by (intro safe_reads)

lemma safe_read_array_count [safe_reads]: "safe_read (read_array_count flexible nullable)"
  unfolding read_array_count_def by (intro safe_reads) simp_all

lemma safe_skip_fields [safe_reads]: "safe_read (skip_fields n first previous_tag)"
  by (induction n arbitrary: first previous_tag) (auto intro!: safe_reads)

lemma safe_skip_tagged_fields [safe_reads]: "safe_read skip_tagged_fields"
  unfolding skip_tagged_fields_def by (intro safe_reads)

end
