(* ===== verification/Wire_Format.thy ===== *)
theory Wire_Format
  imports Wire
begin

text \<open>
  Reference encodings of the wire types and the contracts between writers and readers.
  \<open>reader_at pre suf\<close> is a reader that has consumed \<open>pre\<close> and has \<open>suf\<close> ahead of it.
  \<open>wire_encoder\<close> is what a writer method promises, \<open>wire_decoder\<close> what a reader method
  promises, \<open>wire_format\<close> joins them; every primitive of \<^verbatim>\<open>wire.cpp\<close> that has both
  directions interprets \<open>wire_format\<close>.
\<close>

section \<open>Reference encodings\<close>

definition be16 :: "int \<Rightarrow> bytes" where
  "be16 v = [ucast (drop_bit 8 (word_of_int v :: 16 word)), ucast (word_of_int v :: 16 word)]"

definition be32 :: "int \<Rightarrow> bytes" where
  "be32 v = map (\<lambda>k. ucast (drop_bit k (word_of_int v :: 32 word))) [24, 16, 8, 0]"

definition be64 :: "int \<Rightarrow> bytes" where
  "be64 v = map (\<lambda>k. ucast (drop_bit k (word_of_int v :: 64 word))) [56, 48, 40, 32, 24, 16, 8, 0]"

function uvarint :: "32 word \<Rightarrow> bytes" where
  "uvarint v = (if v AND 0xffffff80 \<noteq> 0
                then ucast ((v AND 0x7f) OR 0x80) # uvarint (drop_bit 7 v)
                else [ucast v])"
  by pat_completeness auto
termination
proof (relation "measure unat")
  fix v :: "32 word"
  assume "v AND 0xffffff80 \<noteq> 0"
  then have "v \<noteq> 0" by auto
  then have "unat v div 2 ^ 7 < unat v"
    by (intro div_less_dividend) (auto simp: unat_gt_0)
  moreover have "unat (drop_bit 7 v) = unat v div 2 ^ 7"
    by (simp only: unat_drop_bit_eq drop_bit_eq_div [of 7 "unat v"])
  ultimately show "(drop_bit 7 v, v) \<in> measure unat"
    by simp
qed auto

declare uvarint.simps [simp del]

definition string_bytes :: "string \<Rightarrow> bytes" where
  "string_bytes s = be16 (int (length s)) @ bytes_of_string s"

definition nullable_string_bytes :: "string option \<Rightarrow> bytes" where
  "nullable_string_bytes v = (case v of None \<Rightarrow> be16 (- 1) | Some s \<Rightarrow> string_bytes s)"

definition compact_string_bytes :: "string \<Rightarrow> bytes" where
  "compact_string_bytes s = uvarint (word_of_nat (length s + 1)) @ bytes_of_string s"

definition compact_nullable_string_bytes :: "string option \<Rightarrow> bytes" where
  "compact_nullable_string_bytes v =
     (case v of None \<Rightarrow> uvarint 0 | Some s \<Rightarrow> compact_string_bytes s)"

definition sized_bytes :: "bytes \<Rightarrow> bytes" where
  "sized_bytes v = be32 (int (length v)) @ v"

definition nullable_bytes :: "bytes option \<Rightarrow> bytes" where
  "nullable_bytes v = (case v of None \<Rightarrow> be32 (- 1) | Some b \<Rightarrow> sized_bytes b)"

definition compact_nullable_bytes :: "bytes option \<Rightarrow> bytes" where
  "compact_nullable_bytes v =
     (case v of None \<Rightarrow> uvarint 0 | Some b \<Rightarrow> uvarint (word_of_nat (length b + 1)) @ b)"

definition compact_count :: "nat \<Rightarrow> bytes" where
  "compact_count n = uvarint (word_of_nat (n + 1))"

text \<open>A tagged-field section: the number of fields, then tag, size and data of each.\<close>

definition tagged_field_bytes :: "32 word \<times> bytes \<Rightarrow> bytes" where
  "tagged_field_bytes f = uvarint (fst f) @ uvarint (word_of_nat (length (snd f))) @ snd f"

definition tagged_fields_bytes :: "(32 word \<times> bytes) list \<Rightarrow> bytes" where
  "tagged_fields_bytes fs = uvarint (word_of_nat (length fs)) @ concat (map tagged_field_bytes fs)"

text \<open>The sizes a length prefix of each kind can carry.\<close>

definition ok_string :: "string \<Rightarrow> bool" where
  "ok_string s \<longleftrightarrow> length s < 2 ^ 15"

definition ok_compact :: "'a list \<Rightarrow> bool" where
  "ok_compact s \<longleftrightarrow> length s + 1 < 2 ^ 32"

definition ok_bytes :: "bytes \<Rightarrow> bool" where
  "ok_bytes b \<longleftrightarrow> length b < 2 ^ 31"

definition ok_count :: "nat \<Rightarrow> bool" where
  "ok_count n \<longleftrightarrow> n + 1 < 2 ^ 31"

definition ok_opt :: "('a \<Rightarrow> bool) \<Rightarrow> 'a option \<Rightarrow> bool" where
  "ok_opt p v \<longleftrightarrow> (case v of None \<Rightarrow> True | Some x \<Rightarrow> p x)"

definition reader_at :: "bytes \<Rightarrow> bytes \<Rightarrow> wire_reader" where
  "reader_at pre suf = \<lparr>reader_data = pre @ suf, reader_pos = length pre\<rparr>"

section \<open>The contracts\<close>

locale wire_encoder =
  fixes wr :: "'a \<Rightarrow> writes"
    and enc :: "'a \<Rightarrow> bytes"
    and ok :: "'a \<Rightarrow> bool"
  assumes wr_enc: "ok v \<Longrightarrow> wr v w = Inr (w @ enc v)"
begin

lemma write_each_enc:
  "list_all ok vs \<Longrightarrow> write_each wr vs w = Inr (w @ concat (map enc vs))"
  unfolding write_each_def
proof (induction vs arbitrary: w)
  case Nil
  then show ?case by simp
next
  case (Cons v vs)
  then show ?case by (simp add: wr_enc)
qed

end

locale wire_decoder =
  fixes rd :: "'a reads"
    and enc :: "'a \<Rightarrow> bytes"
    and ok :: "'a \<Rightarrow> bool"
  assumes rd_enc: "ok v \<Longrightarrow> rd (reader_at pre (enc v @ suf)) = Inr (v, reader_at (pre @ enc v) suf)"
    and rd_safe: "safe_read rd"
begin

lemma rd_enc_end: "ok v \<Longrightarrow> rd (reader_at pre (enc v)) = Inr (v, reader_at (pre @ enc v) [])"
  using rd_enc [of v pre "[]"] by simp

lemma enc_prefix_free:
  assumes "ok u" and "ok v" and eq: "enc u @ s = enc v @ t"
  shows "u = v \<and> s = t"
proof -
  have "rd (reader_at [] (enc u @ s)) = Inr (u, reader_at (enc u) s)"
    and "rd (reader_at [] (enc v @ t)) = Inr (v, reader_at (enc v) t)"
    using rd_enc [OF \<open>ok u\<close>, of "[]" s] rd_enc [OF \<open>ok v\<close>, of "[]" t] by simp_all
  with eq have "u = v" by simp
  with eq show ?thesis by simp
qed

lemma rd_times_enc:
  "list_all ok vs \<Longrightarrow>
   rd_times (length vs) rd (reader_at pre (concat (map enc vs) @ suf)) =
     Inr (vs, reader_at (pre @ concat (map enc vs)) suf)"
proof (induction vs arbitrary: pre)
  case Nil
  then show ?case by (simp add: rd_return_def)
next
  case (Cons v vs)
  then show ?case
    by (simp add: rd_bind_def rd_return_def rd_enc)
qed

lemma rd_count_enc:
  "list_all ok vs \<Longrightarrow>
   rd_count (int (length vs)) rd (reader_at pre (concat (map enc vs) @ suf)) =
     Inr (vs, reader_at (pre @ concat (map enc vs)) suf)"
  by (simp add: rd_count_def rd_times_enc)

end

locale wire_format = wire_encoder wr enc ok + wire_decoder rd enc ok
  for wr :: "'a \<Rightarrow> writes" and rd :: "'a reads" and enc :: "'a \<Rightarrow> bytes" and ok :: "'a \<Rightarrow> bool"
begin

text \<open>Writing a value to a fresh buffer and reading it back.\<close>

lemma round_trip:
  assumes "ok v"
  shows "\<exists>bs. wr v [] = Inr bs \<and> rd (wire_reader_of bs) = Inr (v, \<lparr>reader_data = bs, reader_pos = length bs\<rparr>)"
  using wr_enc [OF assms, of "[]"] rd_enc_end [OF assms, of "[]"]
  by (simp add: reader_at_def wire_reader_of_def)

end

section \<open>Reading the integer encodings back\<close>

lemma reader_at_Nil: "reader_at [] bs = wire_reader_of bs"
  by (simp add: reader_at_def wire_reader_of_def)

named_theorems rd_at

lemmas rd_defs = rd_bind_def rd_return_def rd_throw_def

lemma read_raw_at [rd_at]:
  "n = length bs \<Longrightarrow> read_raw n (reader_at pre (bs @ suf)) = Inr (bs, reader_at (pre @ bs) suf)"
  by (simp add: read_raw_def require_def remaining_def load_def advance_def reader_at_def)

lemma skip_at [rd_at]:
  "n = length bs \<Longrightarrow> skip n (reader_at pre (bs @ suf)) = Inr ((), reader_at (pre @ bs) suf)"
  by (simp add: skip_def require_def remaining_def advance_def reader_at_def)

lemma length_be [simp]: "length (be16 v) = 2" "length (be32 v) = 4" "length (be64 v) = 8"
  by (simp_all add: be16_def be32_def be64_def)

lemma join16: "push_bit 8 (ucast (ucast (drop_bit 8 w) :: byte)) OR ucast (ucast w :: byte) = (w :: 16 word)"
  (is "?l = w")
proof (rule bit_word_eqI)
  fix n assume "n < LENGTH(16)"
  then show "bit ?l n = bit w n"
    by (cases "n < 8") (auto simp: bit_or_iff bit_byte_lane bit_simps)
qed

lemma join32:
  "push_bit 24 (ucast (ucast (drop_bit 24 w) :: byte)) OR push_bit 16 (ucast (ucast (drop_bit 16 w) :: byte)) OR
   push_bit 8 (ucast (ucast (drop_bit 8 w) :: byte)) OR ucast (ucast w :: byte) = (w :: 32 word)"
  (is "?l = w")
proof (rule bit_word_eqI)
  fix n assume "n < LENGTH(32)"
  then have "n < 8 \<or> 8 \<le> n \<and> n < 16 \<or> 16 \<le> n \<and> n < 24 \<or> 24 \<le> n \<and> n < 32" by auto
  then show "bit ?l n = bit w n"
    by (auto simp: bit_or_iff bit_byte_lane) (auto simp: bit_simps)
qed

lemma be_fold_step:
  "push_bit 8 (drop_bit (k + 8) w) OR ucast (ucast (drop_bit k w) :: byte) = drop_bit k (w :: 64 word)"
proof (rule bit_word_eqI)
  fix n assume "n < LENGTH(64)"
  then show "bit (push_bit 8 (drop_bit (k + 8) w) OR ucast (ucast (drop_bit k w) :: byte)) n =
        bit (drop_bit k w) n"
    by (cases "n < 8") (auto simp: bit_simps add.commute add.left_commute)
qed

lemma join64:
  "fold (\<lambda>x value. push_bit 8 value OR ucast x)
     (map (\<lambda>k. ucast (drop_bit k w) :: byte) [56, 48, 40, 32, 24, 16, 8, 0]) (0 :: 64 word) = w"
proof -
  have 0: "drop_bit 64 w = 0"
    by (rule bit_word_eqI) (auto simp: bit_simps dest: bit_imp_le_length)
  show ?thesis
    using 0 be_fold_step [of 56 w] be_fold_step [of 48 w] be_fold_step [of 40 w]
      be_fold_step [of 32 w] be_fold_step [of 24 w] be_fold_step [of 16 w]
      be_fold_step [of 8 w] be_fold_step [of 0 w]
    by simp
qed

lemma read_int8_at [rd_at]:
  "i8 v \<Longrightarrow> read_int8 (reader_at pre (word_of_int v # suf)) = Inr (v, reader_at (pre @ [word_of_int v]) suf)"
  using read_raw_at [of 1 "[word_of_int v]" pre suf]
  by (simp add: read_int8_def rd_defs sint_word_of_int_8)

lemma read_int16_at [rd_at]:
  "i16 v \<Longrightarrow> read_int16 (reader_at pre (be16 v @ suf)) = Inr (v, reader_at (pre @ be16 v) suf)"
  using read_raw_at [of 2 "be16 v" pre suf]
  by (simp add: read_int16_def rd_defs be16_def join16 sint_word_of_int_16)

lemma read_int32_at [rd_at]:
  "i32 v \<Longrightarrow> read_int32 (reader_at pre (be32 v @ suf)) = Inr (v, reader_at (pre @ be32 v) suf)"
  using read_raw_at [of 4 "be32 v" pre suf] join32 [of "word_of_int v"]
  by (simp add: read_int32_def rd_defs be32_def sint_word_of_int_32 numeral_3_eq_3)

lemma read_int64_at [rd_at]:
  "i64 v \<Longrightarrow> read_int64 (reader_at pre (be64 v @ suf)) = Inr (v, reader_at (pre @ be64 v) suf)"
  using read_raw_at [of 8 "be64 v" pre suf] join64 [of "word_of_int v"]
  by (simp add: read_int64_def rd_defs be64_def sint_word_of_int_64 del: fold.simps list.map)

section \<open>Variable-length integers\<close>

lemma varint_masks:
  "(0xffffff80 :: 32 word) = NOT (mask 7)" "(0x7f :: 32 word) = mask 7"
  "(0x80 :: 32 word) = 2 ^ 7" "(0x7f :: byte) = mask 7" "(0x80 :: byte) = 2 ^ 7"
  by (simp_all add: mask_eq_exp_minus_1)

lemma bit_128:
  "bit (128 :: 32 word) n \<longleftrightarrow> n = 7" "bit (128 :: byte) n \<longleftrightarrow> n = 7" "bit (128 :: int) n \<longleftrightarrow> n = 7"
  using bit_exp_iff [where ?'a = "32 word", of 7 n] bit_exp_iff [where ?'a = byte, of 7 n]
    bit_exp_iff [where ?'a = int, of 7 n]
  by auto

lemma and_high_zero_iff: "v AND 0xffffff80 = 0 \<longleftrightarrow> (\<forall>n. bit (v :: 32 word) n \<longrightarrow> n < 7)"
  unfolding varint_masks
  by (auto simp: bit_eq_iff bit_simps not_less) (metis bit_less_32 not_le)

lemma last_group:
  assumes "v AND 0xffffff80 = 0"
  shows "(ucast (v :: 32 word) :: byte) AND 0x80 = 0"
    and "(ucast ((ucast v :: byte) AND 0x7f) :: 32 word) = v"
proof -
  from assms have *: "bit v n \<Longrightarrow> n < 7" for n by (simp add: and_high_zero_iff)
  show "(ucast v :: byte) AND 0x80 = 0"
    unfolding varint_masks and_exp_eq_0_iff_not_bit by (auto simp: bit_simps dest: *)
  show "(ucast ((ucast v :: byte) AND 0x7f) :: 32 word) = v"
    unfolding varint_masks by (rule bit_word_eqI) (auto simp: bit_simps dest: *)
qed

lemma more_group:
  fixes v :: "32 word"
  defines "b \<equiv> ucast ((v AND 0x7f) OR 0x80) :: byte"
  shows "b AND 0x80 \<noteq> 0" and "(ucast (b AND 0x7f) :: 32 word) = v AND 0x7f"
proof -
  show "b AND 0x80 \<noteq> 0"
    unfolding b_def varint_masks and_exp_eq_0_iff_not_bit by (simp add: bit_simps)
  show "(ucast (b AND 0x7f) :: 32 word) = v AND 0x7f"
    unfolding b_def varint_masks by (rule bit_word_eqI) (auto simp: bit_simps bit_128)
qed

lemma group_join:
  "push_bit s (v AND 0x7f) OR push_bit (s + 7) (drop_bit 7 v) = push_bit s (v :: 32 word)"
  unfolding varint_masks
proof (rule bit_word_eqI)
  fix n assume "n < LENGTH(32)"
  then show "bit (push_bit s (v AND mask 7) OR push_bit (s + 7) (drop_bit 7 v)) n = bit (push_bit s v) n"
    by (cases "n < s + 7") (auto simp: bit_simps)
qed

lemma read_varint_loop_at:
  assumes "shift < 32" and "\<forall>n. bit v n \<longrightarrow> n + shift < 32"
  shows "read_unsigned_varint_loop acc shift (reader_at pre (uvarint v @ suf)) =
           Inr (acc OR push_bit shift v, reader_at (pre @ uvarint v) suf)"
  using assms
proof (induction v arbitrary: acc shift pre rule: uvarint.induct)
  case (1 v)
  show ?case
  proof (cases "v AND 0xffffff80 = 0")
    case True
    with "1.prems" show ?thesis
      using read_raw_at [of 1 "[ucast v]" pre suf]
      by (subst read_unsigned_varint_loop_unfold)
        (simp add: uvarint.simps [of v] rd_defs last_group)
  next
    case False
    then obtain n where n: "bit v n" "7 \<le> n"
      by (auto simp: and_high_zero_iff not_less)
    have shift': "shift + 7 < 32"
      using "1.prems"(2) n by fastforce
    have bits: "\<forall>n. bit (drop_bit 7 v) n \<longrightarrow> n + (shift + 7) < 32"
      using "1.prems"(2) by (auto simp: bit_simps)
    let ?b = "ucast ((v AND 0x7f) OR 0x80) :: byte"
    have "read_unsigned_varint_loop (acc OR push_bit shift (v AND 0x7f)) (shift + 7)
            (reader_at (pre @ [?b]) (uvarint (drop_bit 7 v) @ suf)) =
          Inr ((acc OR push_bit shift (v AND 0x7f)) OR push_bit (shift + 7) (drop_bit 7 v),
               reader_at ((pre @ [?b]) @ uvarint (drop_bit 7 v)) suf)"
      using "1.IH" [OF _ shift' bits] False by blast
    moreover have "(acc OR push_bit shift (v AND 0x7f)) OR push_bit (shift + 7) (drop_bit 7 v) =
          acc OR push_bit shift v"
      by (simp only: or.assoc group_join)
    ultimately show ?thesis
      using "1.prems"(1) False read_raw_at [of 1 "[?b]" pre "uvarint (drop_bit 7 v) @ suf"]
      by (subst read_unsigned_varint_loop_unfold)
        (simp add: uvarint.simps [of v] rd_defs more_group)
  qed
qed

lemma read_unsigned_varint_at [rd_at]:
  "read_unsigned_varint (reader_at pre (uvarint v @ suf)) = Inr (v, reader_at (pre @ uvarint v) suf)"
  unfolding read_unsigned_varint_def
  using read_varint_loop_at [of 0 v 0 pre suf] by (simp add: bit_less_32)

lemma write_unsigned_varint_loop_eq: "write_unsigned_varint_loop v w = w @ uvarint v"
proof (induction v arbitrary: w rule: uvarint.induct)
  case (1 v)
  then show ?case
    by (subst write_unsigned_varint_loop.simps, subst uvarint.simps) simp
qed

lemma uvarint_length: "0 < k \<Longrightarrow> \<forall>n. bit v n \<longrightarrow> n < 7 * k \<Longrightarrow> length (uvarint v) \<le> k"
proof (induction v arbitrary: k rule: uvarint.induct)
  case (1 v)
  show ?case
  proof (cases "v AND 0xffffff80 = 0")
    case True
    with "1.prems" show ?thesis by (simp add: uvarint.simps [of v])
  next
    case False
    then obtain n where "bit v n" "7 \<le> n" by (auto simp: and_high_zero_iff not_less)
    with "1.prems" have "1 < k" by fastforce
    moreover have "\<forall>n. bit (drop_bit 7 v) n \<longrightarrow> n < 7 * (k - 1)"
      using "1.prems" by (fastforce simp: bit_simps)
    ultimately show ?thesis
      using "1.IH" [of "k - 1"] False by (simp add: uvarint.simps [of v])
  qed
qed

lemma bit_less_35: "bit (v :: 32 word) n \<longrightarrow> n < 35"
  using bit_less_32 [of v n] by auto

section \<open>What the writer methods append\<close>

named_theorems wr_app

lemma write_seq_Nil [wr_app]: "write_seq [] w = Inr w"
  by (simp add: write_seq_def)

lemma write_seq_Cons [wr_app]: "write_seq (op # ops) w = rbind (op w) (write_seq ops)"
  by (simp add: write_seq_def)

lemma write_each_Nil [wr_app]: "write_each f [] w = Inr w"
  by (simp add: write_each_def)

lemma write_each_Cons [wr_app]: "write_each f (x # xs) w = rbind (f x w) (write_each f xs)"
  by (simp add: write_each_def)

lemma write_raw_app [wr_app]: "write_raw v w = Inr (w @ v)"
  by (simp add: write_raw_def)

lemma write_int8_app [wr_app]: "write_int8 v w = Inr (w @ [word_of_int v])"
  by (simp add: write_int8_def)

lemma write_bool_app [wr_app]: "write_bool b w = Inr (w @ [if b then 1 else 0])"
  by (simp add: write_bool_def write_int8_def)

lemma write_int16_app [wr_app]: "write_int16 v w = Inr (w @ be16 v)"
  by (simp add: write_int16_def be16_def Let_def)

lemma write_int32_app [wr_app]: "write_int32 v w = Inr (w @ be32 v)"
  by (simp add: write_int32_def be32_def Let_def)

lemma write_int64_app [wr_app]: "write_int64 v w = Inr (w @ be64 v)"
  by (simp add: write_int64_def be64_def Let_def)

lemma write_unsigned_varint_app [wr_app]: "write_unsigned_varint v w = Inr (w @ uvarint v)"
  by (simp add: write_unsigned_varint_def write_unsigned_varint_loop_eq)

lemma write_empty_tagged_fields_app [wr_app]: "write_empty_tagged_fields w = Inr (w @ uvarint 0)"
  by (simp add: write_empty_tagged_fields_def wr_app)

lemma write_string_app [wr_app]: "ok_string v \<Longrightarrow> write_string v w = Inr (w @ string_bytes v)"
  by (simp add: write_string_def string_bytes_def ok_string_def wr_app i16_def)

lemma write_nullable_string_app [wr_app]:
  "ok_opt ok_string v \<Longrightarrow> write_nullable_string v w = Inr (w @ nullable_string_bytes v)"
  by (cases v) (simp_all add: write_nullable_string_def nullable_string_bytes_def ok_opt_def wr_app)

lemma write_compact_string_app [wr_app]: "write_compact_string v w = Inr (w @ compact_string_bytes v)"
  by (simp add: write_compact_string_def compact_string_bytes_def wr_app)

lemma write_compact_nullable_string_app [wr_app]:
  "write_compact_nullable_string v w = Inr (w @ compact_nullable_string_bytes v)"
  by (cases v) (simp_all add: write_compact_nullable_string_def compact_nullable_string_bytes_def wr_app)

lemma write_bytes_app [wr_app]: "ok_bytes v \<Longrightarrow> write_bytes v w = Inr (w @ sized_bytes v)"
  by (simp add: write_bytes_def sized_bytes_def ok_bytes_def wr_app i32_def)

lemma write_nullable_bytes_app [wr_app]:
  "ok_opt ok_bytes v \<Longrightarrow> write_nullable_bytes v w = Inr (w @ nullable_bytes v)"
  by (cases v) (simp_all add: write_nullable_bytes_def nullable_bytes_def ok_opt_def wr_app)

lemma write_compact_nullable_bytes_app [wr_app]:
  "write_compact_nullable_bytes v w = Inr (w @ compact_nullable_bytes v)"
  by (cases v) (simp_all add: write_compact_nullable_bytes_def compact_nullable_bytes_def wr_app)

lemma write_array_count_app [wr_app]:
  "ok_count n \<Longrightarrow> write_array_count (cast_i32 (int n)) True w = Inr (w @ compact_count n)"
proof -
  assume "ok_count n"
  then have "cast_i32 (int n) = int n" and "i32 (int n)"
    by (auto simp: ok_count_def i32_def)
  moreover have "(word_of_int (int n + 1) :: 32 word) = word_of_nat (n + 1)"
    by simp
  ultimately show ?thesis
    by (simp add: write_array_count_def compact_count_def wr_app add.commute)
qed

lemma write_array_count_lit [wr_app]:
  "write_array_count 0 True w = Inr (w @ compact_count 0)"
  "write_array_count 1 True w = Inr (w @ compact_count 1)"
  "write_array_count (numeral k) True w = Inr (w @ compact_count (numeral k))"
  by (simp_all add: write_array_count_def compact_count_def wr_app)

lemma write_null_array_count_app [wr_app]:
  "write_nullable_array_count (- 1) True w = Inr (w @ uvarint 0)"
  by (simp add: write_nullable_array_count_def wr_app)

section \<open>Reading the composite encodings back\<close>

lemma size_plus_one:
  assumes "n + 1 < 2 ^ 32"
  shows "(word_of_nat (n + 1) :: 32 word) \<noteq> 0" and "unat (word_of_nat (n + 1) - 1 :: 32 word) = n"
proof -
  have u: "unat (word_of_nat (n + 1) :: 32 word) = n + 1"
    using assms by (simp only: unat_of_nat) (simp add: take_bit_nat_eq_self_iff)
  then show "(word_of_nat (n + 1) :: 32 word) \<noteq> 0"
    by (metis add_eq_0_iff_both_eq_0 unsigned_0 zero_neq_one)
  have "(word_of_nat (n + 1) - 1 :: 32 word) = word_of_nat n" by simp
  then show "unat (word_of_nat (n + 1) - 1 :: 32 word) = n"
    using assms by (simp add: unat_of_nat take_bit_nat_eq_self_iff)
qed

lemma read_string_at [rd_at]:
  "ok_string v \<Longrightarrow> read_string (reader_at pre (string_bytes v @ suf)) =
     Inr (v, reader_at (pre @ string_bytes v) suf)"
  by (simp add: read_string_def string_bytes_def ok_string_def rd_defs rd_at i16_def)

lemma read_nullable_string_at [rd_at]:
  "ok_opt ok_string v \<Longrightarrow> read_nullable_string (reader_at pre (nullable_string_bytes v @ suf)) =
     Inr (v, reader_at (pre @ nullable_string_bytes v) suf)"
  by (cases v)
    (simp_all add: read_nullable_string_def nullable_string_bytes_def string_bytes_def ok_opt_def
       ok_string_def rd_defs rd_at i16_def)

lemma read_compact_string_at [rd_at]:
  "ok_compact v \<Longrightarrow> read_compact_string (reader_at pre (compact_string_bytes v @ suf)) =
     Inr (v, reader_at (pre @ compact_string_bytes v) suf)"
  using size_plus_one [of "length v"]
  by (simp add: read_compact_string_def compact_string_bytes_def ok_compact_def rd_defs rd_at
      del: of_nat_add of_nat_Suc)

lemma read_compact_nullable_string_at [rd_at]:
  "ok_opt ok_compact v \<Longrightarrow>
     read_compact_nullable_string (reader_at pre (compact_nullable_string_bytes v @ suf)) =
     Inr (v, reader_at (pre @ compact_nullable_string_bytes v) suf)"
  using size_plus_one [of "length (the v)"]
  by (cases v)
    (simp_all add: read_compact_nullable_string_def compact_nullable_string_bytes_def
       compact_string_bytes_def ok_opt_def ok_compact_def rd_defs rd_at del: of_nat_add of_nat_Suc)

lemma read_bytes_at [rd_at]:
  "ok_bytes v \<Longrightarrow> read_bytes (reader_at pre (sized_bytes v @ suf)) =
     Inr (v, reader_at (pre @ sized_bytes v) suf)"
  by (simp add: read_bytes_def sized_bytes_def ok_bytes_def rd_defs rd_at i32_def)

lemma read_nullable_bytes_at [rd_at]:
  "ok_opt ok_bytes v \<Longrightarrow> read_nullable_bytes (reader_at pre (nullable_bytes v @ suf)) =
     Inr (v, reader_at (pre @ nullable_bytes v) suf)"
  by (cases v)
    (simp_all add: read_nullable_bytes_def nullable_bytes_def sized_bytes_def ok_opt_def
       ok_bytes_def rd_defs rd_at i32_def)

lemma read_compact_nullable_bytes_at [rd_at]:
  "ok_opt ok_compact v \<Longrightarrow>
     read_compact_nullable_bytes (reader_at pre (compact_nullable_bytes v @ suf)) =
     Inr (v, reader_at (pre @ compact_nullable_bytes v) suf)"
  using size_plus_one [of "length (the v)"]
  by (cases v)
    (simp_all add: read_compact_nullable_bytes_def compact_nullable_bytes_def
       ok_opt_def ok_compact_def rd_defs rd_at del: of_nat_add of_nat_Suc)

lemma read_bool_at [rd_at]:
  "read_bool (reader_at pre ((if b then 1 else 0) # suf)) =
     Inr (b, reader_at (pre @ [if b then 1 else 0]) suf)"
  using read_int8_at [of "if b then 1 else 0" pre suf]
  by (cases b) (simp_all add: read_bool_def rd_defs i8_def)

lemma read_array_count_at [rd_at]:
  assumes "ok_count n"
  shows "read_array_count True nullable (reader_at pre (compact_count n @ suf)) =
           Inr (int n, reader_at (pre @ compact_count n) suf)"
proof -
  let ?c = "word_of_nat (n + 1) :: 32 word"
  have u: "unat ?c = n + 1" and nz: "?c \<noteq> 0" and "\<not> ?c > 2147483647"
    using assms size_plus_one [of n]
    by (auto simp: ok_count_def unat_of_nat take_bit_nat_eq_self_iff word_less_nat_alt
        simp del: of_nat_add of_nat_Suc)
  moreover have "sint (?c - 1) = int n"
    using assms sint_word_of_int_32 [of "int n"] by (simp add: ok_count_def i32_def)
  ultimately show ?thesis
    by (simp add: read_array_count_def compact_count_def rd_defs rd_at del: of_nat_add of_nat_Suc)
qed

lemma read_null_array_count_at [rd_at]:
  "read_array_count True True (reader_at pre (uvarint 0 @ suf)) =
     Inr (- 1, reader_at (pre @ uvarint 0) suf)"
  by (simp add: read_array_count_def rd_defs rd_at)

lemma skip_no_tagged_fields_at [rd_at]:
  "skip_tagged_fields (reader_at pre (uvarint 0 @ suf)) = Inr ((), reader_at (pre @ uvarint 0) suf)"
  by (simp add: skip_tagged_fields_def rd_defs rd_at)

section \<open>The primitives meet the contract\<close>

interpretation fmt_int8: wire_format write_int8 read_int8 "\<lambda>v. [word_of_int v]" i8
  by unfold_locales (simp_all add: wr_app rd_at safe_read_int8)

interpretation fmt_bool: wire_format write_bool read_bool "\<lambda>b. [if b then 1 else 0]" "\<lambda>_. True"
  by unfold_locales (simp_all add: wr_app rd_at safe_read_bool)

interpretation fmt_int16: wire_format write_int16 read_int16 be16 i16
  by unfold_locales (simp_all add: wr_app rd_at safe_read_int16)

interpretation fmt_int32: wire_format write_int32 read_int32 be32 i32
  by unfold_locales (simp_all add: wr_app rd_at safe_read_int32)

interpretation fmt_int64: wire_format write_int64 read_int64 be64 i64
  by unfold_locales (simp_all add: wr_app rd_at safe_read_int64)

interpretation fmt_uvarint: wire_format write_unsigned_varint read_unsigned_varint uvarint "\<lambda>_. True"
  by unfold_locales (simp_all add: wr_app rd_at safe_read_unsigned_varint)

interpretation fmt_string: wire_format write_string read_string string_bytes ok_string
  by unfold_locales (simp_all add: wr_app rd_at safe_read_string)

interpretation fmt_nullable_string:
  wire_format write_nullable_string read_nullable_string nullable_string_bytes "ok_opt ok_string"
  by unfold_locales (simp_all add: wr_app rd_at safe_read_nullable_string)

interpretation fmt_compact_string:
  wire_format write_compact_string read_compact_string compact_string_bytes ok_compact
  by unfold_locales (simp_all add: wr_app rd_at safe_read_compact_string)

interpretation fmt_compact_nullable_string:
  wire_format write_compact_nullable_string read_compact_nullable_string
    compact_nullable_string_bytes "ok_opt ok_compact"
  by unfold_locales (simp_all add: wr_app rd_at safe_read_compact_nullable_string)

interpretation fmt_bytes: wire_format write_bytes read_bytes sized_bytes ok_bytes
  by unfold_locales (simp_all add: wr_app rd_at safe_read_bytes)

interpretation fmt_nullable_bytes:
  wire_format write_nullable_bytes read_nullable_bytes nullable_bytes "ok_opt ok_bytes"
  by unfold_locales (simp_all add: wr_app rd_at safe_read_nullable_bytes)

interpretation fmt_compact_nullable_bytes:
  wire_format write_compact_nullable_bytes read_compact_nullable_bytes
    compact_nullable_bytes "ok_opt ok_compact"
  by unfold_locales (simp_all add: wr_app rd_at safe_read_compact_nullable_bytes)

section \<open>Properties\<close>

lemma unat_size: "n < 2 ^ 32 \<Longrightarrow> unat (word_of_nat n :: 32 word) = n"
  by (simp add: unat_of_nat take_bit_nat_eq_self_iff)

lemma skip_fields_at:
  assumes "\<forall>f\<in>set fs. length (snd f) < 2 ^ 32"
  shows "skip_fields (length fs) first previous_tag (reader_at pre (concat (map tagged_field_bytes fs) @ suf)) =
     (if sorted_wrt (<) ((if first then [] else [previous_tag]) @ map fst fs)
      then Inr ((), reader_at (pre @ concat (map tagged_field_bytes fs)) suf)
      else Inl (ProtocolError ''Kafka tagged fields are not strictly increasing''))"
  using assms
proof (induction fs arbitrary: first previous_tag pre)
  case Nil
  then show ?case by (simp add: rd_return_def)
next
  case (Cons f fs)
  obtain tag dat where f: "f = (tag, dat)" by (cases f)
  have trans: "transp ((<) :: 32 word \<Rightarrow> _)" by (rule transp_on_less)
  from Cons show ?case
    by (auto simp: f tagged_field_bytes_def [of "(tag, dat)"] rd_defs rd_at unat_size sorted_wrt2 [OF trans] not_less)
qed

text \<open>
  C40: skipping a tagged-field section consumes exactly the section when its tags are strictly
  increasing, and fails with the protocol error otherwise; this is what makes unknown tagged
  fields of a newer client harmless.
\<close>

theorem skip_tagged_fields_exact:
  assumes "length fs < 2 ^ 32" and "\<forall>f\<in>set fs. length (snd f) < 2 ^ 32"
  shows "skip_tagged_fields (reader_at pre (tagged_fields_bytes fs @ suf)) =
     (if sorted_wrt (<) (map fst fs)
      then Inr ((), reader_at (pre @ tagged_fields_bytes fs) suf)
      else Inl (ProtocolError ''Kafka tagged fields are not strictly increasing''))"
  using assms(1) skip_fields_at [OF assms(2), of True]
  by (simp add: skip_tagged_fields_def tagged_fields_bytes_def rd_defs rd_at unat_size)

theorem skip_tagged_fields_exact_witness:
  "skip_tagged_fields (reader_at [7] (tagged_fields_bytes [(0, [1, 2]), (3, [])] @ [9])) =
     Inr ((), reader_at ([7] @ tagged_fields_bytes [(0, [1, 2]), (3, [])]) [9]) \<and>
   skip_tagged_fields (reader_at [7] (tagged_fields_bytes [(3, [1, 2]), (3, [])] @ [9])) =
     Inl (ProtocolError ''Kafka tagged fields are not strictly increasing'')"
  using skip_tagged_fields_exact [of "[(0, [1, 2]), (3, [])]" "[7]" "[9]"]
    skip_tagged_fields_exact [of "[(3, [1, 2]), (3, [])]" "[7]" "[9]"]
  by simp

text \<open>
  The unsigned varint writer and reader are inverse on all 32-bit values, whatever follows
  in the buffer, and no value is longer than five bytes.
\<close>

theorem unsigned_varint_round_trip:
  "\<exists>bs. write_unsigned_varint v w = Inr (w @ bs) \<and> length bs \<le> 5 \<and>
        read_unsigned_varint (reader_at w (bs @ suf)) = Inr (v, reader_at (w @ bs) suf)"
proof -
  have "length (uvarint v) \<le> 5"
    using uvarint_length [of 5 v] by (simp add: bit_less_35)
  then show ?thesis by (auto simp: wr_app rd_at)
qed

end
