(* ===== verification/Broker_Detail.thy ===== *)
theory Broker_Detail
  imports Config Wire_Format
begin

text \<open>
  The message structs of \<^verbatim>\<open>include/mkmq/kafka_protocol.hpp\<close> and
  \<^verbatim>\<open>include/mkmq/broker_shard.hpp\<close>, and the helpers of \<^verbatim>\<open>src/broker_shard_detail.hpp\<close> and
  \<^verbatim>\<open>src/broker_shard_detail.cpp\<close>: byte-level integers, segment file names, the replication
  codec and the checks of a configuration reload.
\<close>

section \<open>Structs\<close>

record ProducePartitionRequest =
  ppq_topic :: string
  ppq_partition :: int
  ppq_records :: bytes

record ProducePartitionResult =
  ppr_topic :: string
  ppr_partition :: int
  ppr_error_code :: int
  ppr_base_offset :: int
  ppr_log_end_offset :: int
  ppr_log_start_offset :: int

record FetchPartitionRequest =
  fpq_topic :: string
  fpq_partition :: int
  fpq_offset :: int
  fpq_max_wait_ms :: int
  fpq_min_bytes :: int
  fpq_max_bytes :: int

record FetchPartitionResult =
  fpr_error_code :: int
  fpr_high_watermark :: int
  fpr_log_start_offset :: int
  fpr_log_end_offset :: int
  fpr_records :: bytes

record ListOffsetPartitionRequest =
  lpq_topic :: string
  lpq_partition :: int
  lpq_timestamp :: int

record ListOffsetPartitionResult =
  lpr_topic :: string
  lpr_partition :: int
  lpr_error_code :: int
  lpr_earliest :: int
  lpr_latest :: int
  lpr_selected :: int

record PartitionOffsets =
  po_earliest :: int
  po_latest :: int
  po_high_watermark :: int

record ReplicaAppendRequest =
  rar_topic :: string
  rar_partition :: int
  rar_base_offset :: int
  rar_leader_high_watermark :: int
  rar_records :: bytes

record ReplicaFetchRequest =
  rfq_topic :: string
  rfq_partition :: int
  rfq_offset :: int
  rfq_max_bytes :: int

record ReplicaFetchResult =
  rfr_error_code :: int
  rfr_leader_high_watermark :: int
  rfr_log_end_offset :: int
  rfr_records :: bytes

section \<open>Byte-level helpers\<close>

definition kLogMagic :: bytes where
  "kLogMagic = [0x4d, 0x4b, 0x4d, 0x51, 0x4c, 0x4f, 0x47, 0x31]"

definition kIndexMagic :: bytes where
  "kIndexMagic = [0x4d, 0x4b, 0x4d, 0x51, 0x49, 0x44, 0x58, 0x31]"

definition kIndexEntryPayloadSize :: nat where
  "kIndexEntryPayloadSize = 48"

definition kReplicaCatchupMaxBytes :: int where
  "kReplicaCatchupMaxBytes = 1024 * 1024"

definition round_up :: "nat \<Rightarrow> nat \<Rightarrow> nat" where
  "round_up v alignment = ((v + alignment - 1) div alignment) * alignment"

text \<open>
  \<^verbatim>\<open>std::memcpy\<close> of an integer in the byte order of the machine, which is little-endian
  wherever the SSE4.2 checksum instructions exist. A store is the bytes it writes.
\<close>

definition put_i32 :: "int \<Rightarrow> bytes" where
  "put_i32 v = map (\<lambda>k. ucast (drop_bit k (word_of_int v :: 32 word))) [0, 8, 16, 24]"

definition put_i64 :: "int \<Rightarrow> bytes" where
  "put_i64 v = map (\<lambda>k. ucast (drop_bit k (word_of_int v :: 64 word))) [0, 8, 16, 24, 32, 40, 48, 56]"

definition get_i32 :: "bytes \<Rightarrow> int" where
  "get_i32 bs = sint (ucast (bs ! 0) OR push_bit 8 (ucast (bs ! 1)) OR push_bit 16 (ucast (bs ! 2)) OR
                      push_bit 24 (ucast (bs ! 3)) :: 32 word)"

definition get_i64 :: "bytes \<Rightarrow> int" where
  "get_i64 bs = sint (fold (\<lambda>x acc. push_bit 8 acc OR ucast x) (rev (take 8 bs)) (0 :: 64 word))"

definition decode_frame_size :: "bytes \<Rightarrow> int" where
  "decode_frame_size bs =
     sint (push_bit 24 (ucast (bs ! 0)) OR push_bit 16 (ucast (bs ! 1)) OR push_bit 8 (ucast (bs ! 2)) OR
           ucast (bs ! 3) :: 32 word)"

definition request_api_key :: "bytes \<Rightarrow> int" where
  "request_api_key payload =
     (if length payload < 2 then - 1
      else sint (push_bit 8 (ucast (payload ! 0)) OR ucast (payload ! 1) :: 16 word))"

section \<open>Segment names\<close>

definition sanitized_topic_name :: "string \<Rightarrow> string" where
  "sanitized_topic_name name = map (\<lambda>ch. if ch = CHR ''/'' \<or> ch = CHR '':'' then CHR ''_'' else ch) name"

definition segment_prefix :: "PartitionConfig \<Rightarrow> string" where
  "segment_prefix config =
     sanitized_topic_name (pc_topic config) @ ''-'' @ to_string_int (pc_partition config) @ ''-''"

definition segment_name :: "PartitionConfig \<Rightarrow> int \<Rightarrow> string" where
  "segment_name config base_offset =
     segment_prefix config @ setw_zero 20 (to_string_int base_offset) @ ''.segment''"

definition segment_base_offset_from_name :: "PartitionConfig \<Rightarrow> string \<Rightarrow> int option result" where
  "segment_base_offset_from_name config filename =
     (let pre = segment_prefix config;
          suffix = ''.segment''
      in if length filename \<le> length pre + length suffix \<or>
            take (length pre) filename \<noteq> pre \<or>
            drop (length filename - length suffix) filename \<noteq> suffix
         then Inr None
         else let digits = take (length filename - length pre - length suffix) (drop (length pre) filename)
              in if digits = [] \<or> \<not> list_all is_digit digits then Inr None
                 else rbind (stoll digits) (\<lambda>v. Inr (Some v)))"

section \<open>Replication codec\<close>

definition read_payload :: "'a reads \<Rightarrow> bytes \<Rightarrow> 'a result" where
  "read_payload rd payload = rbind (rd (wire_reader_of payload)) (\<lambda>(x, _). Inr x)"

definition read_replica_append :: "ReplicaAppendRequest reads" where
  "read_replica_append =
     rd_bind read_string (\<lambda>topic.
     rd_bind read_int32 (\<lambda>p.
     rd_bind read_int64 (\<lambda>base_offset.
     rd_bind read_int64 (\<lambda>leader_high_watermark.
     rd_bind read_bytes (\<lambda>records.
     rd_return \<lparr>rar_topic = topic, rar_partition = p, rar_base_offset = base_offset,
                rar_leader_high_watermark = leader_high_watermark, rar_records = records\<rparr>)))))"

definition decode_replica_append :: "bytes \<Rightarrow> ReplicaAppendRequest result" where
  "decode_replica_append payload = read_payload read_replica_append payload"

definition encode_replica_append :: "ReplicaAppendRequest \<Rightarrow> bytes result" where
  "encode_replica_append request =
     write_seq [write_string (rar_topic request), write_int32 (rar_partition request),
       write_int64 (rar_base_offset request), write_int64 (rar_leader_high_watermark request),
       write_bytes (rar_records request)] []"

definition encode_replica_append_response :: "int \<Rightarrow> int \<Rightarrow> bytes result" where
  "encode_replica_append_response error_code log_end_offset =
     write_seq [write_int16 error_code, write_int64 log_end_offset] []"

definition read_replica_fetch :: "ReplicaFetchRequest reads" where
  "read_replica_fetch =
     rd_bind read_string (\<lambda>topic.
     rd_bind read_int32 (\<lambda>p.
     rd_bind read_int64 (\<lambda>offset.
     rd_bind read_int32 (\<lambda>max_bytes.
     rd_return \<lparr>rfq_topic = topic, rfq_partition = p, rfq_offset = offset, rfq_max_bytes = max_bytes\<rparr>))))"

definition decode_replica_fetch :: "bytes \<Rightarrow> ReplicaFetchRequest result" where
  "decode_replica_fetch payload = read_payload read_replica_fetch payload"

definition encode_replica_fetch :: "ReplicaFetchRequest \<Rightarrow> bytes result" where
  "encode_replica_fetch request =
     write_seq [write_string (rfq_topic request), write_int32 (rfq_partition request),
       write_int64 (rfq_offset request), write_int32 (rfq_max_bytes request)] []"

definition encode_replica_fetch_response :: "ReplicaFetchResult \<Rightarrow> bytes result" where
  "encode_replica_fetch_response result =
     write_seq [write_int16 (rfr_error_code result), write_int64 (rfr_leader_high_watermark result),
       write_int64 (rfr_log_end_offset result), write_bytes (rfr_records result)] []"

definition read_replica_fetch_response :: "ReplicaFetchResult reads" where
  "read_replica_fetch_response =
     rd_bind read_int16 (\<lambda>error_code.
     rd_bind read_int64 (\<lambda>leader_high_watermark.
     rd_bind read_int64 (\<lambda>log_end_offset.
     rd_bind read_bytes (\<lambda>records.
     rd_return \<lparr>rfr_error_code = error_code, rfr_leader_high_watermark = leader_high_watermark,
                rfr_log_end_offset = log_end_offset, rfr_records = records\<rparr>))))"

definition decode_replica_fetch_response :: "bytes \<Rightarrow> ReplicaFetchResult result" where
  "decode_replica_fetch_response payload = read_payload read_replica_fetch_response payload"

definition decode_replica_append_response ::
    "ReplicaAppendRequest \<Rightarrow> bytes \<Rightarrow> ProducePartitionResult result" where
  "decode_replica_append_response request payload =
     read_payload
       (rd_bind read_int16 (\<lambda>error_code.
        rd_bind read_int64 (\<lambda>_.
        rd_return \<lparr>ppr_topic = rar_topic request, ppr_partition = rar_partition request,
                   ppr_error_code = error_code, ppr_base_offset = rar_base_offset request,
                   ppr_log_end_offset = 0, ppr_log_start_offset = 0\<rparr>))) payload"

section \<open>Reload validation\<close>

text \<open>
  \<^verbatim>\<open>std::filesystem::path\<close> values are compared element by element: a root directory, the
  names between slashes, and an empty last element after a trailing slash.
\<close>

fun path_names :: "string \<Rightarrow> string \<Rightarrow> string list" where
  "path_names acc [] = (if acc = [] then [] else [acc])"
| "path_names acc (c # cs) =
     (if c = CHR ''/'' then (if acc = [] then path_names [] cs else acc # path_names [] cs)
      else path_names (acc @ [c]) cs)"

definition path_elements :: "string \<Rightarrow> bool \<times> string list \<times> bool" where
  "path_elements s =
     (let names = path_names [] s
      in (s \<noteq> [] \<and> hd s = CHR ''/'', names, names \<noteq> [] \<and> last s = CHR ''/''))"

definition path_eq :: "string \<Rightarrow> string \<Rightarrow> bool" where
  "path_eq a b \<longleftrightarrow> path_elements a = path_elements b"

definition validate_reload_broker :: "BrokerConfig \<Rightarrow> BrokerEndpoint \<Rightarrow> unit result" where
  "validate_reload_broker new_config broker =
     guardR (case find_broker new_config (be_id broker) of
               None \<Rightarrow> False
             | Some updated \<Rightarrow> be_kafka_host updated = be_kafka_host broker \<and>
                 be_kafka_port updated = be_kafka_port broker \<and>
                 be_mercury_address updated = be_mercury_address broker)
       (RuntimeError ''SIGHUP reload cannot change broker endpoints yet'')"

definition validate_reload_partition :: "BrokerConfig \<Rightarrow> PartitionConfig \<Rightarrow> unit result" where
  "validate_reload_partition new_config p =
     (case find_partition new_config (pc_topic p) (pc_partition p) of
        None \<Rightarrow> Inl (RuntimeError ''SIGHUP reload cannot delete topic partitions'')
      | Some updated \<Rightarrow>
          rbind (guardR (pc_shard updated = pc_shard p)
                   (RuntimeError ''SIGHUP reload cannot migrate partitions across shards'')) (\<lambda>_.
          rbind (guardR (pc_replicas updated = pc_replicas p \<and> pc_isr updated = pc_isr p)
                   (RuntimeError ''SIGHUP reload cannot change replicas or ISR yet'')) (\<lambda>_.
          guardR (pc_migration_generation updated = pc_migration_generation p \<and>
                  pc_migration_target_shard updated = pc_migration_target_shard p \<and>
                  pc_migration_target_leader updated = pc_migration_target_leader p)
            (RuntimeError ''SIGHUP reload accepts migration schema but does not execute migrations yet''))))"

definition validate_reload :: "BrokerConfig \<Rightarrow> BrokerConfig \<Rightarrow> unit result" where
  "validate_reload old_config new_config =
     rbind (guardR (bc_node_id old_config = bc_node_id new_config)
              (RuntimeError ''SIGHUP reload cannot change node_id'')) (\<lambda>_.
     rbind (guardR (path_eq (bc_data_dir old_config) (bc_data_dir new_config))
              (RuntimeError ''SIGHUP reload cannot change data_dir'')) (\<lambda>_.
     rbind (guardR (bc_segment_bytes old_config = bc_segment_bytes new_config)
              (RuntimeError ''SIGHUP reload cannot change segment_bytes'')) (\<lambda>_.
     rbind (guardR (length (bc_brokers old_config) = length (bc_brokers new_config))
              (RuntimeError ''SIGHUP reload cannot add or remove brokers yet'')) (\<lambda>_.
     rbind (foldR (\<lambda>broker _. validate_reload_broker new_config broker) (bc_brokers old_config) ()) (\<lambda>_.
     foldR (\<lambda>p _. validate_reload_partition new_config p) (all_partitions old_config) ())))))"

section \<open>Integers in memory\<close>

lemma length_put [simp]: "length (put_i32 v) = 4" "length (put_i64 v) = 8"
  by (simp_all add: put_i32_def put_i64_def)

lemma get_put_i32 [simp]: "i32 v \<Longrightarrow> get_i32 (put_i32 v @ rest) = v"
  using join32 [of "word_of_int v"]
  by (simp add: get_i32_def put_i32_def sint_word_of_int_32 or.commute or.left_commute or.assoc
      numeral_3_eq_3 numeral_2_eq_2)

lemma get_put_i64 [simp]: "i64 v \<Longrightarrow> get_i64 (put_i64 v @ rest) = v"
proof -
  assume v: "i64 v"
  have "rev (take 8 (put_i64 v @ rest)) = be64 v"
    by (simp add: put_i64_def be64_def)
  then have "get_i64 (put_i64 v @ rest) = sint (word_of_int v :: 64 word)"
    unfolding get_i64_def be64_def by (simp only: join64)
  with v show ?thesis by (simp add: sint_word_of_int_64)
qed

lemma decode_frame_size_be32: "i32 v \<Longrightarrow> decode_frame_size (be32 v) = v"
  using join32 [of "word_of_int v"]
  by (simp add: decode_frame_size_def be32_def sint_word_of_int_32 numeral_3_eq_3 numeral_2_eq_2)

lemma round_up_ge: "0 < a \<Longrightarrow> v \<le> round_up v a"
proof -
  assume a: "0 < a"
  have "v + a - 1 = (v + a - 1) div a * a + (v + a - 1) mod a" by simp
  moreover have "(v + a - 1) mod a < a" using a by simp
  ultimately show ?thesis unfolding round_up_def using a by linarith
qed

lemma round_up_dvd: "a dvd round_up v a"
  by (simp add: round_up_def)

lemma round_up_less: "0 < a \<Longrightarrow> round_up v a < v + a"
  unfolding round_up_def by (metis Nat.add_diff_assoc One_nat_def Suc_leI Suc_pred add_gr_0
      div_times_less_eq_dividend le_imp_less_Suc mult.commute)

section \<open>Segment names identify the partition and the base offset\<close>

lemma digits_split:
  assumes "p @ CHR ''-'' # ds = q @ CHR ''-'' # es" "list_all is_digit ds" "list_all is_digit es"
  shows "p = q \<and> ds = es"
proof -
  have "CHR ''-'' \<notin> set ds" "CHR ''-'' \<notin> set es"
    using assms(2,3) by (auto simp: list_all_iff)
  with assms(1) show ?thesis
    by (auto simp: append_eq_append_conv2 append_eq_Cons_conv Cons_eq_append_conv)
qed

lemma segment_base_offset_from_name_Some:
  assumes "segment_base_offset_from_name c f = Inr (Some b)"
  obtains ds where "f = segment_prefix c @ ds @ ''.segment''" "ds \<noteq> []" "list_all is_digit ds"
    "b = int (digits_value ds)" "i64 b"
proof -
  let ?n = "length (segment_prefix c)"
  let ?s = "length ''.segment''"
  let ?ds = "take (length f - ?n - ?s) (drop ?n f)"
  from assms have len: "?n + ?s < length f" and pre: "take ?n f = segment_prefix c"
    and suf: "drop (length f - ?s) f = ''.segment''" and ds: "?ds \<noteq> []" "list_all is_digit ?ds"
    and b: "stoll ?ds = Inr b"
    by (auto simp: segment_base_offset_from_name_def Let_def rbind_eq_Inr_iff split: if_splits)
  have "length f - ?n - ?s + ?n = length f - ?s" using len by linarith
  with suf have "drop (length f - ?n - ?s) (drop ?n f) = ''.segment''"
    by (simp only: drop_drop)
  then have "f = segment_prefix c @ ?ds @ ''.segment''"
    by (metis append_take_drop_id pre)
  moreover have "b = int (digits_value ?ds)" "i64 b"
    using b by (auto simp: stoll_def i64_def split: if_splits)
  ultimately show ?thesis using ds that by blast
qed

lemma segment_name_round_trip:
  assumes "0 \<le> b" "i64 b"
  shows "segment_base_offset_from_name c (segment_name c b) = Inr (Some b)"
  using setw_zero_nat(1,2) [OF assms(1), of 20] stoll_setw_zero [OF assms, of 20]
  by (simp add: segment_base_offset_from_name_def segment_name_def Let_def)

lemma sanitized_prefix_inject:
  assumes "segment_prefix c = segment_prefix d" "0 \<le> pc_partition c" "0 \<le> pc_partition d"
  shows "sanitized_topic_name (pc_topic c) = sanitized_topic_name (pc_topic d) \<and>
         pc_partition c = pc_partition d"
proof -
  have "sanitized_topic_name (pc_topic c) @ CHR ''-'' # nat_to_string (nat (pc_partition c)) =
        sanitized_topic_name (pc_topic d) @ CHR ''-'' # nat_to_string (nat (pc_partition d))"
    using assms by (simp add: segment_prefix_def to_string_int_def)
  from digits_split [OF this nat_to_string_digits nat_to_string_digits] assms(2,3)
  show ?thesis by (simp add: eq_nat_nat_iff)
qed

lemma segment_name_owner:
  assumes "segment_base_offset_from_name d (segment_name c b) = Inr (Some x)" "0 \<le> b"
  shows "segment_prefix d = segment_prefix c \<and> x = b"
proof -
  let ?es = "setw_zero 20 (to_string_int b)"
  from assms(1) obtain ds where
    ds: "segment_name c b = segment_prefix d @ ds @ ''.segment''" "list_all is_digit ds"
      "x = int (digits_value ds)"
    by (rule segment_base_offset_from_name_Some)
  define pc where "pc = sanitized_topic_name (pc_topic c) @ ''-'' @ to_string_int (pc_partition c)"
  define pd where "pd = sanitized_topic_name (pc_topic d) @ ''-'' @ to_string_int (pc_partition d)"
  have prefixes: "segment_prefix c = pc @ ''-''" "segment_prefix d = pd @ ''-''"
    by (simp_all add: segment_prefix_def pc_def pd_def)
  have "(pd @ CHR ''-'' # ds) @ ''.segment'' = (pc @ CHR ''-'' # ?es) @ ''.segment''"
    using ds(1) by (simp add: segment_name_def prefixes)
  then have "pd @ CHR ''-'' # ds = pc @ CHR ''-'' # ?es" by (simp only: append_same_eq)
  from digits_split [OF this ds(2) setw_zero_nat(1) [OF assms(2)]]
  show ?thesis using ds(3) assms(2) by (simp add: prefixes setw_zero_nat(3))
qed

section \<open>Replication messages\<close>

definition replica_append_bytes :: "ReplicaAppendRequest \<Rightarrow> bytes" where
  "replica_append_bytes r =
     string_bytes (rar_topic r) @ be32 (rar_partition r) @ be64 (rar_base_offset r) @
     be64 (rar_leader_high_watermark r) @ sized_bytes (rar_records r)"

definition ok_replica_append :: "ReplicaAppendRequest \<Rightarrow> bool" where
  "ok_replica_append r \<longleftrightarrow>
     ok_string (rar_topic r) \<and> i32 (rar_partition r) \<and> i64 (rar_base_offset r) \<and>
     i64 (rar_leader_high_watermark r) \<and> ok_bytes (rar_records r)"

definition replica_fetch_bytes :: "ReplicaFetchRequest \<Rightarrow> bytes" where
  "replica_fetch_bytes r =
     string_bytes (rfq_topic r) @ be32 (rfq_partition r) @ be64 (rfq_offset r) @ be32 (rfq_max_bytes r)"

definition ok_replica_fetch :: "ReplicaFetchRequest \<Rightarrow> bool" where
  "ok_replica_fetch r \<longleftrightarrow>
     ok_string (rfq_topic r) \<and> i32 (rfq_partition r) \<and> i64 (rfq_offset r) \<and> i32 (rfq_max_bytes r)"

definition replica_fetch_response_bytes :: "ReplicaFetchResult \<Rightarrow> bytes" where
  "replica_fetch_response_bytes r =
     be16 (rfr_error_code r) @ be64 (rfr_leader_high_watermark r) @ be64 (rfr_log_end_offset r) @
     sized_bytes (rfr_records r)"

definition ok_replica_fetch_response :: "ReplicaFetchResult \<Rightarrow> bool" where
  "ok_replica_fetch_response r \<longleftrightarrow>
     i16 (rfr_error_code r) \<and> i64 (rfr_leader_high_watermark r) \<and> i64 (rfr_log_end_offset r) \<and>
     ok_bytes (rfr_records r)"

interpretation dec_replica_append: wire_decoder read_replica_append replica_append_bytes ok_replica_append
  by unfold_locales
    (simp_all add: read_replica_append_def replica_append_bytes_def ok_replica_append_def
       rd_bind_def rd_return_def rd_at,
     intro safe_reads)

interpretation dec_replica_fetch: wire_decoder read_replica_fetch replica_fetch_bytes ok_replica_fetch
  by unfold_locales
    (simp_all add: read_replica_fetch_def replica_fetch_bytes_def ok_replica_fetch_def
       rd_bind_def rd_return_def rd_at,
     intro safe_reads)

interpretation dec_replica_fetch_response:
  wire_decoder read_replica_fetch_response replica_fetch_response_bytes ok_replica_fetch_response
  by unfold_locales
    (simp_all add: read_replica_fetch_response_def replica_fetch_response_bytes_def
       ok_replica_fetch_response_def rd_bind_def rd_return_def rd_at,
     intro safe_reads)

lemma encode_replica_append_eq: "ok_replica_append r \<Longrightarrow> encode_replica_append r = Inr (replica_append_bytes r)"
  by (simp add: encode_replica_append_def replica_append_bytes_def ok_replica_append_def wr_app)

lemma encode_replica_fetch_eq: "ok_replica_fetch r \<Longrightarrow> encode_replica_fetch r = Inr (replica_fetch_bytes r)"
  by (simp add: encode_replica_fetch_def replica_fetch_bytes_def ok_replica_fetch_def wr_app)

lemma encode_replica_fetch_response_eq:
  "ok_replica_fetch_response r \<Longrightarrow> encode_replica_fetch_response r = Inr (replica_fetch_response_bytes r)"
  by (simp add: encode_replica_fetch_response_def replica_fetch_response_bytes_def
      ok_replica_fetch_response_def wr_app)

lemma read_payload_enc:
  assumes "wire_decoder rd enc ok" "ok v"
  shows "read_payload rd (enc v) = Inr v"
  using wire_decoder.rd_enc_end [OF assms, of "[]"] by (simp add: read_payload_def reader_at_Nil)

lemma read_payload_safe:
  assumes "safe_read rd"
  shows "read_payload rd payload \<noteq> Inl OutOfBounds"
  using safe_readD(1) [OF assms reader_ok_wire_reader_of, of payload]
  by (auto simp: read_payload_def rbind_eq_Inl_iff)

lemma decode_encode_replica_append:
  "ok_replica_append r \<Longrightarrow> decode_replica_append (replica_append_bytes r) = Inr r"
  unfolding decode_replica_append_def by (rule read_payload_enc [OF dec_replica_append.wire_decoder_axioms])

lemma decode_encode_replica_fetch:
  "ok_replica_fetch r \<Longrightarrow> decode_replica_fetch (replica_fetch_bytes r) = Inr r"
  unfolding decode_replica_fetch_def by (rule read_payload_enc [OF dec_replica_fetch.wire_decoder_axioms])

lemma decode_encode_replica_fetch_response:
  "ok_replica_fetch_response r \<Longrightarrow>
     decode_replica_fetch_response (replica_fetch_response_bytes r) = Inr r"
  unfolding decode_replica_fetch_response_def
  by (rule read_payload_enc [OF dec_replica_fetch_response.wire_decoder_axioms])

section \<open>Reload\<close>

lemma validate_reload_iff:
  "validate_reload old new = Inr () \<longleftrightarrow>
     bc_node_id old = bc_node_id new \<and> path_eq (bc_data_dir old) (bc_data_dir new) \<and>
     bc_segment_bytes old = bc_segment_bytes new \<and> length (bc_brokers old) = length (bc_brokers new) \<and>
     (\<forall>b\<in>set (bc_brokers old). validate_reload_broker new b = Inr ()) \<and>
     (\<forall>p\<in>set (all_partitions old). validate_reload_partition new p = Inr ())"
  by (auto simp: validate_reload_def rbind_eq_Inr_iff foldR_unit_iff)

lemma validate_reload_broker_found:
  "validate_reload_broker new b = Inr () \<Longrightarrow> find_broker new (be_id b) = Some b"
  by (auto simp: validate_reload_broker_def find_broker_def find_Some_iff split: option.splits)

lemma validate_reload_partition_found:
  assumes "validate_reload_partition new p = Inr ()"
  obtains q where "find_partition new (pc_topic p) (pc_partition p) = Some q"
    "pc_shard q = pc_shard p" "pc_replicas q = pc_replicas p" "pc_isr q = pc_isr p"
    "pc_migration_generation q = pc_migration_generation p"
    "pc_migration_target_shard q = pc_migration_target_shard p"
    "pc_migration_target_leader q = pc_migration_target_leader p"
  using assms by (auto simp: validate_reload_partition_def rbind_eq_Inr_iff split: option.splits)

lemma reload_brokers:
  assumes "config_ok old" "config_ok new" "validate_reload old new = Inr ()"
  shows "set (bc_brokers new) = set (bc_brokers old)"
proof -
  have "set (bc_brokers old) \<subseteq> set (bc_brokers new)"
    using assms(3) validate_reload_broker_found
    by (fastforce simp: validate_reload_iff find_broker_def find_Some_iff)
  moreover have "card (set (bc_brokers old)) = card (set (bc_brokers new))"
    using assms by (simp add: config_ok_def distinct_map distinct_card validate_reload_iff)
  ultimately show ?thesis by (metis List.finite_set card_subset_eq)
qed

section \<open>Properties\<close>



text \<open>Two different topics whose names differ only in a slash and a colon share their files.\<close>

lemma segment_names_collide:
  "segment_name (sample_partition \<lparr>pc_topic := ''a/b''\<rparr>) base_offset =
   segment_name (sample_partition \<lparr>pc_topic := ''a:b''\<rparr>) base_offset"
  by (simp add: segment_name_def segment_prefix_def sanitized_topic_name_def)



text \<open>
  C31: a reload that is accepted keeps the cluster intact: the same local node, segment size and
  set of brokers, and every partition of the old configuration is found in the new one under
  its key, on the same shard, with the same replicas, in-sync set and migration.
\<close>

theorem reload_keeps_placement:
  assumes "config_ok old" "config_ok new" "validate_reload old new = Inr ()"
    and "p \<in> set (all_partitions old)"
  shows "bc_node_id new = bc_node_id old \<and> bc_segment_bytes new = bc_segment_bytes old \<and>
    set (bc_brokers new) = set (bc_brokers old) \<and>
    (\<exists>q. find_partition new (pc_topic p) (pc_partition p) = Some q \<and>
       pc_shard q = pc_shard p \<and> pc_replicas q = pc_replicas p \<and> pc_isr q = pc_isr p \<and>
       pc_migration_generation q = pc_migration_generation p)"
proof -
  have "validate_reload_partition new p = Inr ()"
    using assms(3,4) by (simp add: validate_reload_iff)
  then obtain q where "find_partition new (pc_topic p) (pc_partition p) = Some q"
    "pc_shard q = pc_shard p" "pc_replicas q = pc_replicas p" "pc_isr q = pc_isr p"
    "pc_migration_generation q = pc_migration_generation p"
    by (rule validate_reload_partition_found)
  then show ?thesis
    using assms(3) reload_brokers [OF assms(1-3)] by (auto simp: validate_reload_iff)
qed

theorem reload_keeps_placement_witness:
  "\<exists>q. find_partition (sample_config \<lparr>bc_cluster_generation := 2\<rparr>) ''t'' 0 = Some q \<and>
       pc_shard q = 0 \<and> pc_replicas q = [0] \<and> pc_isr q = [0]"
proof -
  have "config_ok (sample_config \<lparr>bc_cluster_generation := 2\<rparr>)"
    using sample_config_ok by (simp add: config_ok_def all_partitions_def)
  moreover have "validate_reload sample_config (sample_config \<lparr>bc_cluster_generation := 2\<rparr>) = Inr ()"
    by (simp add: validate_reload_iff validate_reload_broker_def validate_reload_partition_def
        find_broker_def find_partition_def all_partitions_def path_eq_def sample_config_def
        sample_broker_def sample_partition_def)
  ultimately show ?thesis
    using reload_keeps_placement [OF sample_config_ok, of "sample_config \<lparr>bc_cluster_generation := 2\<rparr>"
        sample_partition] sample_partition_in
    by (auto simp: sample_partition_def)
qed

end
