(* ===== verification/Record_Batch.thy ===== *)
theory Record_Batch
  imports Broker_Detail Crc32c
begin

text \<open>
  Kafka record batches as the broker reads and rewrites them: the big-endian accessors,
  \<^verbatim>\<open>has_idempotent_record_batch\<close> and \<^verbatim>\<open>rewrite_record_batch_offsets\<close> of
  \<^verbatim>\<open>src/kafka_protocol.cpp\<close>, and \<^verbatim>\<open>estimate_record_count\<close> of
  \<^verbatim>\<open>src/partition_log_shard.cpp\<close>. An access outside the vector is the value
  \<open>OutOfBounds\<close>. On a sequence of well-formed batches the rewrite assigns consecutive
  offsets and valid checksums and keeps everything else, and the count of the log agrees
  with the offsets the rewrite hands out.
\<close>

section \<open>Accessors\<close>

definition chunk :: "'a list \<Rightarrow> nat \<Rightarrow> nat \<Rightarrow> 'a list" where
  "chunk xs pos n = take n (drop pos xs)"

definition overwrite :: "'a list \<Rightarrow> nat \<Rightarrow> 'a list \<Rightarrow> 'a list" where
  "overwrite xs pos ys = take pos xs @ ys @ drop (pos + length ys) xs"

definition write_i32_be :: "bytes \<Rightarrow> nat \<Rightarrow> int \<Rightarrow> bytes result" where
  "write_i32_be out pos v =
     (let raw = word_of_int v :: 32 word
      in if pos + 4 \<le> length out
         then Inr (overwrite out pos [ucast (drop_bit 24 raw AND 0xff), ucast (drop_bit 16 raw AND 0xff),
                                      ucast (drop_bit 8 raw AND 0xff), ucast (raw AND 0xff)])
         else Inl OutOfBounds)"

definition write_i64_be :: "bytes \<Rightarrow> nat \<Rightarrow> int \<Rightarrow> bytes result" where
  "write_i64_be out pos v =
     (let raw = word_of_int v :: 64 word
      in if pos + 8 \<le> length out
         then Inr (overwrite out pos
                     (map (\<lambda>shift. ucast (drop_bit shift raw AND 0xff)) [56, 48, 40, 32, 24, 16, 8, 0]))
         else Inl OutOfBounds)"

definition read_i32_be :: "bytes \<Rightarrow> nat \<Rightarrow> int result" where
  "read_i32_be xs pos =
     (if pos + 4 \<le> length xs then Inr (decode_frame_size (chunk xs pos 4)) else Inl OutOfBounds)"

definition read_i64_be_at :: "bytes \<Rightarrow> nat \<Rightarrow> int result" where
  "read_i64_be_at xs pos =
     (if pos + 8 \<le> length xs
      then Inr (sint (fold (\<lambda>x raw. push_bit 8 raw OR ucast x) (chunk xs pos 8) (0 :: 64 word)))
      else Inl OutOfBounds)"

definition read_i16_be_at :: "bytes \<Rightarrow> nat \<Rightarrow> int result" where
  "read_i16_be_at xs pos =
     (if pos + 2 \<le> length xs
      then Inr (sint (push_bit 8 (ucast (xs ! pos)) OR ucast (xs ! (pos + 1)) :: 16 word))
      else Inl OutOfBounds)"

text \<open>Subtraction of \<^verbatim>\<open>std::size_t\<close> values, which wraps.\<close>

definition size_sub :: "nat \<Rightarrow> nat \<Rightarrow> nat" where
  "size_sub a b = (if b \<le> a then a - b else 2 ^ 64 + a - b)"

text \<open>\<^verbatim>\<open>crc32c(records.data() + pos, size)\<close>\<close>

definition crc32c_at :: "bytes \<Rightarrow> nat \<Rightarrow> nat \<Rightarrow> 32 word result" where
  "crc32c_at records pos n =
     (if pos + n \<le> length records then Inr (crc32c (chunk records pos n)) else Inl OutOfBounds)"

section \<open>The three walks over a record set\<close>

function has_idempotent_loop :: "bytes \<Rightarrow> nat \<Rightarrow> bool result" where
  "has_idempotent_loop records pos =
     (if pos + 61 > length records then Inr False
      else rbind (read_i32_be records (pos + 8)) (\<lambda>batch_length.
        if batch_length \<le> 0 then Inr False
        else if pos + (nat batch_length + 12) > length records then Inr False
        else rbind (read_i64_be_at records (pos + 43)) (\<lambda>producer_id.
             rbind (read_i16_be_at records (pos + 51)) (\<lambda>producer_epoch.
             rbind (read_i32_be records (pos + 53)) (\<lambda>base_sequence.
             if producer_id \<noteq> - 1 \<or> producer_epoch \<noteq> - 1 \<or> base_sequence \<noteq> - 1 then Inr True
             else has_idempotent_loop records (pos + (nat batch_length + 12)))))))"
  by pat_completeness auto
termination
  by (relation "measure (\<lambda>(records, pos). length records - pos)") auto

definition has_idempotent_record_batch :: "bytes \<Rightarrow> bool result" where
  "has_idempotent_record_batch records = has_idempotent_loop records 0"

lemma length_overwrite: "pos + length ys \<le> length xs \<Longrightarrow> length (overwrite xs pos ys) = length xs"
  by (simp add: overwrite_def)

lemma write_be_length:
  "write_i32_be out pos v = Inr out' \<Longrightarrow> length out' = length out"
  "write_i64_be out pos v = Inr out' \<Longrightarrow> length out' = length out"
  by (auto simp: write_i32_be_def write_i64_be_def Let_def length_overwrite split: if_splits)

function rewrite_loop :: "bytes \<Rightarrow> nat \<Rightarrow> int \<Rightarrow> bytes result" where
  "rewrite_loop records pos next_base =
     (if pos + 57 > length records then Inr records
      else rbind (read_i32_be records (pos + 8)) (\<lambda>batch_length.
        if batch_length \<le> 0 then Inr records
        else let batch_size = nat batch_length + 12 in
          if pos + batch_size > length records then Inr records
          else rbind (write_i64_be records pos next_base) (\<lambda>records1.
               rbind (crc32c_at records1 (pos + 21) (size_sub batch_size 21)) (\<lambda>crc.
               rbind (write_i32_be records1 (pos + 17) (cast_i32 (uint crc))) (\<lambda>records2.
               rbind (read_i32_be records2 (pos + 23)) (\<lambda>last_offset_delta.
               rewrite_loop records2 (pos + batch_size) (next_base + max 1 (last_offset_delta + 1))))))))"
  by pat_completeness auto
termination
  by (relation "measure (\<lambda>(records, pos, next_base). length records - pos)")
    (auto simp: write_be_length dest!: write_be_length)

definition rewrite_record_batch_offsets :: "bytes \<Rightarrow> int \<Rightarrow> bytes result" where
  "rewrite_record_batch_offsets records base_offset = rewrite_loop records 0 base_offset"

text \<open>Here the batch length is read as an unsigned number.\<close>

definition read_u32_be :: "bytes \<Rightarrow> nat \<Rightarrow> nat" where
  "read_u32_be xs pos =
     unat (push_bit 24 (ucast (xs ! pos)) OR push_bit 16 (ucast (xs ! (pos + 1))) OR
           push_bit 8 (ucast (xs ! (pos + 2))) OR ucast (xs ! (pos + 3)) :: 32 word)"

function estimate_loop :: "bytes \<Rightarrow> nat \<Rightarrow> int \<Rightarrow> int" where
  "estimate_loop records pos acc =
     (if pos + 27 > length records then acc
      else let batch_length = read_u32_be records (pos + 8);
               total_batch_size = batch_length + 12
           in if batch_length = 0 \<or> pos + total_batch_size > length records then acc
              else estimate_loop records (pos + total_batch_size)
                     (acc + max 1 (decode_frame_size (chunk records (pos + 23) 4) + 1)))"
  by pat_completeness auto
termination
  by (relation "measure (\<lambda>(records, pos, acc). length records - pos)") auto

definition estimate_record_count :: "bytes \<Rightarrow> int" where
  "estimate_record_count records =
     (if records = [] then 0
      else let acc = estimate_loop records 0 0 in if acc = 0 then 1 else acc)"

declare has_idempotent_loop.simps [simp del] rewrite_loop.simps [simp del] estimate_loop.simps [simp del]

section \<open>Well-formed batches\<close>

text \<open>
  A batch is at least its 61-byte header long and carries its own length, counted from byte
  12, at byte 8. The last offset delta at byte 23 tells how many offsets it takes.
\<close>

definition batch_ok :: "bytes \<Rightarrow> bool" where
  "batch_ok b \<longleftrightarrow> 61 \<le> length b \<and> i32 (int (length b) - 12) \<and> chunk b 8 4 = be32 (int (length b) - 12)"

definition batch_count :: "bytes \<Rightarrow> int" where
  "batch_count b = max 1 (decode_frame_size (chunk b 23 4) + 1)"

text \<open>A batch placed at an offset: base offset and checksum replaced, the rest kept.\<close>

definition set_batch :: "bytes \<Rightarrow> int \<Rightarrow> bytes" where
  "set_batch b off = be64 off @ chunk b 8 9 @ be32 (uint (crc32c (drop 21 b))) @ drop 21 b"

fun place_batches :: "bytes list \<Rightarrow> int \<Rightarrow> bytes list" where
  "place_batches [] off = []"
| "place_batches (b # bs) off = set_batch b off # place_batches bs (off + batch_count b)"

definition batch_idempotent :: "bytes \<Rightarrow> bool" where
  "batch_idempotent b \<longleftrightarrow>
     read_i64_be_at b 43 \<noteq> Inr (- 1) \<or> read_i16_be_at b 51 \<noteq> Inr (- 1) \<or> read_i32_be b 53 \<noteq> Inr (- 1)"

section \<open>Access inside a larger record set\<close>

lemma chunk_mid:
  "k + n \<le> length b \<Longrightarrow> chunk (xs @ b @ rest) (length xs + k) n = chunk b k n"
  by (simp add: chunk_def)

lemma overwrite_mid:
  "k + length ys \<le> length b \<Longrightarrow> overwrite (xs @ b @ rest) (length xs + k) ys = xs @ overwrite b k ys @ rest"
  by (simp add: overwrite_def)

lemma length_chunk: "k + n \<le> length b \<Longrightarrow> length (chunk b k n) = n"
  by (simp add: chunk_def)

lemma nth_mid: "k < length b \<Longrightarrow> (xs @ b @ rest) ! (length xs + k) = b ! k"
  by (simp add: nth_append)

lemma read_i32_be_mid:
  "k + 4 \<le> length b \<Longrightarrow> read_i32_be (xs @ b @ rest) (length xs + k) = Inr (decode_frame_size (chunk b k 4))"
  by (simp add: read_i32_be_def chunk_mid)

lemma write_i64_be_mid:
  "k + 8 \<le> length b \<Longrightarrow> write_i64_be (xs @ b @ rest) (length xs + k) v = Inr (xs @ overwrite b k (be64 v) @ rest)"
  by (simp add: write_i64_be_def overwrite_mid be64_def Let_def)

lemma write_i32_be_mid:
  "k + 4 \<le> length b \<Longrightarrow> write_i32_be (xs @ b @ rest) (length xs + k) v = Inr (xs @ overwrite b k (be32 v) @ rest)"
  by (simp add: write_i32_be_def overwrite_mid be32_def Let_def)

lemma crc32c_at_mid:
  "k + n \<le> length b \<Longrightarrow> crc32c_at (xs @ b @ rest) (length xs + k) n = Inr (crc32c (chunk b k n))"
  by (simp add: crc32c_at_def chunk_mid)

lemma unat_sint: "0 \<le> sint w \<Longrightarrow> unat w = nat (sint (w :: 32 word))"
proof -
  assume "0 \<le> sint w"
  moreover have "sint w < 2 ^ 32" using i32_sint [of w] by (simp add: i32_def)
  moreover have "uint w = sint w mod 2 ^ 32"
    using uint_word_of_int [where ?'a = 32, of "sint w"] by simp
  ultimately show ?thesis by (simp flip: nat_uint_eq)
qed

lemma chunk4: "pos + 4 \<le> length xs \<Longrightarrow> chunk xs pos 4 = [xs ! pos, xs ! (pos + 1), xs ! (pos + 2), xs ! (pos + 3)]"
  by (rule nth_equalityI) (auto simp: chunk_def less_Suc_eq numeral_eq_Suc)

lemma read_u32_be_mid:
  assumes "k + 4 \<le> length b" and "0 \<le> decode_frame_size (chunk b k 4)"
  shows "read_u32_be (xs @ b @ rest) (length xs + k) = nat (decode_frame_size (chunk b k 4))"
proof -
  have "(xs @ b @ rest) ! (length xs + k + i) = b ! (k + i)" if "i < 4" for i
    using nth_mid [of "k + i" b xs rest] that assms(1) by (simp add: add.assoc)
  from this [of 0] this [of 1] this [of 2] this [of 3]
  have "read_u32_be (xs @ b @ rest) (length xs + k) = read_u32_be b k"
    unfolding read_u32_be_def by simp
  also have "\<dots> = nat (decode_frame_size (chunk b k 4))"
    using assms(2)
    by (simp add: read_u32_be_def decode_frame_size_def chunk4 [OF assms(1)] unat_sint
        numeral_3_eq_3 numeral_2_eq_2)
  finally show ?thesis .
qed

section \<open>One batch of each walk\<close>

lemma batch_length_field: "batch_ok b \<Longrightarrow> decode_frame_size (chunk b 8 4) = int (length b) - 12"
  by (simp add: batch_ok_def decode_frame_size_be32)

lemma length_set_batch: "batch_ok b \<Longrightarrow> length (set_batch b off) = length b"
  by (simp add: batch_ok_def set_batch_def length_chunk)

lemma set_batch_eq:
  assumes "61 \<le> length b"
  shows "overwrite (overwrite b 0 (be64 off)) 17 (be32 (cast_i32 (uint (crc32c (drop 21 b))))) = set_batch b off"
proof -
  have "be32 (cast_i32 v) = be32 v" for v by (simp add: be32_def cast_i32_def)
  with assms show ?thesis
    by (simp add: overwrite_def set_batch_def chunk_def take_drop)
qed

lemma set_batch_fields:
  assumes "batch_ok b"
  shows "chunk (set_batch b off) 8 4 = chunk b 8 4" and "drop 21 (set_batch b off) = drop 21 b"
    and "chunk (set_batch b off) 0 8 = be64 off" and "chunk (set_batch b off) 23 4 = chunk b 23 4"
    and "chunk (set_batch b off) 17 4 = be32 (uint (crc32c (drop 21 b)))"
    and "chunk (set_batch b off) 8 9 = chunk b 8 9"
  using assms by (auto simp: batch_ok_def set_batch_def chunk_def min_def)

lemma batch_ok_set_batch: "batch_ok b \<Longrightarrow> batch_ok (set_batch b off)"
  using set_batch_fields(1) [of b off] length_set_batch [of b off] by (simp add: batch_ok_def)

lemma batch_count_set_batch: "batch_ok b \<Longrightarrow> batch_count (set_batch b off) = batch_count b"
  using set_batch_fields(4) [of b off] by (simp add: batch_count_def)

lemma rewrite_step:
  assumes "batch_ok b"
  shows "rewrite_loop (xs @ b @ rest) (length xs) off =
         rewrite_loop ((xs @ set_batch b off) @ rest) (length (xs @ set_batch b off)) (off + batch_count b)"
proof -
  from assms have len: "61 \<le> length b" by (simp add: batch_ok_def)
  let ?b1 = "overwrite b 0 (be64 off)"
  have b1: "length ?b1 = length b" "chunk ?b1 21 (length b - 21) = drop 21 b"
    using len by (simp_all add: length_overwrite overwrite_def chunk_def)
  have w64: "write_i64_be (xs @ b @ rest) (length xs) off = Inr (xs @ ?b1 @ rest)"
    using write_i64_be_mid [of 0 b xs rest off] len by simp
  note mid = read_i32_be_mid [of _ b xs rest] w64 crc32c_at_mid [of _ _ ?b1 xs rest]
    write_i32_be_mid [of _ ?b1 xs rest] read_i32_be_mid [of _ "set_batch b off" xs rest]
  have size: "nat (int (length b) - 12) + 12 = length b" "0 < int (length b) - 12"
    using len by simp_all
  show ?thesis
    using len size
    by (subst rewrite_loop.simps)
      (simp add: mid b1 batch_length_field [OF assms] Let_def size_sub_def set_batch_eq [OF len]
        length_set_batch [OF assms] set_batch_fields(4) [OF assms] batch_count_def)
qed

lemma rewrite_batches:
  "\<forall>b\<in>set bs. batch_ok b \<Longrightarrow>
   rewrite_loop (xs @ concat bs) (length xs) off = Inr (xs @ concat (place_batches bs off))"
proof (induction bs arbitrary: xs off)
  case Nil
  then show ?case by (subst rewrite_loop.simps) simp
next
  case (Cons b bs)
  then have "rewrite_loop (xs @ concat (b # bs)) (length xs) off =
      rewrite_loop ((xs @ set_batch b off) @ concat bs) (length (xs @ set_batch b off)) (off + batch_count b)"
    using rewrite_step [of b xs "concat bs" off] by simp
  also have "\<dots> = Inr ((xs @ set_batch b off) @ concat (place_batches bs (off + batch_count b)))"
    by (rule Cons.IH) (use Cons.prems in simp)
  finally show ?case by simp
qed

lemma estimate_step:
  assumes "batch_ok b"
  shows "estimate_loop (xs @ b @ rest) (length xs) acc =
         estimate_loop ((xs @ b) @ rest) (length (xs @ b)) (acc + batch_count b)"
proof -
  from assms have len: "61 \<le> length b" by (simp add: batch_ok_def)
  have "read_u32_be (xs @ b @ rest) (length xs + 8) = length b - 12"
    using len read_u32_be_mid [of 8 b xs rest] batch_length_field [OF assms]
    by (simp add: nat_diff_distrib')
  moreover have "chunk (xs @ b @ rest) (length xs + 23) 4 = chunk b 23 4"
    using len by (intro chunk_mid) simp
  ultimately show ?thesis
    using len by (subst estimate_loop.simps) (simp add: Let_def batch_count_def)
qed

lemma estimate_batches:
  "\<forall>b\<in>set bs. batch_ok b \<Longrightarrow>
   estimate_loop (xs @ concat bs) (length xs) acc = acc + sum_list (map batch_count bs)"
proof (induction bs arbitrary: xs acc)
  case Nil
  then show ?case by (subst estimate_loop.simps) simp
next
  case (Cons b bs)
  then have "estimate_loop (xs @ concat (b # bs)) (length xs) acc =
      estimate_loop ((xs @ b) @ concat bs) (length (xs @ b)) (acc + batch_count b)"
    using estimate_step [of b xs "concat bs" acc] by simp
  also have "\<dots> = acc + batch_count b + sum_list (map batch_count bs)"
    by (rule Cons.IH) (use Cons.prems in simp)
  finally show ?case by simp
qed

lemma batch_count_pos: "1 \<le> batch_count b"
  by (simp add: batch_count_def)

lemma sum_batch_count_pos: "bs \<noteq> [] \<Longrightarrow> 1 \<le> sum_list (map batch_count bs)"
proof (cases bs)
  case (Cons b bs')
  have "0 \<le> sum_list (map batch_count bs')"
    by (rule sum_list_nonneg) (use batch_count_pos in \<open>auto simp: order_trans [OF zero_le_one]\<close>)
  with batch_count_pos [of b] Cons show ?thesis by simp
qed simp

lemma estimate_record_count_batches:
  assumes "\<forall>b\<in>set bs. batch_ok b" "bs \<noteq> []"
  shows "estimate_record_count (concat bs) = sum_list (map batch_count bs)"
proof -
  have "concat bs \<noteq> []"
    using assms by (cases bs) (auto simp: batch_ok_def)
  then show ?thesis
    using estimate_batches [OF assms(1), of "[]" 0] sum_batch_count_pos [OF assms(2)]
    by (simp add: estimate_record_count_def)
qed

lemma estimate_loop_mono: "acc \<le> estimate_loop records pos acc"
proof (induction records pos acc rule: estimate_loop.induct)
  case (1 records pos acc)
  show ?case
  proof (cases "pos + 27 > length records \<or> read_u32_be records (pos + 8) = 0 \<or>
      pos + (read_u32_be records (pos + 8) + 12) > length records")
    case True
    then show ?thesis by (subst estimate_loop.simps) (auto simp: Let_def)
  next
    case False
    with 1 have "acc + max 1 (decode_frame_size (chunk records (pos + 23) 4) + 1) \<le>
        estimate_loop records (pos + (read_u32_be records (pos + 8) + 12))
          (acc + max 1 (decode_frame_size (chunk records (pos + 23) 4) + 1))"
      by (metis not_less)
    with False show ?thesis by (subst estimate_loop.simps) (simp add: Let_def)
  qed
qed

lemma estimate_record_count_nonneg: "0 \<le> estimate_record_count records"
  and estimate_record_count_zero: "estimate_record_count records = 0 \<longleftrightarrow> records = []"
  using estimate_loop_mono [of 0 records 0]
  by (auto simp: estimate_record_count_def Let_def)

lemma place_batches_ok:
  "\<forall>b\<in>set bs. batch_ok b \<Longrightarrow> \<forall>b\<in>set (place_batches bs off). batch_ok b"
  "\<forall>b\<in>set bs. batch_ok b \<Longrightarrow> map batch_count (place_batches bs off) = map batch_count bs"
  "\<forall>b\<in>set bs. batch_ok b \<Longrightarrow> length (concat (place_batches bs off)) = length (concat bs)"
  by (induction bs arbitrary: off)
    (simp_all add: batch_ok_set_batch batch_count_set_batch length_set_batch)

lemma place_batches_nth:
  "i < length bs \<Longrightarrow>
   place_batches bs off ! i = set_batch (bs ! i) (off + sum_list (map batch_count (take i bs)))"
proof (induction bs arbitrary: i off)
  case Nil
  then show ?case by simp
next
  case (Cons b bs)
  then show ?case by (cases i) (simp_all add: add.assoc)
qed

lemma length_place_batches [simp]: "length (place_batches bs off) = length bs"
  by (induction bs arbitrary: off) simp_all

lemma idempotent_fields_mid:
  assumes "61 \<le> length b"
  shows "read_i64_be_at (xs @ b @ rest) (length xs + 43) = read_i64_be_at b 43"
    and "read_i16_be_at (xs @ b @ rest) (length xs + 51) = read_i16_be_at b 51"
    and "read_i32_be (xs @ b @ rest) (length xs + 53) = read_i32_be b 53"
proof -
  have n: "(xs @ b @ rest) ! (length xs + 51) = b ! 51" "(xs @ b @ rest) ! (length xs + 51 + 1) = b ! (51 + 1)"
    using assms nth_mid [of 51 b xs rest] nth_mid [of "51 + 1" b xs rest] by (simp_all only: add.assoc)
  show "read_i16_be_at (xs @ b @ rest) (length xs + 51) = read_i16_be_at b 51"
    using assms by (simp only: read_i16_be_at_def n) simp
qed (use assms in \<open>simp_all add: read_i64_be_at_def read_i32_be_def chunk_mid\<close>)

lemma idempotent_step:
  assumes "batch_ok b"
  shows "has_idempotent_loop (xs @ b @ rest) (length xs) =
         (if batch_idempotent b then Inr True else has_idempotent_loop ((xs @ b) @ rest) (length (xs @ b)))"
proof -
  from assms have len: "61 \<le> length b" by (simp add: batch_ok_def)
  then obtain i e q where "read_i64_be_at b 43 = Inr i" "read_i16_be_at b 51 = Inr e" "read_i32_be b 53 = Inr q"
    by (simp add: read_i64_be_at_def read_i16_be_at_def read_i32_be_def)
  moreover have "nat (int (length b) - 12) + 12 = length b" "0 < int (length b) - 12"
    using len by simp_all
  ultimately show ?thesis
    using len
    by (subst has_idempotent_loop.simps)
      (simp add: read_i32_be_mid [of 8] batch_length_field [OF assms] idempotent_fields_mid [OF len]
        batch_idempotent_def)
qed

lemma idempotent_batches:
  "\<forall>b\<in>set bs. batch_ok b \<Longrightarrow>
   has_idempotent_loop (xs @ concat bs) (length xs) = Inr (\<exists>b\<in>set bs. batch_idempotent b)"
proof (induction bs arbitrary: xs)
  case Nil
  then show ?case by (subst has_idempotent_loop.simps) simp
next
  case (Cons b bs)
  have "has_idempotent_loop ((xs @ b) @ concat bs) (length (xs @ b)) = Inr (\<exists>b\<in>set bs. batch_idempotent b)"
    by (rule Cons.IH) (use Cons.prems in simp)
  with Cons.prems show ?case
    using idempotent_step [of b xs "concat bs"] by simp
qed

lemma has_idempotent_total: "\<exists>r. has_idempotent_loop records pos = Inr r"
proof (induction records pos rule: has_idempotent_loop.induct)
  case (1 records pos)
  show ?case
  proof (cases "pos + 61 > length records")
    case True
    then show ?thesis by (subst has_idempotent_loop.simps) auto
  next
    case False
    then have "read_i32_be records (pos + 8) = Inr (decode_frame_size (chunk records (pos + 8) 4))"
      by (simp add: read_i32_be_def)
    moreover obtain i e q where
      "read_i64_be_at records (pos + 43) = Inr i" "read_i16_be_at records (pos + 51) = Inr e"
      "read_i32_be records (pos + 53) = Inr q"
      using False by (simp add: read_i64_be_at_def read_i16_be_at_def read_i32_be_def)
    ultimately show ?thesis
      using False 1 by (subst has_idempotent_loop.simps) (auto simp: not_less)
  qed
qed

section \<open>Properties\<close>

text \<open>
  C25: rewriting a record set of well-formed batches gives the batches consecutive base offsets
  from the one requested, each advanced by the records of the batches before it, stores the
  CRC-32C of each batch body, and keeps every other byte; the log then counts as many offsets
  as the rewrite handed out.
\<close>

theorem rewrite_assigns_offsets:
  assumes "\<forall>b\<in>set bs. batch_ok b" and "bs \<noteq> []"
  shows "\<exists>out. rewrite_record_batch_offsets (concat bs) base = Inr (concat out) \<and> length out = length bs \<and>
    (\<forall>i<length bs.
       chunk (out ! i) 0 8 = be64 (base + sum_list (map batch_count (take i bs))) \<and>
       chunk (out ! i) 17 4 = be32 (uint (crc32c (drop 21 (out ! i)))) \<and>
       chunk (out ! i) 8 9 = chunk (bs ! i) 8 9 \<and> drop 21 (out ! i) = drop 21 (bs ! i)) \<and>
    estimate_record_count (concat out) = sum_list (map batch_count bs)"
proof (intro exI conjI)
  show "rewrite_record_batch_offsets (concat bs) base = Inr (concat (place_batches bs base))"
    using rewrite_batches [OF assms(1), of "[]" base] by (simp add: rewrite_record_batch_offsets_def)
  show "\<forall>i<length bs.
       chunk (place_batches bs base ! i) 0 8 = be64 (base + sum_list (map batch_count (take i bs))) \<and>
       chunk (place_batches bs base ! i) 17 4 = be32 (uint (crc32c (drop 21 (place_batches bs base ! i)))) \<and>
       chunk (place_batches bs base ! i) 8 9 = chunk (bs ! i) 8 9 \<and>
       drop 21 (place_batches bs base ! i) = drop 21 (bs ! i)"
    using assms(1) by (auto simp: place_batches_nth set_batch_fields)
  show "estimate_record_count (concat (place_batches bs base)) = sum_list (map batch_count bs)"
    using estimate_record_count_batches [OF place_batches_ok(1) [OF assms(1)]] assms
    by (metis place_batches_ok(2) length_place_batches length_0_conv)
qed simp

text \<open>A batch with the given last offset delta and an empty body.\<close>

definition sample_batch :: "int \<Rightarrow> bytes" where
  "sample_batch delta =
     be64 0 @ be32 49 @ be32 0 @ [2] @ be32 0 @ be16 0 @ be32 delta @ be64 0 @ be64 0 @ be64 (- 1) @
     be16 (- 1) @ be32 (- 1) @ be32 0"

lemma sample_batch_ok: "batch_ok (sample_batch delta)"
  by (simp add: batch_ok_def sample_batch_def chunk_def i32_def)

lemma sample_batch_count: "i32 delta \<Longrightarrow> 0 \<le> delta \<Longrightarrow> batch_count (sample_batch delta) = delta + 1"
  by (simp add: batch_count_def sample_batch_def chunk_def decode_frame_size_be32)

theorem rewrite_assigns_offsets_witness:
  "\<exists>out. rewrite_record_batch_offsets (concat [sample_batch 4, sample_batch 0]) 100 = Inr (concat out) \<and>
     length out = 2 \<and> chunk (out ! 1) 0 8 = be64 105 \<and> estimate_record_count (concat out) = 6"
proof -
  have "\<forall>b\<in>set [sample_batch 4, sample_batch 0]. batch_ok b" by (simp add: sample_batch_ok)
  from rewrite_assigns_offsets [OF this, of 100] obtain out where
    "rewrite_record_batch_offsets (concat [sample_batch 4, sample_batch 0]) 100 = Inr (concat out)"
    "length out = 2" "\<forall>i<2. chunk (out ! i) 0 8 =
       be64 (100 + sum_list (map batch_count (take i [sample_batch 4, sample_batch 0])))"
    "estimate_record_count (concat out) = 6"
    by (auto simp: sample_batch_count i32_def numeral_2_eq_2)
  then show ?thesis
    by (intro exI [of _ out]) (simp add: sample_batch_count i32_def)
qed

text \<open>
  C26: the idempotent-producer check never reads outside the records, whatever they hold, and on
  well-formed batches it answers whether some batch carries a producer id, a producer epoch or
  a base sequence other than \<open>- 1\<close>.
\<close>

theorem idempotent_check_exact:
  "(\<exists>r. has_idempotent_record_batch records = Inr r) \<and>
   ((\<forall>b\<in>set bs. batch_ok b) \<longrightarrow>
      has_idempotent_record_batch (concat bs) = Inr (\<exists>b\<in>set bs. batch_idempotent b))"
  using has_idempotent_total [of records 0] idempotent_batches [of bs "[]"]
  by (simp add: has_idempotent_record_batch_def)

theorem idempotent_check_exact_witness:
  "has_idempotent_record_batch (concat [sample_batch 0]) = Inr (batch_idempotent (sample_batch 0))"
  using idempotent_check_exact [of "[]" "[sample_batch 0]"] sample_batch_ok by simp

text \<open>
  A record set whose first batch claims a length of at most eight bytes makes the rewrite take
  a checksum over a wrapped-around size, outside the vector.
\<close>

lemma rewrite_reads_out_of_bounds:
  "rewrite_record_batch_offsets (replicate 8 0 @ be32 1 @ replicate 45 0) base = Inl OutOfBounds"
proof -
  let ?r = "replicate 8 0 @ be32 1 @ replicate 45 0 :: bytes"
  have "read_i32_be ?r (0 + 8) = Inr 1"
    by (simp add: read_i32_be_def chunk_def decode_frame_size_be32 i32_def)
  moreover have "crc32c_at xs 21 (size_sub 13 21) = Inl OutOfBounds" if "length xs = 57" for xs
    using that by (simp add: crc32c_at_def size_sub_def)
  moreover have "\<exists>xs. write_i64_be ?r 0 base = Inr xs \<and> length xs = 57"
    by (simp add: write_i64_be_def Let_def length_overwrite)
  ultimately show ?thesis
    unfolding rewrite_record_batch_offsets_def
    by (subst rewrite_loop.simps) auto
qed

end
