(* ===== verification/Log_Format.thy ===== *)
theory Log_Format
  imports Record_Batch
begin

text \<open>
  The on-disk format of a partition log in \<^verbatim>\<open>src/partition_log_shard.cpp\<close>: log frames, index
  entries, and files as byte lists with the reads and writes the code issues. A frame and an
  index entry are read back from the bytes that were written, wherever they lie in a file.
\<close>

section \<open>Records of the log\<close>

record RecordSet =
  rs_base_offset :: int
  rs_last_offset :: int
  rs_bytes :: bytes

record IndexEntry =
  ie_base_offset :: int
  ie_last_offset :: int
  ie_segment_base :: int
  ie_segment_position :: nat
  ie_record_bytes :: int

record SegmentInfo =
  si_base_offset :: int
  si_last_offset :: int
  si_write_position :: nat

section \<open>Files\<close>

text \<open>
  \<^verbatim>\<open>dma_read\<close> returns the bytes there are, fewer than requested at the end of the file;
  \<^verbatim>\<open>dma_write\<close> overwrites in place and extends the file, filling a gap with zeros.
\<close>

definition dma_read :: "bytes \<Rightarrow> nat \<Rightarrow> nat \<Rightarrow> bytes" where
  "dma_read f pos n = chunk f pos n"

definition dma_write :: "bytes \<Rightarrow> nat \<Rightarrow> bytes \<Rightarrow> bytes" where
  "dma_write f pos bs = take pos (f @ replicate (pos - length f) 0) @ bs @ drop (pos + length bs) f"

section \<open>Log frames\<close>

definition frame_size_of :: "nat \<Rightarrow> nat \<Rightarrow> nat" where
  "frame_size_of alignment record_bytes = round_up (20 + record_bytes) alignment"

text \<open>The buffer that \<^verbatim>\<open>write_record_set\<close> fills and writes.\<close>

definition log_frame :: "nat \<Rightarrow> RecordSet \<Rightarrow> bytes" where
  "log_frame alignment rs =
     (let frame_size = frame_size_of alignment (length (rs_bytes rs));
          body = kLogMagic @ put_i64 (rs_base_offset rs) @
                 put_i32 (cast_i32 (int (length (rs_bytes rs)))) @ rs_bytes rs
      in body @ replicate (frame_size - length body) 0)"

text \<open>The three header comparisons on a frame at the start of a buffer.\<close>

definition frame_header_is :: "bytes \<Rightarrow> int \<Rightarrow> int \<Rightarrow> bool" where
  "frame_header_is buf base_offset record_bytes \<longleftrightarrow>
     take 8 buf = kLogMagic \<and> get_i64 (drop 8 buf) = base_offset \<and> get_i32 (drop 16 buf) = record_bytes"

section \<open>Index entries\<close>

definition encode_index_entry :: "nat \<Rightarrow> IndexEntry \<Rightarrow> bytes" where
  "encode_index_entry index_entry_size e =
     (let body = kIndexMagic @ put_i64 (ie_base_offset e) @ put_i64 (ie_last_offset e) @
                 put_i64 (ie_segment_base e) @ put_i64 (cast_i64 (int (ie_segment_position e))) @
                 put_i32 (ie_record_bytes e)
      in body @ replicate (index_entry_size - length body) 0)"

definition decode_index_entry :: "bytes \<Rightarrow> IndexEntry option" where
  "decode_index_entry raw =
     (if take 8 raw \<noteq> kIndexMagic then None
      else let entry = \<lparr>ie_base_offset = get_i64 (drop 8 raw), ie_last_offset = get_i64 (drop 16 raw),
                 ie_segment_base = get_i64 (drop 24 raw),
                 ie_segment_position = nat (get_i64 (drop 32 raw) mod 2 ^ 64),
                 ie_record_bytes = get_i32 (drop 40 raw)\<rparr>
           in if ie_record_bytes entry \<le> 0 \<or> ie_last_offset entry < ie_base_offset entry then None
              else Some entry)"

text \<open>The entries an index can hold: fields in range, at least one record and one byte.\<close>

definition index_entry_ok :: "IndexEntry \<Rightarrow> bool" where
  "index_entry_ok e \<longleftrightarrow>
     i64 (ie_base_offset e) \<and> i64 (ie_last_offset e) \<and> i64 (ie_segment_base e) \<and>
     ie_segment_position e < 2 ^ 63 \<and> i32 (ie_record_bytes e) \<and>
     0 < ie_record_bytes e \<and> ie_base_offset e \<le> ie_last_offset e"

section \<open>Reading back what was written\<close>

lemma length_magic [simp]: "length kLogMagic = 8" "length kIndexMagic = 8"
  by (simp_all add: kLogMagic_def kIndexMagic_def)

lemma length_dma_write: "length (dma_write f pos bs) = max (length f) (pos + length bs)"
  by (simp add: dma_write_def)

lemma dma_read_write_same: "n = length bs \<Longrightarrow> dma_read (dma_write f pos bs) pos n = bs"
  by (simp add: dma_read_def dma_write_def chunk_def)

lemma dma_read_write_before:
  assumes "p + n \<le> pos" "p + n \<le> length f"
  shows "dma_read (dma_write f pos bs) p n = dma_read f p n"
  using assms by (simp add: dma_read_def dma_write_def chunk_def drop_take min_def)

lemma dma_write_end: "pos = length f \<Longrightarrow> dma_write f pos bs = f @ bs"
  by (simp add: dma_write_def)

lemma dma_read_mid: "n \<le> length bs \<Longrightarrow> dma_read (xs @ bs @ ys) (length xs) n = take n bs"
  by (simp add: dma_read_def chunk_def)

lemma frame_size_ge: "0 < a \<Longrightarrow> 20 + n \<le> frame_size_of a n"
  unfolding frame_size_of_def by (rule round_up_ge)

lemma frame_size_pos: "0 < a \<Longrightarrow> 0 < frame_size_of a n"
  using frame_size_ge [of a n] by simp

lemma frame_size_alignment: "0 < a \<Longrightarrow> a \<le> frame_size_of a n"
  using frame_size_pos [of a n] round_up_dvd [of a "20 + n"]
  by (simp add: frame_size_of_def dvd_imp_le)

lemma length_log_frame:
  "0 < a \<Longrightarrow> length (log_frame a rs) = frame_size_of a (length (rs_bytes rs))"
  using frame_size_ge [of a "length (rs_bytes rs)"] by (simp add: log_frame_def Let_def)

lemma log_frame_header:
  assumes "i64 (rs_base_offset rs)" "i32 (int (length (rs_bytes rs)))"
  shows "frame_header_is (log_frame a rs @ rest) (rs_base_offset rs) (int (length (rs_bytes rs)))"
proof -
  have "drop 16 (log_frame a rs @ rest) = put_i32 (int (length (rs_bytes rs))) @
      rs_bytes rs @ replicate (frame_size_of a (length (rs_bytes rs)) - (20 + length (rs_bytes rs))) 0 @ rest"
    using assms by (simp add: log_frame_def Let_def)
  with assms show ?thesis
    by (simp add: frame_header_is_def) (simp add: log_frame_def Let_def)
qed

lemma log_frame_payload: "chunk (log_frame a rs @ rest) 20 (length (rs_bytes rs)) = rs_bytes rs"
  by (simp add: chunk_def log_frame_def Let_def)

lemma index_entry_round_trip:
  assumes "index_entry_ok e"
  shows "decode_index_entry (encode_index_entry n e @ rest) = Some e"
proof -
  from assms have pos: "i64 (int (ie_segment_position e))" by (simp add: index_entry_ok_def i64_def)
  define buf where "buf = encode_index_entry n e @ rest"
  have buf: "buf = kIndexMagic @ put_i64 (ie_base_offset e) @ put_i64 (ie_last_offset e) @
      put_i64 (ie_segment_base e) @ put_i64 (int (ie_segment_position e)) @
      put_i32 (ie_record_bytes e) @ replicate (n - 44) 0 @ rest"
    using pos by (simp add: buf_def encode_index_entry_def Let_def)
  have "take 8 buf = kIndexMagic" "get_i64 (drop 8 buf) = ie_base_offset e"
    "get_i64 (drop 16 buf) = ie_last_offset e" "get_i64 (drop 24 buf) = ie_segment_base e"
    "get_i64 (drop 32 buf) = int (ie_segment_position e)" "get_i32 (drop 40 buf) = ie_record_bytes e"
    using assms pos by (simp_all add: buf index_entry_ok_def)
  with assms have "decode_index_entry buf = Some e"
    by (simp add: decode_index_entry_def index_entry_ok_def)
  then show ?thesis by (simp add: buf_def)
qed

lemma length_encode_index_entry: "44 \<le> n \<Longrightarrow> length (encode_index_entry n e) = n"
  by (simp add: encode_index_entry_def Let_def)

end
