(* ===== verification/Api.thy ===== *)
theory Api
  imports Wire_Format
begin

text \<open>
  The API table of \<^verbatim>\<open>src/protocol/api.cpp\<close>, the request and response headers of
  \<^verbatim>\<open>src/protocol/header.cpp\<close> and the generated manifest \<^verbatim>\<open>src/generated/kafka_schema.cpp\<close>.
\<close>

section \<open>API keys and error codes\<close>

datatype ApiKey =
    Produce | Fetch | ListOffsets | Metadata | OffsetCommit | OffsetFetch | FindCoordinator | ApiVersions

datatype ErrorCode =
    ErrNone | OffsetOutOfRange | UnknownTopicOrPartition | InvalidRequest | UnsupportedVersion
  | NotLeaderOrFollower | RequestTimedOut | NotEnoughReplicas | RecordListTooLarge | PolicyViolation

fun error_id :: "ErrorCode \<Rightarrow> int" where
  "error_id ErrNone = 0"
| "error_id OffsetOutOfRange = 1"
| "error_id UnknownTopicOrPartition = 3"
| "error_id InvalidRequest = 42"
| "error_id UnsupportedVersion = 35"
| "error_id NotLeaderOrFollower = 6"
| "error_id RequestTimedOut = 7"
| "error_id NotEnoughReplicas = 19"
| "error_id RecordListTooLarge = 18"
| "error_id PolicyViolation = 44"

fun api_id :: "ApiKey \<Rightarrow> int" where
  "api_id Produce = 0"
| "api_id Fetch = 1"
| "api_id ListOffsets = 2"
| "api_id Metadata = 3"
| "api_id OffsetCommit = 8"
| "api_id OffsetFetch = 9"
| "api_id FindCoordinator = 10"
| "api_id ApiVersions = 18"

record ApiInfo =
  info_key :: ApiKey
  info_name :: string
  info_min_version :: int
  info_max_version :: int
  info_flexible_start :: int

definition kApis :: "ApiInfo list" where
  "kApis =
    [\<lparr>info_key = Produce, info_name = ''Produce'', info_min_version = 9, info_max_version = 9, info_flexible_start = 9\<rparr>,
     \<lparr>info_key = Fetch, info_name = ''Fetch'', info_min_version = 12, info_max_version = 12, info_flexible_start = 12\<rparr>,
     \<lparr>info_key = ListOffsets, info_name = ''ListOffsets'', info_min_version = 6, info_max_version = 6, info_flexible_start = 6\<rparr>,
     \<lparr>info_key = Metadata, info_name = ''Metadata'', info_min_version = 9, info_max_version = 9, info_flexible_start = 9\<rparr>,
     \<lparr>info_key = ApiVersions, info_name = ''ApiVersions'', info_min_version = 0, info_max_version = 3, info_flexible_start = 3\<rparr>]"

definition find_info :: "ApiKey \<Rightarrow> ApiInfo option" where
  "find_info key = List.find (\<lambda>info. info_key info = key) kApis"

definition is_known_api :: "int \<Rightarrow> bool" where
  "is_known_api k \<longleftrightarrow> list_ex (\<lambda>info. api_id (info_key info) = k) kApis"

definition api_name :: "ApiKey \<Rightarrow> string" where
  "api_name key = (case find_info key of None \<Rightarrow> ''Unknown'' | Some info \<Rightarrow> info_name info)"

text \<open>\<^verbatim>\<open>static_cast<ApiKey>(id)\<close> for an id that \<^verbatim>\<open>is_known_api\<close> has admitted.\<close>

definition cast_api_key :: "int \<Rightarrow> ApiKey" where
  "cast_api_key k =
     (if k = 0 then Produce else if k = 1 then Fetch else if k = 2 then ListOffsets
      else if k = 3 then Metadata else ApiVersions)"

definition api_key_from_id :: "int \<Rightarrow> ApiKey result" where
  "api_key_from_id k =
     (if \<not> is_known_api k then Inl (InvalidArgument ''unknown Kafka API key'')
      else Inr (cast_api_key k))"

definition supported_api_versions :: "(ApiKey \<times> int \<times> int) list" where
  "supported_api_versions =
     map (\<lambda>info. (info_key info, info_min_version info, info_max_version info)) kApis"

definition is_supported :: "ApiKey \<Rightarrow> int \<Rightarrow> bool" where
  "is_supported key version =
     (case find_info key of
        None \<Rightarrow> False
      | Some info \<Rightarrow> version \<ge> info_min_version info \<and> version \<le> info_max_version info)"

definition is_flexible :: "ApiKey \<Rightarrow> int \<Rightarrow> bool" where
  "is_flexible key version =
     (case find_info key of None \<Rightarrow> False | Some info \<Rightarrow> version \<ge> info_flexible_start info)"

definition fixed_version :: "ApiKey \<Rightarrow> int result" where
  "fixed_version key =
     (case find_info key of
        None \<Rightarrow> Inl (InvalidArgument ''unknown Kafka API key'')
      | Some info \<Rightarrow> Inr (info_max_version info))"

definition request_header_version :: "ApiKey \<Rightarrow> int \<Rightarrow> int" where
  "request_header_version key version = (if is_flexible key version then 2 else 1)"

definition response_header_version :: "ApiKey \<Rightarrow> int \<Rightarrow> int" where
  "response_header_version key version =
     (if key = ApiVersions then 0 else if is_flexible key version then 1 else 0)"

section \<open>The generated manifest\<close>

record FixedKafkaApi =
  fixed_api_key :: int
  fixed_name :: string
  fixed_min_version :: int
  fixed_max_version :: int
  fixed_flexible :: bool

definition fixed_kafka_apis :: "FixedKafkaApi list" where
  "fixed_kafka_apis =
    [\<lparr>fixed_api_key = 18, fixed_name = ''ApiVersions'', fixed_min_version = 0, fixed_max_version = 3, fixed_flexible = True\<rparr>,
     \<lparr>fixed_api_key = 3, fixed_name = ''Metadata'', fixed_min_version = 9, fixed_max_version = 9, fixed_flexible = True\<rparr>,
     \<lparr>fixed_api_key = 0, fixed_name = ''Produce'', fixed_min_version = 3, fixed_max_version = 9, fixed_flexible = True\<rparr>,
     \<lparr>fixed_api_key = 1, fixed_name = ''Fetch'', fixed_min_version = 4, fixed_max_version = 12, fixed_flexible = True\<rparr>,
     \<lparr>fixed_api_key = 2, fixed_name = ''ListOffsets'', fixed_min_version = 6, fixed_max_version = 6, fixed_flexible = True\<rparr>]"

section \<open>Headers\<close>

record RequestHeader =
  hdr_api_key :: ApiKey
  hdr_api_version :: int
  hdr_correlation_id :: int
  hdr_client_id :: string
  hdr_header_version :: int

definition rd_lift :: "'a result \<Rightarrow> 'a reads" where
  "rd_lift m = (case m of Inl e \<Rightarrow> rd_throw e | Inr x \<Rightarrow> rd_return x)"

definition parse_request_header :: "RequestHeader reads" where
  "parse_request_header =
     rd_bind read_int16 (\<lambda>api_id_value.
     rd_bind read_int16 (\<lambda>version.
     rd_bind (rd_lift (api_key_from_id api_id_value)) (\<lambda>key.
     let header_version = request_header_version key version in
     rd_bind read_int32 (\<lambda>correlation_id.
     rd_bind read_nullable_string (\<lambda>client_id.
     rd_bind (if header_version \<ge> 2 then skip_tagged_fields else rd_return ()) (\<lambda>_.
     rd_return \<lparr>hdr_api_key = key, hdr_api_version = version, hdr_correlation_id = correlation_id,
                hdr_client_id = (case client_id of None \<Rightarrow> '''' | Some s \<Rightarrow> s),
                hdr_header_version = header_version\<rparr>))))))"

definition write_response_header :: "RequestHeader \<Rightarrow> writes" where
  "write_response_header request =
     write_seq [write_int32 (hdr_correlation_id request),
       (if response_header_version (hdr_api_key request) (hdr_api_version request) \<ge> 1
        then write_empty_tagged_fields else Inr)]"

definition make_response_frame :: "RequestHeader \<Rightarrow> bytes \<Rightarrow> bytes result" where
  "make_response_frame request body =
     write_seq [write_int32 0,
       write_response_header request,
       write_raw body,
       (\<lambda>w. patch_int32 0 (cast_i32 (int (length w) - 4)) w)] []"

section \<open>The table\<close>

lemmas api_table = find_info_def kApis_def is_known_api_def api_name_def is_supported_def
  is_flexible_def fixed_version_def request_header_version_def response_header_version_def

lemma is_known_api_iff: "is_known_api k \<longleftrightarrow> k \<in> {0, 1, 2, 3, 18}"
  by (auto simp: api_table)

lemma is_supported_iff:
  "is_supported key version \<longleftrightarrow>
     (key = Produce \<or> key = Metadata) \<and> version = 9 \<or>
     key = Fetch \<and> version = 12 \<or> key = ListOffsets \<and> version = 6 \<or>
     key = ApiVersions \<and> 0 \<le> version \<and> version \<le> 3"
  by (cases key) (auto simp: api_table)

lemma is_flexible_iff:
  "is_flexible key version \<longleftrightarrow>
     (key = Produce \<or> key = Metadata) \<and> version \<ge> 9 \<or>
     key = Fetch \<and> version \<ge> 12 \<or> key = ListOffsets \<and> version \<ge> 6 \<or>
     key = ApiVersions \<and> version \<ge> 3"
  by (cases key) (auto simp: api_table)

lemma api_key_from_id_iff: "api_key_from_id k = Inr key \<longleftrightarrow> is_known_api k \<and> api_id key = k"
  by (cases key) (auto simp: api_key_from_id_def cast_api_key_def is_known_api_iff split: if_splits)

lemma i16_api_id [simp]: "i16 (api_id key)"
  by (cases key) (simp_all add: i16_def)

lemma i16_error_id [simp]: "i16 (error_id e)"
  by (cases e) (simp_all add: i16_def)

section \<open>Header codec\<close>

text \<open>
  The bytes of a request header as Kafka defines them for header versions 1 and 2 (version 2
  adds a tagged-field section, here empty).
\<close>

definition request_header_bytes :: "ApiKey \<Rightarrow> int \<Rightarrow> int \<Rightarrow> string option \<Rightarrow> bytes" where
  "request_header_bytes key version correlation_id client_id =
     be16 (api_id key) @ be16 version @ be32 correlation_id @ nullable_string_bytes client_id @
     (if is_flexible key version then uvarint 0 else [])"

lemma parse_request_header_at:
  assumes "is_known_api (api_id key)" "i16 version" "i32 correlation_id" "ok_opt ok_string client_id"
  shows "parse_request_header
           (reader_at pre (request_header_bytes key version correlation_id client_id @ suf)) =
         Inr (\<lparr>hdr_api_key = key, hdr_api_version = version, hdr_correlation_id = correlation_id,
                hdr_client_id = (case client_id of None \<Rightarrow> '''' | Some s \<Rightarrow> s),
                hdr_header_version = (if is_flexible key version then 2 else 1)\<rparr>,
              reader_at (pre @ request_header_bytes key version correlation_id client_id) suf)"
proof -
  have "api_key_from_id (api_id key) = Inr key"
    using assms(1) by (simp add: api_key_from_id_iff)
  with assms show ?thesis
    by (simp add: parse_request_header_def request_header_bytes_def request_header_version_def
        rd_lift_def rd_defs rd_at)
qed

lemma safe_rd_lift [safe_reads]: "m \<noteq> Inl OutOfBounds \<Longrightarrow> safe_read (rd_lift m)"
  by (auto simp: rd_lift_def split: sum.splits intro!: safe_reads)

lemma safe_parse_request_header [safe_reads]: "safe_read parse_request_header"
  unfolding parse_request_header_def Let_def
  by (intro safe_reads) (simp_all add: api_key_from_id_def)

lemma patch_int32_front: "patch_int32 0 v (be32 u @ w) = Inr (be32 v @ w)"
  by (simp add: patch_int32_def be32_def Let_def numeral_3_eq_3 numeral_2_eq_2)

lemma make_response_frame_eq:
  "make_response_frame request body =
     Inr (let rest = be32 (hdr_correlation_id request) @
                     (if response_header_version (hdr_api_key request) (hdr_api_version request) \<ge> 1
                      then uvarint 0 else []) @ body
          in be32 (cast_i32 (int (length rest))) @ rest)"
  by (simp add: make_response_frame_def write_response_header_def wr_app Let_def
      patch_int32_front add.assoc)

section \<open>Properties\<close>

text \<open>
  A request header that a client lays out for a known API, with or without a client id, is
  parsed back field by field; the tagged-field section is consumed exactly for the versions
  that have one, so the reader stands at the first byte of the request body.
\<close>

theorem request_header_round_trip:
  assumes "is_known_api (api_id key)" "i16 version" "i32 correlation_id" "ok_opt ok_string client_id"
  shows "parse_request_header
           (wire_reader_of (request_header_bytes key version correlation_id client_id @ body)) =
         Inr (\<lparr>hdr_api_key = key, hdr_api_version = version, hdr_correlation_id = correlation_id,
                hdr_client_id = (case client_id of None \<Rightarrow> '''' | Some s \<Rightarrow> s),
                hdr_header_version = (if is_flexible key version then 2 else 1)\<rparr>,
              reader_at (request_header_bytes key version correlation_id client_id) body)"
  using parse_request_header_at [OF assms, of "[]" body] by (simp add: reader_at_Nil)

theorem request_header_round_trip_witness:
  "parse_request_header
     (wire_reader_of (request_header_bytes Fetch 12 7 (Some ''c'') @ [1, 2])) =
   Inr (\<lparr>hdr_api_key = Fetch, hdr_api_version = 12, hdr_correlation_id = 7,
          hdr_client_id = ''c'', hdr_header_version = 2\<rparr>,
        reader_at (request_header_bytes Fetch 12 7 (Some ''c'')) [1, 2])"
  using request_header_round_trip [of Fetch 12 7 "Some ''c''" "[1, 2]"]
  by (simp add: is_known_api_iff is_flexible_iff ok_opt_def ok_string_def i16_def i32_def)

text \<open>
  A response frame is never refused, and a client that reads it finds the number of bytes
  after the size field in that field, then the correlation id of the request, a tag section
  when the response header version has one, and the body to the end.
\<close>

theorem response_frame_layout:
  assumes "i32 (hdr_correlation_id request)" and "length body < 2 ^ 31 - 5"
  shows "\<exists>frame r1 r2. make_response_frame request body = Inr frame \<and>
           read_int32 (wire_reader_of frame) = Inr (int (length frame) - 4, r1) \<and>
           read_int32 r1 = Inr (hdr_correlation_id request, r2) \<and>
           (if response_header_version (hdr_api_key request) (hdr_api_version request) = 1
            then skip_tagged_fields r2 = Inr ((), reader_at (take (length frame - length body) frame) body)
            else r2 = reader_at (take (length frame - length body) frame) body)"
proof -
  define flex where
    "flex \<longleftrightarrow> response_header_version (hdr_api_key request) (hdr_api_version request) \<ge> 1"
  define tags where "tags = (if flex then uvarint 0 else [])"
  let ?cid = "be32 (hdr_correlation_id request)"
  let ?rest = "?cid @ tags @ body"
  let ?n = "be32 (int (length ?rest))"
  have flex: "response_header_version (hdr_api_key request) (hdr_api_version request) = 1 \<longleftrightarrow> flex"
    by (simp add: flex_def response_header_version_def)
  have "length tags \<le> 1" by (simp add: tags_def uvarint.simps)
  then have i: "i32 (int (length ?rest))" using assms(2) by (simp add: i32_def)
  have frame: "make_response_frame request body = Inr (?n @ ?rest)"
    using i unfolding make_response_frame_eq Let_def by (simp flip: flex_def tags_def)
  have size: "read_int32 (wire_reader_of (?n @ ?rest)) = Inr (int (length ?rest), reader_at ?n ?rest)"
    using read_int32_at [OF i, of "[]"] by (simp add: reader_at_Nil)
  have cid: "read_int32 (reader_at ?n ?rest) =
      Inr (hdr_correlation_id request, reader_at (?n @ ?cid) (tags @ body))"
    by (rule read_int32_at [OF assms(1)])
  have "flex \<Longrightarrow> skip_tagged_fields (reader_at (?n @ ?cid) (tags @ body)) =
      Inr ((), reader_at (?n @ ?cid @ tags) body)"
    and "\<not> flex \<Longrightarrow> reader_at (?n @ ?cid) (tags @ body) = reader_at (?n @ ?cid @ tags) body"
    by (simp_all add: tags_def rd_at)
  with frame size cid show ?thesis
    unfolding flex by (intro exI [of _ "?n @ ?rest"] exI conjI) auto
qed

theorem response_frame_layout_witness:
  "\<exists>frame r1 r2. make_response_frame \<lparr>hdr_api_key = Produce, hdr_api_version = 9,
        hdr_correlation_id = 5, hdr_client_id = ''c'', hdr_header_version = 2\<rparr> [1, 2, 3] = Inr frame \<and>
     read_int32 (wire_reader_of frame) = Inr (int (length frame) - 4, r1) \<and>
     read_int32 r1 = Inr (5, r2) \<and>
     skip_tagged_fields r2 = Inr ((), reader_at (take (length frame - 3) frame) [1, 2, 3])"
  using response_frame_layout [of "\<lparr>hdr_api_key = Produce, hdr_api_version = 9,
        hdr_correlation_id = 5, hdr_client_id = ''c'', hdr_header_version = 2\<rparr>" "[1, 2, 3]"]
  by (simp add: i32_def response_header_version_def is_flexible_iff numeral_3_eq_3)

end
