(* ===== verification/Partition_Log.thy ===== *)
theory Partition_Log
  imports Log_Format Api "HOL-Library.AList"
begin

text \<open>
  The partition log of \<^verbatim>\<open>src/partition_log_shard.cpp\<close>: its state, and its operations one by one.
  An operation that waits on the disk is split at its continuations: admission of an append,
  choice of the segment, submission of the write, completion of the write, flush. The functions
  \<open>append_log\<close> and \<open>append_replica\<close> run the pieces of one operation to the end; \<open>Log_Steps\<close>
  interleaves them. The data directory is the list of its files, the DMA alignment that
  Seastar reports for its files is the parameter \<open>dma\<close>.
\<close>

type_synonym disk = "(string \<times> bytes) list"

definition kSegmentCacheMax :: nat where
  "kSegmentCacheMax = 32"

record PartitionLog =
  pl_config :: PartitionConfig
  pl_segment_bytes :: nat
  pl_segments :: "SegmentInfo list"
  pl_offsets :: PartitionOffsets
  pl_queue_depth :: nat
  pl_active_base :: int
  pl_write_position :: nat
  pl_alignment :: nat
  pl_index_entry_size :: nat
  pl_degraded :: bool
  pl_replica_lag :: int
  pl_file_open :: bool
  pl_index_open :: bool
  pl_segment_cache :: "int list"
  pl_index_position :: nat
  pl_index_entries :: "IndexEntry list"
  pl_index_gate_closed :: bool
  pl_index_write_error :: bool
  pl_disk_writes :: nat
  pl_disk_fsyncs :: nat

abbreviation pl_earliest :: "PartitionLog \<Rightarrow> int" where
  "pl_earliest s \<equiv> po_earliest (pl_offsets s)"

abbreviation pl_latest :: "PartitionLog \<Rightarrow> int" where
  "pl_latest s \<equiv> po_latest (pl_offsets s)"

abbreviation pl_high_watermark :: "PartitionLog \<Rightarrow> int" where
  "pl_high_watermark s \<equiv> po_high_watermark (pl_offsets s)"

text \<open>\<^verbatim>\<open>static_cast<std::uint64_t>(v)\<close>\<close>

definition cast_u64 :: "int \<Rightarrow> nat" where
  "cast_u64 v = nat (v mod 2 ^ 64)"

section \<open>Paths and alignment\<close>

definition segment_path :: "PartitionLog \<Rightarrow> int \<Rightarrow> string" where
  "segment_path s base_offset = segment_name (pl_config s) base_offset"

definition index_path :: "PartitionLog \<Rightarrow> string" where
  "index_path s =
     sanitized_topic_name (pc_topic (pl_config s)) @ ''-'' @ to_string_int (pc_partition (pl_config s)) @ ''.index''"

definition update_dma_alignment :: "nat \<Rightarrow> PartitionLog \<Rightarrow> PartitionLog" where
  "update_dma_alignment dma s =
     s\<lparr>pl_alignment := max 1 dma, pl_index_entry_size := round_up kIndexEntryPayloadSize (max 1 dma)\<rparr>"

definition update_config :: "PartitionConfig \<Rightarrow> PartitionLog \<Rightarrow> PartitionLog" where
  "update_config config s = s\<lparr>pl_config := config\<rparr>"

text \<open>Opening a file with \<^verbatim>\<open>rw | create\<close>.\<close>

definition create_file :: "string \<Rightarrow> disk \<Rightarrow> disk" where
  "create_file name d = (case map_of d name of None \<Rightarrow> AList.update name [] d | Some _ \<Rightarrow> d)"

definition file_contents :: "disk \<Rightarrow> string \<Rightarrow> bytes" where
  "file_contents d name = (case map_of d name of None \<Rightarrow> [] | Some f \<Rightarrow> f)"

definition write_file :: "string \<Rightarrow> nat \<Rightarrow> bytes \<Rightarrow> disk \<Rightarrow> disk" where
  "write_file name pos bs d = AList.update name (dma_write (file_contents d name) pos bs) d"

definition open_active_segment :: "nat \<Rightarrow> PartitionLog \<times> disk \<Rightarrow> PartitionLog \<times> disk" where
  "open_active_segment dma = (\<lambda>(s, d).
     ((update_dma_alignment dma s)\<lparr>pl_file_open := True\<rparr>, create_file (segment_path s (pl_active_base s)) d))"

definition open_index :: "nat \<Rightarrow> PartitionLog \<times> disk \<Rightarrow> PartitionLog \<times> disk" where
  "open_index dma = (\<lambda>(s, d).
     ((update_dma_alignment dma s)\<lparr>pl_index_open := True\<rparr>, create_file (index_path s) d))"

section \<open>Index bookkeeping\<close>

definition note_index_entry :: "IndexEntry \<Rightarrow> PartitionLog \<Rightarrow> PartitionLog" where
  "note_index_entry entry s =
     (let frame_size = round_up (20 + cast_u64 (ie_record_bytes entry)) (pl_alignment s);
          next_position = ie_segment_position entry + frame_size;
          s1 = s\<lparr>pl_index_entries := pl_index_entries s @ [entry]\<rparr>
      in if pl_segments s = [] \<or> si_base_offset (last (pl_segments s)) \<noteq> ie_segment_base entry
         then s1\<lparr>pl_segments := pl_segments s @
                [\<lparr>si_base_offset = ie_segment_base entry, si_last_offset = ie_last_offset entry,
                  si_write_position = next_position\<rparr>]\<rparr>
         else let segment = last (pl_segments s)
              in s1\<lparr>pl_segments := butlast (pl_segments s) @
                   [segment\<lparr>si_last_offset := max (si_last_offset segment) (ie_last_offset entry),
                            si_write_position := max (si_write_position segment) next_position\<rparr>]\<rparr>)"

definition schedule_index_entry_write :: "IndexEntry \<Rightarrow> PartitionLog \<times> disk \<Rightarrow> PartitionLog \<times> disk" where
  "schedule_index_entry_write entry = (\<lambda>(s, d).
     if \<not> pl_index_open s then (s\<lparr>pl_index_write_error := True\<rparr>, d)
     else let position = pl_index_position s;
              s1 = note_index_entry entry (s\<lparr>pl_index_position := position + pl_index_entry_size s\<rparr>)
          in if pl_index_gate_closed s then (s1, d)
             else (s1, write_file (index_path s) position (encode_index_entry (pl_index_entry_size s) entry) d))"

section \<open>Writing\<close>

definition append_response :: "PartitionLog \<Rightarrow> ErrorCode \<Rightarrow> ProducePartitionResult" where
  "append_response s err =
     \<lparr>ppr_topic = pc_topic (pl_config s), ppr_partition = pc_partition (pl_config s),
      ppr_error_code = error_id err, ppr_base_offset = 0, ppr_log_end_offset = 0,
      ppr_log_start_offset = pl_earliest s\<rparr>"

definition record_set_of :: "int \<Rightarrow> bytes \<Rightarrow> RecordSet" where
  "record_set_of base_offset records =
     (let count = estimate_record_count records
      in \<lparr>rs_base_offset = base_offset,
          rs_last_offset = (if count = 0 then base_offset - 1 else base_offset + count - 1),
          rs_bytes = records\<rparr>)"

text \<open>The part of \<^verbatim>\<open>append\<close> before its first suspension.\<close>

definition append_admit ::
    "PartitionLog \<Rightarrow> bytes \<Rightarrow> int \<Rightarrow> ProducePartitionResult \<times> RecordSet option \<times> PartitionLog" where
  "append_admit s records acks =
     (if length records > pc_max_frame_bytes (pl_config s) then (append_response s RecordListTooLarge, None, s)
      else if pl_queue_depth s \<ge> pc_queue_limit (pl_config s) then (append_response s RequestTimedOut, None, s)
      else if acks < - 1 \<or> acks > 1 then (append_response s InvalidRequest, None, s)
      else let base_offset = pl_latest s;
               count = estimate_record_count records;
               latest = base_offset + count;
               hw = (if length (pc_isr (pl_config s)) \<le> 1 then latest else pl_high_watermark s)
           in ((append_response s ErrNone)\<lparr>ppr_base_offset := base_offset, ppr_log_end_offset := latest\<rparr>,
               Some (record_set_of base_offset records),
               s\<lparr>pl_queue_depth := pl_queue_depth s + 1,
                 pl_offsets := (pl_offsets s)\<lparr>po_latest := latest, po_high_watermark := hw\<rparr>\<rparr>))"

definition append_replica_admit ::
    "PartitionLog \<Rightarrow> ReplicaAppendRequest \<Rightarrow> ProducePartitionResult \<times> RecordSet option \<times> PartitionLog" where
  "append_replica_admit s request =
     (let response = (\<lambda>err. \<lparr>ppr_topic = rar_topic request, ppr_partition = rar_partition request,
            ppr_error_code = error_id err, ppr_base_offset = rar_base_offset request,
            ppr_log_end_offset = 0, ppr_log_start_offset = pl_earliest s\<rparr>)
      in if length (rar_records request) > pc_max_frame_bytes (pl_config s)
         then (response RecordListTooLarge, None, s)
         else if rar_base_offset request \<noteq> pl_latest s then (response OffsetOutOfRange, None, s)
         else if pl_queue_depth s \<ge> pc_queue_limit (pl_config s) then (response RequestTimedOut, None, s)
         else let latest = rar_base_offset request + estimate_record_count (rar_records request);
                  hw = min latest (rar_leader_high_watermark request)
              in ((response ErrNone)\<lparr>ppr_log_end_offset := latest\<rparr>,
                  Some (record_set_of (rar_base_offset request) (rar_records request)),
                  s\<lparr>pl_queue_depth := pl_queue_depth s + 1,
                    pl_offsets := (pl_offsets s)\<lparr>po_latest := latest, po_high_watermark := hw\<rparr>,
                    pl_replica_lag := max 0 (rar_leader_high_watermark request - hw)\<rparr>))"

text \<open>The continuation of a rollover, after the pending flush of the old segment.\<close>

definition rollover :: "nat \<Rightarrow> int \<Rightarrow> PartitionLog \<times> disk \<Rightarrow> PartitionLog \<times> disk" where
  "rollover dma base_offset = (\<lambda>(s, d).
     if \<not> pl_file_open s \<or> pl_write_position s = 0 then (s, d)
     else open_active_segment dma
       (s\<lparr>pl_file_open := False,
          pl_segment_cache := pl_active_base s # take (kSegmentCacheMax - 1) (pl_segment_cache s),
          pl_active_base := base_offset, pl_write_position := 0\<rparr>, d))"

definition ensure_segment_for_write ::
    "nat \<Rightarrow> int \<Rightarrow> nat \<Rightarrow> PartitionLog \<times> disk \<Rightarrow> PartitionLog \<times> disk" where
  "ensure_segment_for_write dma base_offset frame_size = (\<lambda>(s, d).
     if \<not> pl_file_open s
     then open_active_segment dma (s\<lparr>pl_active_base := base_offset, pl_write_position := 0\<rparr>, d)
     else if pl_write_position s = 0 \<or> pl_write_position s + frame_size \<le> pl_segment_bytes s then (s, d)
     else rollover dma base_offset (s, d))"

text \<open>A write that has been handed to the disk: the index entry it will get and its frame.\<close>

record SubmittedWrite =
  sw_entry :: IndexEntry
  sw_path :: string
  sw_frame :: bytes

text \<open>The frame is built with the alignment known when the append was admitted.\<close>

definition submit_write :: "RecordSet \<Rightarrow> bytes \<Rightarrow> PartitionLog \<Rightarrow> SubmittedWrite result \<times> PartitionLog" where
  "submit_write record_set frame s =
     (let position = pl_write_position s;
          segment_base = pl_active_base s;
          s1 = s\<lparr>pl_write_position := position + length frame\<rparr>
      in if \<not> pl_file_open s then (Inl (RuntimeError ''partition segment file is not open''), s1)
         else (Inr \<lparr>sw_entry = \<lparr>ie_base_offset = rs_base_offset record_set,
                      ie_last_offset = rs_last_offset record_set, ie_segment_base = segment_base,
                      ie_segment_position = position,
                      ie_record_bytes = cast_i32 (int (length (rs_bytes record_set)))\<rparr>,
                    sw_path = segment_path s segment_base, sw_frame = frame\<rparr>, s1))"

definition complete_write :: "SubmittedWrite \<Rightarrow> PartitionLog \<times> disk \<Rightarrow> PartitionLog \<times> disk" where
  "complete_write w = (\<lambda>(s, d).
     schedule_index_entry_write (sw_entry w)
       (s\<lparr>pl_disk_writes := pl_disk_writes s + 1\<rparr>,
        write_file (sw_path w) (ie_segment_position (sw_entry w)) (sw_frame w) d))"

definition write_record_set ::
    "nat \<Rightarrow> RecordSet \<Rightarrow> PartitionLog \<times> disk \<Rightarrow> unit result \<times> PartitionLog \<times> disk" where
  "write_record_set dma record_set = (\<lambda>(s, d).
     let frame = log_frame (pl_alignment s) record_set;
         (s1, d1) = ensure_segment_for_write dma (rs_base_offset record_set) (length frame) (s, d)
     in case submit_write record_set frame s1 of
          (Inl e, s2) \<Rightarrow> (Inl e, s2, d1)
        | (Inr w, s2) \<Rightarrow> (Inr (), complete_write w (s2, d1)))"

definition maybe_flush :: "PartitionLog \<Rightarrow> unit result \<times> PartitionLog" where
  "maybe_flush s =
     (if pc_durability (pl_config s) \<noteq> DurFsync then (Inr (), s)
      else if \<not> pl_file_open s then (Inl (RuntimeError ''partition segment file is not open''), s)
      else (Inr (), s\<lparr>pl_disk_fsyncs := pl_disk_fsyncs s + 1\<rparr>))"

text \<open>The continuations of an admitted append, the last one being the \<^verbatim>\<open>finally\<close>.\<close>

definition append_write ::
    "nat \<Rightarrow> ProducePartitionResult \<times> RecordSet option \<times> PartitionLog \<Rightarrow> disk \<Rightarrow>
     ProducePartitionResult result \<times> PartitionLog \<times> disk" where
  "append_write dma admitted d =
     (case admitted of
        (response, None, s) \<Rightarrow> (Inr response, s, d)
      | (response, Some record_set, s) \<Rightarrow>
          (case write_record_set dma record_set (s, d) of
             (Inl e, s1, d1) \<Rightarrow> (Inl e, s1\<lparr>pl_queue_depth := pl_queue_depth s1 - 1\<rparr>, d1)
           | (Inr _, s1, d1) \<Rightarrow>
               (let (flushed, s2) = maybe_flush s1
                in (rbind flushed (\<lambda>_. Inr response), s2\<lparr>pl_queue_depth := pl_queue_depth s2 - 1\<rparr>, d1))))"

definition append_log ::
    "nat \<Rightarrow> bytes \<Rightarrow> int \<Rightarrow> PartitionLog \<times> disk \<Rightarrow> ProducePartitionResult result \<times> PartitionLog \<times> disk" where
  "append_log dma records acks = (\<lambda>(s, d). append_write dma (append_admit s records acks) d)"

definition append_replica ::
    "nat \<Rightarrow> ReplicaAppendRequest \<Rightarrow> PartitionLog \<times> disk \<Rightarrow>
     ProducePartitionResult result \<times> PartitionLog \<times> disk" where
  "append_replica dma request = (\<lambda>(s, d). append_write dma (append_replica_admit s request) d)"

section \<open>Offsets\<close>

definition list_offsets :: "int \<Rightarrow> PartitionLog \<Rightarrow> ListOffsetPartitionResult" where
  "list_offsets timestamp s =
     \<lparr>lpr_topic = pc_topic (pl_config s), lpr_partition = pc_partition (pl_config s), lpr_error_code = 0,
      lpr_earliest = pl_earliest s, lpr_latest = pl_latest s,
      lpr_selected = (if timestamp = - 2 then pl_earliest s else pl_latest s)\<rparr>"

definition mark_replicated_through :: "int \<Rightarrow> PartitionLog \<Rightarrow> PartitionLog" where
  "mark_replicated_through offset s =
     (let hw = min (pl_latest s) (max (pl_high_watermark s) offset)
      in s\<lparr>pl_offsets := (pl_offsets s)\<lparr>po_high_watermark := hw\<rparr>,
           pl_replica_lag := max 0 (pl_latest s - hw), pl_degraded := False\<rparr>)"

definition mark_degraded :: "PartitionLog \<Rightarrow> PartitionLog" where
  "mark_degraded s = s\<lparr>pl_degraded := True, pl_replica_lag := max 0 (pl_latest s - pl_high_watermark s)\<rparr>"

end
