(* ===== verification/Log_Read.thy ===== *)
theory Log_Read
  imports Partition_Log
begin

text \<open>
  The fetch side of the partition log: the binary search in the in-memory index, the cache of
  segment handles, and \<^verbatim>\<open>read_records_from_index\<close>, which merges neighbouring entries of one
  segment into a single read. The merged read is shown equal to reading the selected entries
  one at a time.
\<close>

section \<open>Lookup\<close>

text \<open>\<^verbatim>\<open>std::lower_bound\<close>: halve the range \<open>[lo, lo + len)\<close> until it is empty.\<close>

function lower_bound_loop :: "('a \<Rightarrow> bool) \<Rightarrow> 'a list \<Rightarrow> nat \<Rightarrow> nat \<Rightarrow> nat" where
  "lower_bound_loop before xs lo len =
     (if len = 0 then lo
      else let half = len div 2; mid = lo + half
           in if before (xs ! mid) then lower_bound_loop before xs (mid + 1) (len - half - 1)
              else lower_bound_loop before xs lo half)"
  by pat_completeness auto
termination
  by (relation "measure (\<lambda>(before, xs, lo, len). len)") auto

declare lower_bound_loop.simps [simp del]

definition lower_bound :: "('a \<Rightarrow> bool) \<Rightarrow> 'a list \<Rightarrow> nat" where
  "lower_bound before xs = lower_bound_loop before xs 0 (length xs)"

definition find_index_for_offset :: "int \<Rightarrow> PartitionLog \<Rightarrow> nat" where
  "find_index_for_offset offset s = lower_bound (\<lambda>entry. ie_last_offset entry < offset) (pl_index_entries s)"

section \<open>Segment handles\<close>

text \<open>
  A handle is the file it reads. The active segment is read through its own handle, another
  one through the cache, whose front is the most recently used entry.
\<close>

definition get_segment_file_for_read :: "int \<Rightarrow> PartitionLog \<times> disk \<Rightarrow> bytes result \<times> PartitionLog" where
  "get_segment_file_for_read segment_base = (\<lambda>(s, d).
     let name = segment_path s segment_base
     in if segment_base = pl_active_base s \<and> pl_file_open s then (Inr (file_contents d name), s)
        else if segment_base \<in> set (pl_segment_cache s)
        then (Inr (file_contents d name),
              s\<lparr>pl_segment_cache := segment_base # remove1 segment_base (pl_segment_cache s)\<rparr>)
        else case map_of d name of
               None \<Rightarrow> (Inl (RuntimeError ''No such file or directory''), s)
             | Some f \<Rightarrow> (Inr f, s\<lparr>pl_segment_cache :=
                 segment_base # take (kSegmentCacheMax - 1) (pl_segment_cache s)\<rparr>))"

section \<open>Reading a run of entries\<close>

definition entry_bytes :: "IndexEntry \<Rightarrow> nat" where
  "entry_bytes e = cast_u64 (ie_record_bytes e)"

definition entry_frame_size :: "nat \<Rightarrow> IndexEntry \<Rightarrow> nat" where
  "entry_frame_size alignment e = round_up (20 + cast_u64 (ie_record_bytes e)) alignment"

definition entry_hidden :: "int \<Rightarrow> IndexEntry \<Rightarrow> bool" where
  "entry_hidden visible_end e \<longleftrightarrow> ie_base_offset e \<ge> visible_end \<or> ie_last_offset e \<ge> visible_end"

text \<open>The inner loop: how many entries after the first one the run takes in, and its size.\<close>

fun extend_run ::
    "nat \<Rightarrow> int \<Rightarrow> nat \<Rightarrow> nat \<Rightarrow> IndexEntry \<Rightarrow> IndexEntry list \<Rightarrow> nat \<times> nat \<times> nat \<Rightarrow> nat \<times> nat \<times> nat" where
  "extend_run alignment visible_end limit have_bytes first [] run = run"
| "extend_run alignment visible_end limit have_bytes first (e # es) (run_count, run_record_bytes, run_total_bytes) =
     (if entry_hidden visible_end e \<or> ie_segment_base e \<noteq> ie_segment_base first \<or>
         have_bytes + run_record_bytes + entry_bytes e > limit
      then (run_count, run_record_bytes, run_total_bytes)
      else extend_run alignment visible_end limit have_bytes first es
             (run_count + 1, run_record_bytes + entry_bytes e,
              size_sub (ie_segment_position e) (ie_segment_position first) + entry_frame_size alignment e))"

text \<open>One frame out of the buffer of a run.\<close>

definition parse_frame :: "bytes \<Rightarrow> nat \<Rightarrow> IndexEntry \<Rightarrow> bytes result" where
  "parse_frame buffer start e =
     (let relative = size_sub (ie_segment_position e) start;
          header = drop relative buffer
      in if length header < 20 then Inl OutOfBounds
         else if \<not> frame_header_is header (ie_base_offset e) (ie_record_bytes e)
         then Inl (RuntimeError ''partition segment frame is corrupt'')
         else if length header < 20 + entry_bytes e then Inl OutOfBounds
         else Inr (chunk header 20 (entry_bytes e)))"

definition parse_run :: "bytes \<Rightarrow> nat \<Rightarrow> IndexEntry list \<Rightarrow> bytes result" where
  "parse_run buffer start es = rbind (mapR (parse_frame buffer start) es) (\<lambda>frames. Inr (concat frames))"

lemma extend_run_count:
  "extend_run a ve limit have_bytes first es (c, rb, n) = (c', rb', n') \<Longrightarrow> c \<le> c' \<and> c' \<le> c + length es"
  by (induction es arbitrary: c rb n) (fastforce split: if_splits)+

function read_loop ::
    "disk \<Rightarrow> int \<Rightarrow> int \<Rightarrow> nat \<Rightarrow> IndexEntry list \<Rightarrow> bytes \<Rightarrow> PartitionLog \<Rightarrow> bytes result \<times> PartitionLog" where
  "read_loop d offset visible_end limit [] records s = (Inr records, s)"
| "read_loop d offset visible_end limit (first # rest) records s =
     (if ie_last_offset first < offset then read_loop d offset visible_end limit rest records s
      else if entry_hidden visible_end first then (Inr records, s)
      else if records \<noteq> [] \<and> length records + entry_bytes first > limit then (Inr records, s)
      else let run = extend_run (pl_alignment s) visible_end limit (length records) first rest
                       (1, entry_bytes first, entry_frame_size (pl_alignment s) first);
               run_count = fst run; run_total_bytes = snd (snd run);
               start = ie_segment_position first
           in case get_segment_file_for_read (ie_segment_base first) (s, d) of
                (Inl e, s1) \<Rightarrow> (Inl e, s1)
              | (Inr f, s1) \<Rightarrow>
                  let buffer = dma_read f start run_total_bytes
                  in if length buffer \<noteq> run_total_bytes
                     then (Inl (RuntimeError ''partition segment short read''), s1)
                     else case parse_run buffer start (take run_count (first # rest)) of
                            Inl e \<Rightarrow> (Inl e, s1)
                          | Inr bs \<Rightarrow>
                              (let records' = records @ bs
                               in if length records' \<ge> limit then (Inr records', s1)
                                  else read_loop d offset visible_end limit (drop (run_count - 1) rest) records' s1))"
  by pat_completeness auto
termination
  by (relation "measure (\<lambda>(d, offset, visible_end, limit, es, records, s). length es)") auto

definition read_records_from_index ::
    "int \<Rightarrow> int \<Rightarrow> nat \<Rightarrow> PartitionLog \<times> disk \<Rightarrow> bytes result \<times> PartitionLog" where
  "read_records_from_index offset visible_end limit = (\<lambda>(s, d).
     read_loop d offset visible_end limit (drop (find_index_for_offset offset s) (pl_index_entries s)) [] s)"

section \<open>Fetch\<close>

definition fetch_limit :: "int \<Rightarrow> PartitionLog \<Rightarrow> nat" where
  "fetch_limit max_bytes s = (if max_bytes \<le> 0 then pc_max_frame_bytes (pl_config s) else nat max_bytes)"

definition fetch ::
    "int \<Rightarrow> int \<Rightarrow> PartitionLog \<times> disk \<Rightarrow> FetchPartitionResult result \<times> PartitionLog" where
  "fetch offset max_bytes = (\<lambda>(s, d).
     let visible_end = (if pc_fetch_visibility (pl_config s) = HighWatermark then pl_high_watermark s
                        else pl_latest s);
         result = \<lparr>fpr_error_code = 0, fpr_high_watermark = visible_end,
           fpr_log_start_offset = pl_earliest s, fpr_log_end_offset = pl_latest s, fpr_records = []\<rparr>
     in if offset < pl_earliest s \<or> offset > pl_latest s
        then (Inr (result\<lparr>fpr_error_code := error_id OffsetOutOfRange\<rparr>), s)
        else case read_records_from_index offset visible_end (fetch_limit max_bytes s) (s, d) of
               (r, s1) \<Rightarrow> (rbind r (\<lambda>records. Inr (result\<lparr>fpr_records := records\<rparr>)), s1))"

definition fetch_for_replica ::
    "int \<Rightarrow> int \<Rightarrow> PartitionLog \<times> disk \<Rightarrow> ReplicaFetchResult result \<times> PartitionLog" where
  "fetch_for_replica offset max_bytes = (\<lambda>(s, d).
     let result = \<lparr>rfr_error_code = 0, rfr_leader_high_watermark = pl_high_watermark s,
           rfr_log_end_offset = pl_latest s, rfr_records = []\<rparr>
     in if offset < pl_earliest s \<or> offset > pl_latest s
        then (Inr (result\<lparr>rfr_error_code := error_id OffsetOutOfRange\<rparr>), s)
        else case read_records_from_index offset (pl_latest s) (fetch_limit max_bytes s) (s, d) of
               (r, s1) \<Rightarrow> (rbind r (\<lambda>records. Inr (result\<lparr>rfr_records := records\<rparr>)), s1))"

section \<open>The binary search\<close>

lemma lower_bound_loop_partition:
  assumes "\<forall>i<k. before (xs ! i)" and "\<forall>i. k \<le> i \<longrightarrow> i < length xs \<longrightarrow> \<not> before (xs ! i)"
  shows "lo \<le> k \<Longrightarrow> k \<le> lo + len \<Longrightarrow> lo + len \<le> length xs \<Longrightarrow> lower_bound_loop before xs lo len = k"
  using assms
proof (induction before xs lo len rule: lower_bound_loop.induct)
  case (1 before xs lo len)
  show ?case
  proof (cases "len = 0")
    case True
    with "1.prems" show ?thesis by (simp add: lower_bound_loop.simps)
  next
    case False
    let ?mid = "lo + len div 2"
    have mid: "?mid < length xs" using False "1.prems" by linarith
    show ?thesis
    proof (cases "before (xs ! ?mid)")
      case True
      with mid "1.prems" have "?mid < k" by (metis not_less)
      then show ?thesis
        using 1 False True by (subst lower_bound_loop.simps) (simp add: Let_def)
    next
      case False': False
      with "1.prems" have "k \<le> ?mid" by (metis not_less)
      then show ?thesis
        using 1 False False' by (subst lower_bound_loop.simps) (simp add: Let_def)
    qed
  qed
qed

lemma lower_bound_takeWhile:
  assumes "sorted_wrt (\<lambda>a b. before b \<longrightarrow> before a) xs"
  shows "lower_bound before xs = length (takeWhile before xs)"
  unfolding lower_bound_def
proof (rule lower_bound_loop_partition)
  let ?k = "length (takeWhile before xs)"
  show "\<forall>i<?k. before (xs ! i)"
    by (metis nth_mem set_takeWhileD takeWhile_nth)
  show "\<forall>i. ?k \<le> i \<longrightarrow> i < length xs \<longrightarrow> \<not> before (xs ! i)"
  proof (intro allI impI notI)
    fix i assume i: "?k \<le> i" "i < length xs" "before (xs ! i)"
    then have "\<not> before (xs ! ?k)" by (simp add: nth_length_takeWhile)
    with i show False
      using sorted_wrt_nth_less [OF assms, of ?k i] by (cases "?k = i") auto
  qed
qed (simp_all add: length_takeWhile_le)

section \<open>What the index promises\<close>

definition entry_file :: "PartitionLog \<Rightarrow> disk \<Rightarrow> IndexEntry \<Rightarrow> bytes" where
  "entry_file s d e = file_contents d (segment_path s (ie_segment_base e))"

definition entry_payload :: "PartitionLog \<Rightarrow> disk \<Rightarrow> IndexEntry \<Rightarrow> bytes" where
  "entry_payload s d e = chunk (entry_file s d e) (ie_segment_position e + 20) (entry_bytes e)"

text \<open>The frame of an entry lies in its segment file, with the header the entry describes.\<close>

definition entry_stored :: "PartitionLog \<Rightarrow> disk \<Rightarrow> IndexEntry \<Rightarrow> bool" where
  "entry_stored s d e \<longleftrightarrow>
     index_entry_ok e \<and> map_of d (segment_path s (ie_segment_base e)) \<noteq> None \<and>
     length (entry_payload s d e) = entry_bytes e \<and>
     chunk (entry_file s d e) (ie_segment_position e) (entry_frame_size (pl_alignment s) e) =
       log_frame (pl_alignment s)
         \<lparr>rs_base_offset = ie_base_offset e, rs_last_offset = ie_last_offset e, rs_bytes = entry_payload s d e\<rparr>"

text \<open>Entries follow each other in offset order and, inside a segment, in file order.\<close>

definition entry_before :: "nat \<Rightarrow> IndexEntry \<Rightarrow> IndexEntry \<Rightarrow> bool" where
  "entry_before alignment a b \<longleftrightarrow>
     ie_last_offset a < ie_base_offset b \<and>
     (ie_segment_base a = ie_segment_base b \<longrightarrow>
        ie_segment_position a + entry_frame_size alignment a \<le> ie_segment_position b)"

definition index_ok :: "PartitionLog \<Rightarrow> disk \<Rightarrow> bool" where
  "index_ok s d \<longleftrightarrow>
     0 < pl_alignment s \<and> list_all (entry_stored s d) (pl_index_entries s) \<and>
     sorted_wrt (entry_before (pl_alignment s)) (pl_index_entries s)"

text \<open>
  The entries a fetch returns: from the first one that reaches the offset, as long as they are
  visible; the first one always, the others while the total stays within the limit.
\<close>

fun admit :: "nat \<Rightarrow> nat \<Rightarrow> IndexEntry list \<Rightarrow> IndexEntry list" where
  "admit limit n [] = []"
| "admit limit n (e # es) = (if n + entry_bytes e \<le> limit then e # admit limit (n + entry_bytes e) es else [])"

definition admit_first :: "nat \<Rightarrow> IndexEntry list \<Rightarrow> IndexEntry list" where
  "admit_first limit es = (case es of [] \<Rightarrow> [] | e # es' \<Rightarrow> e # admit limit (entry_bytes e) es')"

definition selected_entries :: "int \<Rightarrow> int \<Rightarrow> nat \<Rightarrow> IndexEntry list \<Rightarrow> IndexEntry list" where
  "selected_entries offset visible_end limit es =
     admit_first limit (takeWhile (\<lambda>e. \<not> entry_hidden visible_end e)
       (dropWhile (\<lambda>e. ie_last_offset e < offset) es))"

section \<open>The extent of a run\<close>

fun run_prefix :: "int \<Rightarrow> nat \<Rightarrow> IndexEntry \<Rightarrow> nat \<Rightarrow> IndexEntry list \<Rightarrow> IndexEntry list" where
  "run_prefix ve limit first n [] = []"
| "run_prefix ve limit first n (e # es) =
     (if entry_hidden ve e \<or> ie_segment_base e \<noteq> ie_segment_base first \<or> n + entry_bytes e > limit then []
      else e # run_prefix ve limit first (n + entry_bytes e) es)"

definition run_extent :: "nat \<Rightarrow> IndexEntry \<Rightarrow> IndexEntry list \<Rightarrow> nat" where
  "run_extent a first p =
     size_sub (ie_segment_position (last (first # p))) (ie_segment_position first) +
     entry_frame_size a (last (first # p))"

lemma extend_run_prefix:
  "p = run_prefix ve limit first (m + rb) es \<Longrightarrow>
   extend_run a ve limit m first es (c, rb, n) =
     (c + length p, rb + sum_list (map entry_bytes p), if p = [] then n else run_extent a first p)"
proof (induction es arbitrary: c rb n p)
  case Nil
  then show ?case by simp
next
  case (Cons e es)
  show ?case
  proof (cases "entry_hidden ve e \<or> ie_segment_base e \<noteq> ie_segment_base first \<or> m + rb + entry_bytes e > limit")
    case True
    with Cons.prems show ?thesis by auto
  next
    case False
    let ?p = "run_prefix ve limit first (m + (rb + entry_bytes e)) es"
    have p: "p = e # ?p" using False Cons.prems by (simp add: add.assoc)
    have "extend_run a ve limit m first (e # es) (c, rb, n) =
        extend_run a ve limit m first es (c + 1, rb + entry_bytes e,
          size_sub (ie_segment_position e) (ie_segment_position first) + entry_frame_size a e)"
      using False by simp
    also have "\<dots> = (c + 1 + length ?p, rb + entry_bytes e + sum_list (map entry_bytes ?p),
        if ?p = [] then size_sub (ie_segment_position e) (ie_segment_position first) + entry_frame_size a e
        else run_extent a first ?p)"
      by (rule Cons.IH) simp
    finally show ?thesis using p by (simp add: run_extent_def)
  qed
qed

lemma run_prefix_split:
  assumes "p = run_prefix ve limit first n es"
  shows "take (length p) es = p"
    and "admit limit n (takeWhile (\<lambda>e. \<not> entry_hidden ve e) es) =
           p @ admit limit (n + sum_list (map entry_bytes p))
                 (takeWhile (\<lambda>e. \<not> entry_hidden ve e) (drop (length p) es))"
    and "\<forall>e\<in>set p. ie_segment_base e = ie_segment_base first"
  using assms
  by (induction es arbitrary: n p) (auto simp: add.assoc split: if_splits)

lemma admit_full: "limit \<le> n \<Longrightarrow> \<forall>e\<in>set es. 0 < entry_bytes e \<Longrightarrow> admit limit n es = []"
  by (cases es) auto

section \<open>Reading the frames of a run\<close>

lemma entry_bytes_ok: "index_entry_ok e \<Longrightarrow> int (entry_bytes e) = ie_record_bytes e \<and> 0 < entry_bytes e"
  by (simp add: entry_bytes_def cast_u64_def index_entry_ok_def i32_def)

lemma entry_frame_size_eq: "entry_frame_size a e = frame_size_of a (entry_bytes e)"
  by (simp add: entry_frame_size_def frame_size_of_def entry_bytes_def)

lemma entry_stored_extent:
  assumes "entry_stored s d e" "0 < pl_alignment s"
  shows "ie_segment_position e + entry_frame_size (pl_alignment s) e \<le> length (entry_file s d e)"
proof -
  have "length (chunk (entry_file s d e) (ie_segment_position e) (entry_frame_size (pl_alignment s) e)) =
      entry_frame_size (pl_alignment s) e"
    using assms by (simp add: entry_stored_def length_log_frame entry_frame_size_eq)
  moreover have "0 < entry_frame_size (pl_alignment s) e"
    using assms(2) by (simp add: entry_frame_size_eq frame_size_pos)
  ultimately show ?thesis by (simp add: chunk_def)
qed

lemma parse_frame_stored:
  assumes st: "entry_stored s d e" and a: "0 < pl_alignment s"
    and start: "start \<le> ie_segment_position e"
    and fits: "ie_segment_position e + entry_frame_size (pl_alignment s) e \<le> start + n"
  shows "parse_frame (dma_read (entry_file s d e) start n) start e = Inr (entry_payload s d e)"
proof -
  let ?fs = "entry_frame_size (pl_alignment s) e"
  let ?rs = "\<lparr>rs_base_offset = ie_base_offset e, rs_last_offset = ie_last_offset e, rs_bytes = entry_payload s d e\<rparr>"
  let ?rel = "ie_segment_position e - start"
  define header where "header = drop ?rel (dma_read (entry_file s d e) start n)"
  have "header = take (n - ?rel) (drop (ie_segment_position e) (entry_file s d e))"
    using start by (simp add: header_def dma_read_def chunk_def drop_take)
  moreover have "?fs \<le> n - ?rel" using fits start by linarith
  ultimately have "take ?fs header = log_frame (pl_alignment s) ?rs"
    using st by (simp add: entry_stored_def chunk_def min_def)
  then have h: "header = log_frame (pl_alignment s) ?rs @ drop ?fs header"
    by (metis append_take_drop_id)
  from st have ok: "index_entry_ok e" and len: "length (entry_payload s d e) = entry_bytes e"
    by (simp_all add: entry_stored_def)
  have "frame_header_is header (ie_base_offset e) (ie_record_bytes e)"
    using log_frame_header [of ?rs "pl_alignment s" "drop ?fs header"] ok len entry_bytes_ok [OF ok]
    by (simp add: index_entry_ok_def flip: h)
  moreover have "chunk header 20 (entry_bytes e) = entry_payload s d e"
    using log_frame_payload [of "pl_alignment s" ?rs "drop ?fs header"] len by (simp flip: h)
  moreover have "20 + entry_bytes e \<le> length header"
    using h length_log_frame [OF a, of ?rs] frame_size_ge [OF a, of "entry_bytes e"] len
    by (metis RecordSet.select_convs(3) length_append trans_le_add1)
  moreover have "size_sub (ie_segment_position e) start = ?rel"
    using start by (simp add: size_sub_def)
  ultimately show ?thesis
    unfolding parse_frame_def Let_def by (simp only: header_def [symmetric]) simp
qed

lemma mapR_map: "\<forall>x\<in>set xs. f x = Inr (g x) \<Longrightarrow> mapR f xs = Inr (map g xs)"
  by (induction xs) auto

lemma parse_run_stored:
  assumes st: "\<forall>e\<in>set (first # p). entry_stored s d e" and a: "0 < pl_alignment s"
    and srt: "sorted_wrt (entry_before (pl_alignment s)) (first # p)"
    and seg: "\<forall>e\<in>set p. ie_segment_base e = ie_segment_base first"
  shows "length (dma_read (entry_file s d first) (ie_segment_position first) (run_extent (pl_alignment s) first p)) =
           run_extent (pl_alignment s) first p"
    and "parse_run (dma_read (entry_file s d first) (ie_segment_position first) (run_extent (pl_alignment s) first p))
           (ie_segment_position first) (first # p) = Inr (concat (map (entry_payload s d) (first # p)))"
proof -
  let ?n = "run_extent (pl_alignment s) first p"
  let ?fin = "\<lambda>e. ie_segment_position e + entry_frame_size (pl_alignment s) e"
  let ?l = "last (first # p)"
  have fl: "entry_file s d e = entry_file s d first" if "e \<in> set (first # p)" for e
    using seg that by (auto simp: entry_file_def)
  have lo: "ie_segment_position first \<le> ie_segment_position e" if "e \<in> set (first # p)" for e
    using srt seg that by (force simp: entry_before_def)
  have hi: "?fin e \<le> ?fin ?l" if "e \<in> set (first # p)" for e
  proof (cases "e = ?l")
    case False
    have "first # p = butlast (first # p) @ [?l]" by simp
    with srt have before: "\<forall>x\<in>set (butlast (first # p)). entry_before (pl_alignment s) x ?l"
      by (metis sorted_wrt_append list.set_intros(1))
    have "e \<in> set (butlast (first # p))"
      using that False by (metis append_butlast_last_id list.distinct(1) rotate1.simps(2) set_ConsD set_rotate1)
    with before have "entry_before (pl_alignment s) e ?l" by blast
    moreover have "ie_segment_base e = ie_segment_base ?l"
      using seg that last_in_set [of "first # p"] by (metis list.distinct(1) set_ConsD)
    ultimately show ?thesis by (simp add: entry_before_def)
  qed simp
  have n: "ie_segment_position first + ?n = ?fin ?l"
    using lo [OF last_in_set] by (auto simp: run_extent_def size_sub_def)
  have "?fin ?l \<le> length (entry_file s d first)"
    using entry_stored_extent [of s d ?l] st a fl [of ?l] by (metis last_in_set list.distinct(1))
  with n show "length (dma_read (entry_file s d first) (ie_segment_position first) ?n) = ?n"
    by (simp add: dma_read_def chunk_def)
  have "\<forall>e\<in>set (first # p). parse_frame (dma_read (entry_file s d first) (ie_segment_position first) ?n)
      (ie_segment_position first) e = Inr (entry_payload s d e)"
  proof
    fix e assume e: "e \<in> set (first # p)"
    have "parse_frame (dma_read (entry_file s d e) (ie_segment_position first) ?n)
        (ie_segment_position first) e = Inr (entry_payload s d e)"
      using st a lo [OF e] hi [OF e] n e by (intro parse_frame_stored) auto
    then show "parse_frame (dma_read (entry_file s d first) (ie_segment_position first) ?n)
        (ie_segment_position first) e = Inr (entry_payload s d e)"
      using fl [OF e] by simp
  qed
  from mapR_map [OF this]
  show "parse_run (dma_read (entry_file s d first) (ie_segment_position first) ?n)
      (ie_segment_position first) (first # p) = Inr (concat (map (entry_payload s d) (first # p)))"
    by (simp only: parse_run_def rbind.simps)
qed

text \<open>A read touches nothing of the log but the order of its handle cache.\<close>

definition same_log :: "PartitionLog \<Rightarrow> PartitionLog \<Rightarrow> bool" where
  "same_log s s' \<longleftrightarrow> s' = s\<lparr>pl_segment_cache := pl_segment_cache s'\<rparr>"

lemma same_log_refl [simp]: "same_log s s"
  by (simp add: same_log_def)

lemma same_log_trans: "same_log s t \<Longrightarrow> same_log t u \<Longrightarrow> same_log s u"
  unfolding same_log_def by (metis PartitionLog.surjective PartitionLog.update_convs(14))

lemma same_log_fields:
  assumes "same_log s s'"
  shows "pl_alignment s' = pl_alignment s" "pl_index_entries s' = pl_index_entries s"
    "segment_path s' = segment_path s" "entry_payload s' d = entry_payload s d"
    "entry_stored s' d = entry_stored s d" "entry_file s' d = entry_file s d"
proof -
  obtain c where s': "s' = s\<lparr>pl_segment_cache := c\<rparr>" using assms by (auto simp: same_log_def)
  then show 1: "pl_alignment s' = pl_alignment s" "pl_index_entries s' = pl_index_entries s"
    and 2: "segment_path s' = segment_path s" by (auto simp: segment_path_def)
  show 3: "entry_file s' d = entry_file s d" by (simp add: entry_file_def 2 fun_eq_iff)
  then show 4: "entry_payload s' d = entry_payload s d" by (simp add: entry_payload_def fun_eq_iff)
  with 1 2 3 show "entry_stored s' d = entry_stored s d" by (simp add: entry_stored_def fun_eq_iff)
qed

lemma same_log_meta:
  assumes "same_log s s'"
  shows "pl_config s' = pl_config s" "pl_offsets s' = pl_offsets s"
proof -
  obtain c where "s' = s\<lparr>pl_segment_cache := c\<rparr>" using assms by (auto simp: same_log_def)
  then show "pl_config s' = pl_config s" "pl_offsets s' = pl_offsets s" by simp_all
qed

lemma get_segment_file_stored:
  assumes "map_of d (segment_path s base) \<noteq> None"
  shows "\<exists>s'. get_segment_file_for_read base (s, d) = (Inr (file_contents d (segment_path s base)), s') \<and> same_log s s'"
  using assms by (auto simp: get_segment_file_for_read_def Let_def same_log_def file_contents_def split: option.splits)

section \<open>The merged read selects and returns the entries\<close>

text \<open>What one iteration of the outer loop adds for a run that starts at a visible entry.\<close>

lemma read_loop_run:
  assumes st: "\<forall>e\<in>set (first # rest). entry_stored s d e" and a: "0 < pl_alignment s"
    and srt: "sorted_wrt (entry_before (pl_alignment s)) (first # rest)"
    and vis: "offset \<le> ie_last_offset first" "\<not> entry_hidden ve first"
    and fits: "records = [] \<or> length records + entry_bytes first \<le> limit"
  defines "p \<equiv> run_prefix ve limit first (length records + entry_bytes first) rest"
  shows "\<exists>s'. same_log s s' \<and>
    read_loop d offset ve limit (first # rest) records s =
      (let records' = records @ concat (map (entry_payload s d) (first # p))
       in if length records' \<ge> limit then (Inr records', s')
          else read_loop d offset ve limit (drop (length p) rest) records' s')"
proof -
  let ?a = "pl_alignment s"
  note pre = run_prefix_split [OF p_def [THEN meta_eq_to_obj_eq]]
  have run: "extend_run ?a ve limit (length records) first rest (1, entry_bytes first, entry_frame_size ?a first) =
      (1 + length p, entry_bytes first + sum_list (map entry_bytes p), run_extent ?a first p)"
    using extend_run_prefix [OF p_def [THEN meta_eq_to_obj_eq], of ?a 1 "entry_frame_size ?a first"]
    by (auto simp: run_extent_def size_sub_def)
  have sub: "first # rest = (first # p) @ drop (length p) rest"
    using pre(1) by (metis append_Cons append_take_drop_id)
  have st': "\<forall>e\<in>set (first # p). entry_stored s d e"
    using st set_take_subset [of "length p" rest] pre(1) by (metis set_ConsD list.set_intros subsetD)
  have srt': "sorted_wrt (entry_before ?a) (first # p)"
    using srt unfolding sub sorted_wrt_append by blast
  note parsed = parse_run_stored [OF st' a srt' pre(3)]
  have "map_of d (segment_path s (ie_segment_base first)) \<noteq> None"
    using st by (simp add: entry_stored_def)
  then obtain s' where s': "get_segment_file_for_read (ie_segment_base first) (s, d) =
      (Inr (entry_file s d first), s')" "same_log s s'"
    using get_segment_file_stored [of d s "ie_segment_base first"] by (auto simp: entry_file_def)
  have tk: "take (1 + length p) (first # rest) = first # p" using pre(1) by simp
  have g: "(ie_last_offset first < offset) = False" "entry_hidden ve first = False"
      "(records \<noteq> [] \<and> length records + entry_bytes first > limit) = False"
    using vis fits by (auto simp: not_less)
  show ?thesis
    using s'(2)
    by (intro exI [of _ s'])
      (simp only: read_loop.simps(2) g if_False run Let_def fst_conv snd_conv s'(1) prod.case sum.case
        parsed simp_thms tk add_diff_cancel_left')
qed

lemma payload_length: "entry_stored s d e \<Longrightarrow> length (entry_payload s d e) = entry_bytes e"
  by (simp add: entry_stored_def)

lemma payloads_length:
  "\<forall>e\<in>set es. entry_stored s d e \<Longrightarrow>
   length (concat (map (entry_payload s d) es)) = sum_list (map entry_bytes es)"
  by (induction es) (simp_all add: payload_length)

lemma stored_bytes_pos: "entry_stored s d e \<Longrightarrow> 0 < entry_bytes e"
  using entry_bytes_ok by (auto simp: entry_stored_def)

lemma read_loop_started:
  assumes "\<forall>e\<in>set es. entry_stored s d e \<and> offset \<le> ie_last_offset e" "0 < pl_alignment s"
    and "sorted_wrt (entry_before (pl_alignment s)) es" "records \<noteq> []"
  shows "\<exists>s'. same_log s s' \<and> read_loop d offset ve limit es records s =
     (Inr (records @ concat (map (entry_payload s d)
        (admit limit (length records) (takeWhile (\<lambda>e. \<not> entry_hidden ve e) es)))), s')"
  using assms
proof (induction "length es" arbitrary: es records s rule: less_induct)
  case less
  let ?vis = "takeWhile (\<lambda>e. \<not> entry_hidden ve e)"
  show ?case
  proof (cases es)
    case Nil
    then show ?thesis by (intro exI [of _ s]) simp
  next
    case (Cons first rest)
    show ?thesis
    proof (cases "entry_hidden ve first \<or> length records + entry_bytes first > limit")
      case True
      with Cons less.prems show ?thesis by (intro exI [of _ s]) auto
    next
      case False
      define p where "p = run_prefix ve limit first (length records + entry_bytes first) rest"
      let ?records' = "records @ concat (map (entry_payload s d) (first # p))"
      note pre = run_prefix_split [OF p_def]
      have st: "\<forall>e\<in>set (first # rest). entry_stored s d e" using Cons less.prems by simp
      have sp: "\<forall>e\<in>set (first # p). entry_stored s d e"
        using st set_take_subset [of "length p" rest] pre(1) by auto
      obtain s1 where s1: "same_log s s1" "read_loop d offset ve limit es records s =
          (if length ?records' \<ge> limit then (Inr ?records', s1)
           else read_loop d offset ve limit (drop (length p) rest) ?records' s1)"
        using read_loop_run [of first rest s d offset ve records limit] Cons less.prems st False p_def
        by (auto simp: Let_def not_less)
      have len: "length ?records' = length records + entry_bytes first + sum_list (map entry_bytes p)"
        using payloads_length [OF sp] by simp
      have all: "admit limit (length records) (?vis es) =
          first # p @ admit limit (length ?records') (?vis (drop (length p) rest))"
        using False Cons pre(2) len by (simp add: add.assoc)
      show ?thesis
      proof (cases "limit \<le> length ?records'")
        case True
        have "admit limit (length ?records') (?vis (drop (length p) rest)) = []"
          using True st stored_bytes_pos
          by (intro admit_full) (auto dest!: set_takeWhileD in_set_dropD)
        with all s1 True show ?thesis by (intro exI [of _ s1]) simp
      next
        case False': False
        have "\<exists>s'. same_log s1 s' \<and> read_loop d offset ve limit (drop (length p) rest) ?records' s1 =
           (Inr (?records' @ concat (map (entry_payload s1 d)
              (admit limit (length ?records') (?vis (drop (length p) rest))))), s')"
          using less.prems Cons same_log_fields [OF s1(1)]
          by (intro less.hyps) (auto dest: in_set_dropD simp: sorted_wrt_drop)
        with all s1 False' same_log_fields [OF s1(1)] show ?thesis
          by (auto intro: same_log_trans)
      qed
    qed
  qed
qed

lemma read_loop_fresh:
  assumes st: "\<forall>e\<in>set es. entry_stored s d e \<and> offset \<le> ie_last_offset e" and a: "0 < pl_alignment s"
    and srt: "sorted_wrt (entry_before (pl_alignment s)) es"
  shows "\<exists>s'. same_log s s' \<and> read_loop d offset ve limit es [] s =
     (Inr (concat (map (entry_payload s d)
        (admit_first limit (takeWhile (\<lambda>e. \<not> entry_hidden ve e) es)))), s')"
proof (cases es)
  case Nil
  then show ?thesis by (intro exI [of _ s]) (simp add: admit_first_def)
next
  case (Cons first rest)
  let ?vis = "takeWhile (\<lambda>e. \<not> entry_hidden ve e)"
  show ?thesis
  proof (cases "entry_hidden ve first")
    case True
    with Cons st show ?thesis by (intro exI [of _ s]) (simp add: admit_first_def)
  next
    case False
    define p where "p = run_prefix ve limit first (length ([] :: bytes) + entry_bytes first) rest"
    let ?r = "[] @ concat (map (entry_payload s d) (first # p))"
    note pre = run_prefix_split [OF p_def]
    have stored: "\<forall>e\<in>set (first # rest). entry_stored s d e" using st Cons by simp
    have sp: "\<forall>e\<in>set (first # p). entry_stored s d e"
      using stored set_take_subset [of "length p" rest] pre(1) by auto
    have len: "length ?r = entry_bytes first + sum_list (map entry_bytes p)"
      using payloads_length [OF sp] by simp
    have ne: "?r \<noteq> []" using len stored_bytes_pos [of s d first] stored by (metis add_gr_0 length_greater_0_conv list.set_intros(1))
    obtain s1 where s1: "same_log s s1" "read_loop d offset ve limit es [] s =
        (if length ?r \<ge> limit then (Inr ?r, s1)
         else read_loop d offset ve limit (drop (length p) rest) ?r s1)"
      using read_loop_run [of first rest s d offset ve "[]" limit] Cons st stored a srt False p_def
      by (auto simp: Let_def)
    have all: "admit_first limit (?vis es) = first # p @ admit limit (length ?r) (?vis (drop (length p) rest))"
      using False Cons pre(2) len by (simp add: admit_first_def)
    show ?thesis
    proof (cases "limit \<le> length ?r")
      case True
      have "admit limit (length ?r) (?vis (drop (length p) rest)) = []"
        using True stored stored_bytes_pos by (intro admit_full) (auto dest!: set_takeWhileD in_set_dropD)
      with all s1 True show ?thesis by (intro exI [of _ s1]) simp
    next
      case False': False
      have "\<exists>s'. same_log s1 s' \<and> read_loop d offset ve limit (drop (length p) rest) ?r s1 =
         (Inr (?r @ concat (map (entry_payload s1 d)
            (admit limit (length ?r) (?vis (drop (length p) rest))))), s')"
        using st a srt Cons ne same_log_fields [OF s1(1)]
        by (intro read_loop_started) (auto dest: in_set_dropD simp: sorted_wrt_drop)
      with all s1 False' same_log_fields [OF s1(1)] show ?thesis
        by (auto intro: same_log_trans)
    qed
  qed
qed

lemma index_ok_sorted_last:
  assumes "index_ok s d"
  shows "sorted_wrt (\<lambda>a b. ie_last_offset a < ie_last_offset b) (pl_index_entries s)"
proof -
  have "\<forall>e\<in>set (pl_index_entries s). ie_base_offset e \<le> ie_last_offset e"
    using assms by (auto simp: index_ok_def list_all_iff entry_stored_def index_entry_ok_def)
  moreover have "sorted_wrt (entry_before (pl_alignment s)) (pl_index_entries s)"
    using assms by (simp add: index_ok_def)
  ultimately show ?thesis
    by (elim sorted_wrt_mono_rel [rotated]) (fastforce simp: entry_before_def)
qed

lemma drop_find_index:
  assumes "index_ok s d"
  shows "drop (find_index_for_offset offset s) (pl_index_entries s) =
         dropWhile (\<lambda>e. ie_last_offset e < offset) (pl_index_entries s)"
proof -
  have "sorted_wrt (\<lambda>a b. ie_last_offset b < offset \<longrightarrow> ie_last_offset a < offset) (pl_index_entries s)"
    by (rule sorted_wrt_mono_rel [OF _ index_ok_sorted_last [OF assms]]) simp
  then show ?thesis
    by (simp add: find_index_for_offset_def lower_bound_takeWhile dropWhile_eq_drop)
qed

lemma dropWhile_reaches:
  assumes "sorted_wrt (\<lambda>a b. ie_last_offset a < ie_last_offset b) es"
    and "e \<in> set (dropWhile (\<lambda>e. ie_last_offset e < offset) es)"
  shows "offset \<le> ie_last_offset e"
  using assms by (induction es) (auto split: if_splits)

lemma read_records_selected:
  assumes "index_ok s d"
  shows "\<exists>s'. same_log s s' \<and> read_records_from_index offset ve limit (s, d) =
     (Inr (concat (map (entry_payload s d) (selected_entries offset ve limit (pl_index_entries s)))), s')"
proof -
  let ?es = "dropWhile (\<lambda>e. ie_last_offset e < offset) (pl_index_entries s)"
  have "\<forall>e\<in>set ?es. entry_stored s d e \<and> offset \<le> ie_last_offset e"
    using assms dropWhile_reaches [OF index_ok_sorted_last [OF assms]] set_dropWhileD
    by (fastforce simp: index_ok_def list_all_iff)
  moreover have "sorted_wrt (entry_before (pl_alignment s)) ?es"
    using assms by (simp add: index_ok_def dropWhile_eq_drop sorted_wrt_drop)
  ultimately show ?thesis
    using read_loop_fresh [of ?es s d offset ve limit] assms
    by (simp add: read_records_from_index_def drop_find_index [OF assms] selected_entries_def)
      (simp add: index_ok_def)
qed

end
