(* ===== verification/Partition_Table.thy ===== *)
theory Partition_Table
  imports Log_Read "HOL-Library.Char_ord" "HOL-Library.List_Lexorder"
begin

text \<open>
  The partition table of a broker shard: a vector sorted by topic and partition, searched with
  \<^verbatim>\<open>std::lower_bound\<close>, and the one-slot cache in front of it. The cached pointer to an element of the
  vector is its position; the pointer to a log, which stays valid when the vector grows, is the
  key of its entry.
\<close>

section \<open>Table\<close>

record TopicPartition =
  tp_topic :: string
  tp_partition :: int

text \<open>\<^verbatim>\<open>TopicPartition::operator<\<close>; the comparison of the two searches is the same.\<close>

definition tp_less :: "TopicPartition \<Rightarrow> TopicPartition \<Rightarrow> bool" where
  "tp_less a b = (if tp_topic a \<noteq> tp_topic b then tp_topic a < tp_topic b else tp_partition a < tp_partition b)"

record 'log PartitionEntry =
  pe_key :: TopicPartition
  pe_log :: 'log

record 'log PartitionTable =
  pt_partitions :: "'log PartitionEntry list"
  pt_hot :: "nat option"

definition hot_hit :: "TopicPartition \<Rightarrow> 'log PartitionTable \<Rightarrow> bool" where
  "hot_hit key t =
     (case pt_hot t of
        None \<Rightarrow> False
      | Some i \<Rightarrow> tp_partition (pe_key (pt_partitions t ! i)) = tp_partition key \<and>
                  tp_topic (pe_key (pt_partitions t ! i)) = tp_topic key)"

definition find_partition_log :: "TopicPartition \<Rightarrow> 'log PartitionTable \<Rightarrow> TopicPartition option \<times> 'log PartitionTable" where
  "find_partition_log key t =
     (if hot_hit key t then (Some (pe_key (pt_partitions t ! the (pt_hot t))), t)
      else let it = lower_bound (\<lambda>entry. tp_less (pe_key entry) key) (pt_partitions t)
           in if it < length (pt_partitions t) \<and> pe_key (pt_partitions t ! it) = key
              then (Some (pe_key (pt_partitions t ! it)), t\<lparr>pt_hot := Some it\<rparr>)
              else (None, t))"

definition emplace_partition_log :: "'log \<Rightarrow> TopicPartition \<Rightarrow> 'log PartitionTable \<Rightarrow> TopicPartition \<times> 'log PartitionTable" where
  "emplace_partition_log new key t =
     (let it = lower_bound (\<lambda>entry. tp_less (pe_key entry) key) (pt_partitions t)
      in if it < length (pt_partitions t) \<and> pe_key (pt_partitions t ! it) = key then (key, t)
         else (key, t\<lparr>pt_hot := None,
                      pt_partitions := take it (pt_partitions t) @ [\<lparr>pe_key = key, pe_log = new\<rparr>] @ drop it (pt_partitions t)\<rparr>))"

text \<open>What a log pointer reads and writes.\<close>

definition table_log :: "'log PartitionTable \<Rightarrow> TopicPartition \<Rightarrow> 'log option" where
  "table_log t = map_of (map (\<lambda>e. (pe_key e, pe_log e)) (pt_partitions t))"

definition set_log :: "TopicPartition \<Rightarrow> 'log \<Rightarrow> 'log PartitionTable \<Rightarrow> 'log PartitionTable" where
  "set_log key log t =
     t\<lparr>pt_partitions := map (\<lambda>e. if pe_key e = key then e\<lparr>pe_log := log\<rparr> else e) (pt_partitions t)\<rparr>"

section \<open>Invariant\<close>

abbreviation table_keys :: "'log PartitionTable \<Rightarrow> TopicPartition list" where
  "table_keys t \<equiv> map pe_key (pt_partitions t)"

definition table_ok :: "'log PartitionTable \<Rightarrow> bool" where
  "table_ok t \<longleftrightarrow> sorted_wrt tp_less (table_keys t) \<and> (\<forall>i. pt_hot t = Some i \<longrightarrow> i < length (pt_partitions t))"

lemma tp_eq_iff: "a = b \<longleftrightarrow> tp_topic a = tp_topic b \<and> tp_partition a = tp_partition b" for a b :: TopicPartition
  by (cases a; cases b) simp

lemma tp_less_irrefl [simp]: "\<not> tp_less a a"
  by (simp add: tp_less_def)

lemma tp_less_trans: "tp_less a b \<Longrightarrow> tp_less b c \<Longrightarrow> tp_less a c"
  by (auto simp: tp_less_def split: if_splits)

lemma tp_less_linear: "\<not> tp_less a b \<Longrightarrow> a \<noteq> b \<Longrightarrow> tp_less b a"
  by (auto simp: tp_less_def tp_eq_iff split: if_splits)

lemma tp_less_asym: "tp_less a b \<Longrightarrow> \<not> tp_less b a"
  using tp_less_trans tp_less_irrefl by blast

lemma table_distinct: "sorted_wrt tp_less ks \<Longrightarrow> distinct ks"
  by (induction ks) auto

text \<open>The search stops at the first key that is not smaller.\<close>

lemma table_search:
  assumes "sorted_wrt tp_less (map pe_key ps)"
  obtains xs ys where "ps = xs @ ys" "lower_bound (\<lambda>e. tp_less (pe_key e) key) ps = length xs"
    "\<forall>e\<in>set xs. tp_less (pe_key e) key" "\<forall>e\<in>set ys. pe_key e \<noteq> key \<longrightarrow> tp_less key (pe_key e)"
    "key \<in> pe_key ` set ps \<longleftrightarrow> ys \<noteq> [] \<and> pe_key (hd ys) = key"
proof -
  let ?P = "\<lambda>e. tp_less (pe_key e) key"
  define xs ys where "xs = takeWhile ?P ps" and "ys = dropWhile ?P ps"
  have srt: "sorted_wrt (\<lambda>x y. tp_less (pe_key x) (pe_key y)) ps" using assms(1) by (simp add: sorted_wrt_map)
  then have "sorted_wrt (\<lambda>x y. ?P y \<longrightarrow> ?P x) ps"
    by (rule sorted_wrt_mono_rel [rotated]) (blast intro: tp_less_trans)
  then have lb: "lower_bound ?P ps = length xs" unfolding xs_def by (rule lower_bound_takeWhile)
  have ps: "ps = xs @ ys" by (simp add: xs_def ys_def)
  have lt: "\<forall>e\<in>set xs. tp_less (pe_key e) key" unfolding xs_def by (auto dest: set_takeWhileD)
  then have out: "key \<notin> pe_key ` set xs" by auto
  show ?thesis
  proof (cases ys)
    case Nil
    with that [OF ps lb lt] out show ?thesis by (simp add: ps)
  next
    case (Cons y zs)
    then have y: "\<not> tp_less (pe_key y) key" using hd_dropWhile [of ?P ps] ys_def by auto
    have z: "\<forall>e\<in>set zs. tp_less (pe_key y) (pe_key e)"
      using srt unfolding ps Cons by (simp add: sorted_wrt_append)
    have yz: "pe_key y = key \<or> tp_less key (pe_key y)" using tp_less_linear y by blast
    with z have "\<forall>e\<in>set zs. tp_less key (pe_key e)" using tp_less_trans by blast
    moreover from this have "key \<notin> pe_key ` set zs" by auto
    ultimately show ?thesis using that [OF ps lb lt] out yz by (auto simp: ps Cons)
  qed
qed

section \<open>The table is a map\<close>

lemma table_log_dom: "table_log t key = None \<longleftrightarrow> key \<notin> set (table_keys t)"
  by (simp add: table_log_def map_of_eq_None_iff image_image)

lemma find_partition_log_ok:
  assumes ok: "table_ok t" and find: "find_partition_log key t = (r, t')"
  shows "table_ok t'" "pt_partitions t' = pt_partitions t" "r = (if key \<in> set (table_keys t) then Some key else None)"
proof -
  let ?ps = "pt_partitions t"
  have "table_ok t' \<and> pt_partitions t' = ?ps \<and> r = (if key \<in> set (table_keys t) then Some key else None)"
  proof (cases "hot_hit key t")
    case True
    then obtain i where i: "pt_hot t = Some i" "pe_key (?ps ! i) = key"
      by (auto simp: hot_hit_def tp_eq_iff split: option.splits)
    then have "i < length ?ps" using ok by (simp add: table_ok_def)
    with i ok find True show ?thesis by (auto simp: find_partition_log_def)
  next
    case False
    have srt: "sorted_wrt tp_less (table_keys t)" using ok by (simp add: table_ok_def)
    obtain xs ys where s: "?ps = xs @ ys" "lower_bound (\<lambda>e. tp_less (pe_key e) key) ?ps = length xs"
      "\<forall>e\<in>set xs. tp_less (pe_key e) key" "\<forall>e\<in>set ys. pe_key e \<noteq> key \<longrightarrow> tp_less key (pe_key e)"
      "key \<in> pe_key ` set ?ps \<longleftrightarrow> ys \<noteq> [] \<and> pe_key (hd ys) = key"
      by (rule table_search [OF srt])
    have "length xs < length ?ps \<and> pe_key (?ps ! length xs) = key \<longleftrightarrow> key \<in> pe_key ` set ?ps"
      unfolding s(5) by (cases ys) (simp_all add: s(1))
    with find False ok show ?thesis
      by (auto simp: find_partition_log_def Let_def s(2) table_ok_def split: if_splits)
  qed
  then show "table_ok t'" "pt_partitions t' = ?ps" "r = (if key \<in> set (table_keys t) then Some key else None)" by auto
qed

lemma emplace_partition_log_ok:
  assumes ok: "table_ok t" and emplace: "emplace_partition_log new key t = (k, t')"
  shows "k = key" "table_ok t'"
    "table_log t' = (if table_log t key = None then (table_log t)(key \<mapsto> new) else table_log t)"
proof -
  let ?ps = "pt_partitions t"
  have srt: "sorted_wrt tp_less (table_keys t)" using ok by (simp add: table_ok_def)
  obtain xs ys where s: "?ps = xs @ ys" "lower_bound (\<lambda>e. tp_less (pe_key e) key) ?ps = length xs"
    "\<forall>e\<in>set xs. tp_less (pe_key e) key" "\<forall>e\<in>set ys. pe_key e \<noteq> key \<longrightarrow> tp_less key (pe_key e)"
    "key \<in> pe_key ` set ?ps \<longleftrightarrow> ys \<noteq> [] \<and> pe_key (hd ys) = key"
    by (rule table_search [OF srt])
  have hit: "length xs < length ?ps \<and> pe_key (?ps ! length xs) = key \<longleftrightarrow> key \<in> pe_key ` set ?ps"
    unfolding s(5) by (cases ys) (simp_all add: s(1))
  show "k = key" using emplace by (auto simp: emplace_partition_log_def Let_def split: if_splits)
  have "table_ok t' \<and> table_log t' = (if table_log t key = None then (table_log t)(key \<mapsto> new) else table_log t)"
  proof (cases "key \<in> pe_key ` set ?ps")
    case True
    with emplace hit s(2) have "t' = t" by (simp add: emplace_partition_log_def Let_def)
    with ok True show ?thesis by (auto simp: table_log_dom)
  next
    case False
    with emplace hit s(2) have t': "t' = t\<lparr>pt_hot := None, pt_partitions := xs @ [\<lparr>pe_key = key, pe_log = new\<rparr>] @ ys\<rparr>"
      by (auto simp: emplace_partition_log_def Let_def) (simp_all add: s(1))
    have ne: "\<forall>e\<in>set ys. tp_less key (pe_key e)" using s(4) False by (auto simp: s(1))
    then have "table_ok t'"
      using ok s(3) tp_less_trans [of _ key] by (auto simp: table_ok_def t' s(1) sorted_wrt_append)
    moreover have "table_log t' = (table_log t)(key \<mapsto> new)"
    proof -
      have "map_of (map (\<lambda>e. (pe_key e, pe_log e)) xs) key = None"
        using False by (auto simp: s(1) map_of_eq_None_iff)
      then show ?thesis
        by (auto simp: fun_eq_iff table_log_def t' s(1) map_add_def split: option.splits)
    qed
    moreover have "table_log t key = None" using False by (simp add: table_log_dom)
    ultimately show ?thesis by simp
  qed
  then show "table_ok t'" "table_log t' = (if table_log t key = None then (table_log t)(key \<mapsto> new) else table_log t)"
    by auto
qed

lemma set_log_ok:
  shows "table_ok t \<Longrightarrow> table_ok (set_log key log t)"
    "table_log (set_log key log t) = (if table_log t key = None then table_log t else (table_log t)(key \<mapsto> log))"
proof -
  have keys: "table_keys (set_log key log t) = table_keys t"
    by (simp add: set_log_def comp_def if_distrib)
  then show "table_ok t \<Longrightarrow> table_ok (set_log key log t)" by (simp add: table_ok_def) (simp add: set_log_def)
  have upd: "map_of (map (\<lambda>e. (pe_key e, pe_log e)) (map (\<lambda>e. if pe_key e = key then e\<lparr>pe_log := log\<rparr> else e) ps)) x =
      (if x = key \<and> key \<in> pe_key ` set ps then Some log else map_of (map (\<lambda>e. (pe_key e, pe_log e)) ps) x)"
    for ps and x
    by (induction ps) auto
  show "table_log (set_log key log t) = (if table_log t key = None then table_log t else (table_log t)(key \<mapsto> log))"
    unfolding table_log_dom by (simp add: fun_eq_iff table_log_def set_log_def upd del: map_map)
qed

section \<open>The contract of the table\<close>

text \<open>What the broker relies on, and what follows from it for any sequence of calls.\<close>

datatype ('k, 'v) table_call = Find 'k | Emplace 'k 'v | Store 'k 'v

fun map_call :: "('k, 'v) table_call \<Rightarrow> ('k \<rightharpoonup> 'v) \<Rightarrow> 'k option \<times> ('k \<rightharpoonup> 'v)" where
  "map_call (Find k) m = (if m k = None then None else Some k, m)"
| "map_call (Emplace k v) m = (Some k, if m k = None then m(k \<mapsto> v) else m)"
| "map_call (Store k v) m = (None, if m k = None then m else m(k \<mapsto> v))"

locale keyed_store =
  fixes inv :: "'t \<Rightarrow> bool"
    and lookup :: "'t \<Rightarrow> 'k \<Rightarrow> 'v option"
    and find :: "'k \<Rightarrow> 't \<Rightarrow> 'k option \<times> 't"
    and emplace :: "'v \<Rightarrow> 'k \<Rightarrow> 't \<Rightarrow> 'k \<times> 't"
    and store :: "'k \<Rightarrow> 'v \<Rightarrow> 't \<Rightarrow> 't"
  assumes find_inv: "inv t \<Longrightarrow> inv (snd (find k t))"
    and find_lookup: "inv t \<Longrightarrow> lookup (snd (find k t)) = lookup t"
    and find_result: "inv t \<Longrightarrow> fst (find k t) = (if lookup t k = None then None else Some k)"
    and emplace_inv: "inv t \<Longrightarrow> inv (snd (emplace v k t))"
    and emplace_lookup: "inv t \<Longrightarrow>
          lookup (snd (emplace v k t)) = (if lookup t k = None then (lookup t)(k \<mapsto> v) else lookup t)"
    and emplace_result: "inv t \<Longrightarrow> fst (emplace v k t) = k"
    and store_inv: "inv t \<Longrightarrow> inv (store k v t)"
    and store_lookup: "inv t \<Longrightarrow>
          lookup (store k v t) = (if lookup t k = None then lookup t else (lookup t)(k \<mapsto> v))"
begin

fun call :: "('k, 'v) table_call \<Rightarrow> 't \<Rightarrow> 'k option \<times> 't" where
  "call (Find k) t = find k t"
| "call (Emplace k v) t = (let (k', t') = emplace v k t in (Some k', t'))"
| "call (Store k v) t = (None, store k v t)"

lemma call_refines:
  assumes "inv t"
  shows "inv (snd (call c t))" "map_call c (lookup t) = (fst (call c t), lookup (snd (call c t)))"
  using assms by (cases c; simp add: find_inv find_lookup find_result emplace_inv emplace_lookup emplace_result
      store_inv store_lookup case_prod_beta)+

fun calls :: "('k, 'v) table_call list \<Rightarrow> 't \<Rightarrow> 'k option list \<times> 't" where
  "calls [] t = ([], t)"
| "calls (c # cs) t = (let (r, t1) = call c t; (rs, t2) = calls cs t1 in (r # rs, t2))"

fun map_calls :: "('k, 'v) table_call list \<Rightarrow> ('k \<rightharpoonup> 'v) \<Rightarrow> 'k option list \<times> ('k \<rightharpoonup> 'v)" where
  "map_calls [] m = ([], m)"
| "map_calls (c # cs) m = (let (r, m1) = map_call c m; (rs, m2) = map_calls cs m1 in (r # rs, m2))"

lemma calls_refine:
  "inv t \<Longrightarrow> inv (snd (calls cs t)) \<and> map_calls cs (lookup t) = (fst (calls cs t), lookup (snd (calls cs t)))"
proof (induction cs arbitrary: t)
  case (Cons c cs)
  from call_refines [OF Cons.prems, of c] Cons.IH [of "snd (call c t)"] show ?case
    by (simp add: case_prod_beta Let_def)
qed simp

text \<open>Entering a list of keys keeps the logs that are there and adds a new one for every other key.\<close>

lemma emplace_all:
  "inv t \<Longrightarrow> inv (fold (\<lambda>k t. snd (emplace v k t)) ks t) \<and>
   lookup (fold (\<lambda>k t. snd (emplace v k t)) ks t) k =
     (if lookup t k = None \<and> k \<in> set ks then Some v else lookup t k)"
proof (induction ks arbitrary: t)
  case (Cons k' ks)
  from Cons.IH [OF emplace_inv [OF Cons.prems, of v k']] show ?case
    by (auto simp: emplace_lookup Cons.prems)
qed simp

end

interpretation partitions: keyed_store table_ok table_log find_partition_log emplace_partition_log set_log
proof unfold_locales
  fix t :: "'a PartitionTable" and k v
  assume ok: "table_ok t"
  obtain r t' where f: "find_partition_log k t = (r, t')" by (cases "find_partition_log k t")
  note find_partition_log_ok [OF ok f]
  then show "table_ok (snd (find_partition_log k t))" "table_log (snd (find_partition_log k t)) = table_log t"
    "fst (find_partition_log k t) = (if table_log t k = None then None else Some k)"
    unfolding f table_log_dom by (auto simp: table_log_def)
  obtain k' t2 where e: "emplace_partition_log v k t = (k', t2)" by (cases "emplace_partition_log v k t")
  note emplace_partition_log_ok [OF ok e]
  then show "table_ok (snd (emplace_partition_log v k t))" "fst (emplace_partition_log v k t) = k"
    "table_log (snd (emplace_partition_log v k t)) = (if table_log t k = None then (table_log t)(k \<mapsto> v) else table_log t)"
    unfolding e by auto
  show "table_ok (set_log k v t)"
    "table_log (set_log k v t) = (if table_log t k = None then table_log t else (table_log t)(k \<mapsto> v))"
    by (rule set_log_ok(1) [OF ok], rule set_log_ok(2))
qed

definition empty_table :: "'log PartitionTable" where
  "empty_table = \<lparr>pt_partitions = [], pt_hot = None\<rparr>"

lemma empty_table_ok: "table_ok empty_table" "table_log empty_table = Map.empty"
  by (simp_all add: empty_table_def table_ok_def table_log_def)

text \<open>
  C17: the partition table behaves as a map from topic and partition to the log. Whatever lookups,
  insertions and updates of logs come after each other, each lookup answers what the map
  answers: the sorted vector, the binary search and the cached pointer are not observable, and
  the cached pointer always points into the vector.
\<close>

theorem partition_table_is_map:
  assumes "table_ok t"
  shows "table_ok (snd (partitions.calls cs t)) \<and>
    partitions.map_calls cs (table_log t) = (fst (partitions.calls cs t), table_log (snd (partitions.calls cs t)))"
  by (rule partitions.calls_refine [OF assms])

theorem partition_table_is_map_witness:
  "fst (partitions.calls
     [Emplace \<lparr>tp_topic = ''b'', tp_partition = 0\<rparr> (1 :: nat), Find \<lparr>tp_topic = ''b'', tp_partition = 0\<rparr>,
      Emplace \<lparr>tp_topic = ''a'', tp_partition = 7\<rparr> 2, Find \<lparr>tp_topic = ''b'', tp_partition = 0\<rparr>,
      Find \<lparr>tp_topic = ''b'', tp_partition = 1\<rparr>] empty_table) =
   [Some \<lparr>tp_topic = ''b'', tp_partition = 0\<rparr>, Some \<lparr>tp_topic = ''b'', tp_partition = 0\<rparr>,
    Some \<lparr>tp_topic = ''a'', tp_partition = 7\<rparr>, Some \<lparr>tp_topic = ''b'', tp_partition = 0\<rparr>, None]"
proof -
  let ?cs = "[Emplace \<lparr>tp_topic = ''b'', tp_partition = 0\<rparr> (1 :: nat), Find \<lparr>tp_topic = ''b'', tp_partition = 0\<rparr>,
      Emplace \<lparr>tp_topic = ''a'', tp_partition = 7\<rparr> 2, Find \<lparr>tp_topic = ''b'', tp_partition = 0\<rparr>,
      Find \<lparr>tp_topic = ''b'', tp_partition = 1\<rparr>]"
  have "fst (partitions.calls ?cs empty_table) = fst (partitions.map_calls ?cs (table_log empty_table))"
    by (simp only: conjunct2 [OF partition_table_is_map [OF empty_table_ok(1), of ?cs]] fst_conv)
  then show ?thesis by (simp add: empty_table_ok)
qed

end
