(* ===== verification/Log_Append.thy ===== *)
theory Log_Append
  imports Log_Read
begin

text \<open>
  The invariant of a partition log and its disk, and that appends keep it. The abstract state
  of a log is the sequence of record sets with their base offsets; an append that is admitted
  adds one record set at the end of it, for leaders and followers alike, which is the contract
  \<open>append_only_log\<close>.
\<close>

section \<open>The invariant\<close>

definition log_contents :: "PartitionLog \<Rightarrow> disk \<Rightarrow> (int \<times> bytes) list" where
  "log_contents s d = map (\<lambda>e. (ie_base_offset e, entry_payload s d e)) (pl_index_entries s)"

text \<open>The entries tile the offsets from the first to the last without gap or overlap.\<close>

fun covers :: "int \<Rightarrow> IndexEntry list \<Rightarrow> int \<Rightarrow> bool" where
  "covers from [] to \<longleftrightarrow> from = to"
| "covers from (e # es) to \<longleftrightarrow> ie_base_offset e = from \<and> ie_base_offset e \<le> ie_last_offset e \<and>
     covers (ie_last_offset e + 1) es to"

definition dma_aligned :: "nat \<Rightarrow> PartitionLog \<Rightarrow> bool" where
  "dma_aligned dma s \<longleftrightarrow>
     pl_alignment s = max 1 dma \<and> pl_index_entry_size s = round_up kIndexEntryPayloadSize (max 1 dma)"

text \<open>What holds of the files and the index when the next record set gets offset \<open>next\<close>.\<close>

definition store_ok :: "nat \<Rightarrow> PartitionLog \<Rightarrow> disk \<Rightarrow> int \<Rightarrow> bool" where
  "store_ok dma s d nxt \<longleftrightarrow>
     index_ok s d \<and> dma_aligned dma s \<and> pl_file_open s \<and> pl_index_open s \<and>
     covers (pl_earliest s) (pl_index_entries s) nxt \<and>
     0 \<le> pl_active_base s \<and> pl_active_base s \<le> nxt \<and>
     (0 < pl_write_position s \<longrightarrow> pl_active_base s < nxt) \<and>
     (\<forall>e\<in>set (pl_index_entries s). 0 \<le> ie_segment_base e \<and> ie_segment_base e \<le> pl_active_base s) \<and>
     map_of d (segment_path s (pl_active_base s)) \<noteq> None \<and>
     length (file_contents d (segment_path s (pl_active_base s))) = pl_write_position s \<and>
     (\<forall>b>pl_active_base s. map_of d (segment_path s b) = None)"

definition log_ok :: "nat \<Rightarrow> PartitionLog \<Rightarrow> disk \<Rightarrow> bool" where
  "log_ok dma s d \<longleftrightarrow>
     store_ok dma s d (pl_latest s) \<and> 0 \<le> pl_earliest s \<and>
     pl_high_watermark s \<le> pl_latest s"

section \<open>Files\<close>

lemma map_of_create_file:
  "map_of (create_file name d) n =
     (if n = name \<and> map_of d name = None then Some [] else map_of d n)"
  by (auto simp: create_file_def update_conv' split: option.splits)

lemma map_of_write_file:
  "map_of (write_file name pos bs d) n =
     (if n = name then Some (dma_write (file_contents d name) pos bs) else map_of d n)"
  by (simp add: write_file_def update_conv')

lemma file_contents_create_file [simp]: "file_contents (create_file name d) n = file_contents d n"
  by (auto simp: file_contents_def map_of_create_file split: option.splits)

lemma file_contents_write_file:
  "file_contents (write_file name pos bs d) n =
     (if n = name then dma_write (file_contents d name) pos bs else file_contents d n)"
  by (simp add: file_contents_def map_of_write_file)

lemma segment_name_inject:
  assumes "segment_name c b = segment_name c b'" "0 \<le> b" "0 \<le> b'"
  shows "b = b'"
proof -
  have "setw_zero 20 (to_string_int b) = setw_zero 20 (to_string_int b')"
    using assms(1) by (simp add: segment_name_def)
  then have "nat b = nat b'" using setw_zero_nat(3) assms(2,3) by metis
  with assms show ?thesis by simp
qed

lemma segment_path_inject: "0 \<le> b \<Longrightarrow> 0 \<le> b' \<Longrightarrow> segment_path s b = segment_path s b' \<longleftrightarrow> b = b'"
  by (auto simp: segment_path_def dest: segment_name_inject)

lemma segment_path_not_index: "segment_path s b \<noteq> index_path s"
proof
  assume "segment_path s b = index_path s"
  then have "last (butlast (segment_path s b)) = last (butlast (index_path s))" by simp
  then show False
    by (simp add: segment_path_def segment_name_def index_path_def butlast_append)
qed

section \<open>Stored entries survive\<close>

lemma chunk_append: "pos + n \<le> length xs \<Longrightarrow> chunk (xs @ ys) pos n = chunk xs pos n"
  by (simp add: chunk_def)

lemma entry_stored_extend:
  assumes st: "entry_stored s d e" and a: "0 < pl_alignment s"
    and same: "pl_alignment s' = pl_alignment s" "segment_path s' = segment_path s"
    and f: "entry_file s' d' e = entry_file s d e @ x"
    and ex: "map_of d' (segment_path s' (ie_segment_base e)) \<noteq> None"
  shows "entry_stored s' d' e \<and> entry_payload s' d' e = entry_payload s d e"
proof -
  have ext: "ie_segment_position e + entry_frame_size (pl_alignment s) e \<le> length (entry_file s d e)"
    by (rule entry_stored_extent [OF st a])
  have "20 + entry_bytes e \<le> entry_frame_size (pl_alignment s) e"
    using frame_size_ge [OF a] by (simp add: entry_frame_size_eq)
  with ext have "entry_payload s' d' e = entry_payload s d e"
    unfolding entry_payload_def f by (intro chunk_append) linarith
  moreover have "chunk (entry_file s' d' e) (ie_segment_position e) (entry_frame_size (pl_alignment s) e) =
      chunk (entry_file s d e) (ie_segment_position e) (entry_frame_size (pl_alignment s) e)"
    unfolding f by (intro chunk_append ext)
  ultimately show ?thesis
    using st same ex by (simp add: entry_stored_def)
qed

lemma index_ok_extend:
  assumes ok: "index_ok s d"
    and same: "pl_alignment s' = pl_alignment s" "segment_path s' = segment_path s"
      "pl_index_entries s' = pl_index_entries s"
    and ext: "\<forall>e\<in>set (pl_index_entries s). \<exists>x. entry_file s' d' e = entry_file s d e @ x"
    and ex: "\<forall>e\<in>set (pl_index_entries s). map_of d' (segment_path s (ie_segment_base e)) \<noteq> None"
  shows "index_ok s' d' \<and> log_contents s' d' = log_contents s d"
proof -
  have a: "0 < pl_alignment s" using ok by (simp add: index_ok_def)
  have "entry_stored s' d' e \<and> entry_payload s' d' e = entry_payload s d e"
    if e: "e \<in> set (pl_index_entries s)" for e
  proof -
    obtain x where "entry_file s' d' e = entry_file s d e @ x" using ext e by blast
    moreover have "entry_stored s d e" using ok e by (simp add: index_ok_def list_all_iff)
    ultimately show ?thesis
      using entry_stored_extend [OF _ a same(1,2)] ex e same(2) by auto
  qed
  then show ?thesis
    using ok same by (simp add: index_ok_def list_all_iff log_contents_def)
qed

lemma covers_snoc:
  "covers from (es @ [e]) to \<longleftrightarrow>
     covers from es (ie_base_offset e) \<and> ie_base_offset e \<le> ie_last_offset e \<and> to = ie_last_offset e + 1"
  by (induction es arbitrary: "from") auto

lemma covers_le: "covers from es to \<Longrightarrow> from \<le> to"
  by (induction es arbitrary: "from") fastforce+

lemma covers_last: "covers from es to \<Longrightarrow> e \<in> set es \<Longrightarrow> from \<le> ie_base_offset e \<and> ie_last_offset e < to"
  by (induction es arbitrary: "from") (use covers_le in fastforce)+

section \<open>Choosing the segment\<close>

text \<open>The fields a write never touches.\<close>

definition same_meta :: "PartitionLog \<Rightarrow> PartitionLog \<Rightarrow> bool" where
  "same_meta s s' \<longleftrightarrow>
     pl_config s' = pl_config s \<and> pl_segment_bytes s' = pl_segment_bytes s \<and> pl_offsets s' = pl_offsets s \<and>
     pl_queue_depth s' = pl_queue_depth s \<and> pl_degraded s' = pl_degraded s \<and>
     pl_replica_lag s' = pl_replica_lag s"

lemma same_meta_refl [simp]: "same_meta s s"
  by (simp add: same_meta_def)

lemma same_meta_trans: "same_meta s t \<Longrightarrow> same_meta t u \<Longrightarrow> same_meta s u"
  by (simp add: same_meta_def)

lemma segment_path_cong: "pl_config s' = pl_config s \<Longrightarrow> segment_path s' = segment_path s"
  by (simp add: segment_path_def fun_eq_iff)

lemma index_path_cong: "pl_config s' = pl_config s \<Longrightarrow> index_path s' = index_path s"
  by (simp add: index_path_def)

lemma rollover_ok:
  assumes ok: "store_ok dma s d nxt" and wp: "0 < pl_write_position s"
    and roll: "rollover dma nxt (s, d) = (s', d')"
  shows "store_ok dma s' d' nxt \<and> log_contents s' d' = log_contents s d \<and>
         pl_index_entries s' = pl_index_entries s \<and> same_meta s s' \<and> pl_write_position s' = 0"
proof -
  define s1 where "s1 = s\<lparr>pl_file_open := False,
      pl_segment_cache := pl_active_base s # take (kSegmentCacheMax - 1) (pl_segment_cache s),
      pl_active_base := nxt, pl_write_position := 0\<rparr>"
  have path: "segment_path s1 = segment_path s" by (rule segment_path_cong) (simp add: s1_def)
  have s': "s' = (update_dma_alignment dma s1)\<lparr>pl_file_open := True\<rparr>"
    and d': "d' = create_file (segment_path s nxt) d"
    using ok wp roll path
    by (auto simp: store_ok_def rollover_def open_active_segment_def s1_def)
  have path': "segment_path s' = segment_path s"
    by (rule segment_path_cong) (simp add: s' update_dma_alignment_def s1_def)
  have lt: "pl_active_base s < nxt" using ok wp by (simp add: store_ok_def)
  then have absent: "map_of d (segment_path s nxt) = None" using ok by (simp add: store_ok_def)
  have same: "pl_alignment s' = pl_alignment s" "pl_index_entries s' = pl_index_entries s"
    using ok by (simp_all add: s' update_dma_alignment_def s1_def store_ok_def dma_aligned_def)
  have "index_ok s' d' \<and> log_contents s' d' = log_contents s d"
  proof (rule index_ok_extend)
    show "\<forall>e\<in>set (pl_index_entries s). \<exists>x. entry_file s' d' e = entry_file s d e @ x"
      by (simp add: entry_file_def path' d')
    show "\<forall>e\<in>set (pl_index_entries s). map_of d' (segment_path s (ie_segment_base e)) \<noteq> None"
      using ok by (auto simp: d' map_of_create_file store_ok_def index_ok_def list_all_iff entry_stored_def)
  qed (use ok same path' in \<open>simp_all add: store_ok_def\<close>)
  moreover have "map_of d' (segment_path s b) = None" if "nxt < b" for b
    using ok lt that segment_path_inject [of b nxt s] absent
    by (auto simp: d' map_of_create_file store_ok_def)
  moreover have "map_of d' (segment_path s nxt) = Some []"
    by (simp add: d' map_of_create_file absent)
  ultimately show ?thesis
    using ok lt same path'
    by (auto simp: store_ok_def s' s1_def update_dma_alignment_def dma_aligned_def same_meta_def file_contents_def)
qed

lemma ensure_segment_ok:
  assumes ok: "store_ok dma s d nxt"
    and ens: "ensure_segment_for_write dma nxt frame_size (s, d) = (s', d')"
  shows "store_ok dma s' d' nxt \<and> log_contents s' d' = log_contents s d \<and>
         pl_index_entries s' = pl_index_entries s \<and> same_meta s s'"
proof (cases "pl_write_position s = 0 \<or> pl_write_position s + frame_size \<le> pl_segment_bytes s")
  case True
  with ok ens show ?thesis by (auto simp: ensure_segment_for_write_def store_ok_def)
next
  case False
  with ok ens have "rollover dma nxt (s, d) = (s', d')"
    by (simp add: ensure_segment_for_write_def store_ok_def split: if_splits)
  with rollover_ok [OF ok] False show ?thesis by simp
qed

section \<open>Writing a record set\<close>

lemma note_index_entry_fields [simp]:
  "pl_index_entries (note_index_entry e s) = pl_index_entries s @ [e]"
  "pl_config (note_index_entry e s) = pl_config s" "pl_offsets (note_index_entry e s) = pl_offsets s"
  "pl_segment_bytes (note_index_entry e s) = pl_segment_bytes s"
  "pl_queue_depth (note_index_entry e s) = pl_queue_depth s"
  "pl_active_base (note_index_entry e s) = pl_active_base s"
  "pl_write_position (note_index_entry e s) = pl_write_position s"
  "pl_alignment (note_index_entry e s) = pl_alignment s"
  "pl_index_entry_size (note_index_entry e s) = pl_index_entry_size s"
  "pl_degraded (note_index_entry e s) = pl_degraded s"
  "pl_replica_lag (note_index_entry e s) = pl_replica_lag s"
  "pl_file_open (note_index_entry e s) = pl_file_open s"
  "pl_index_open (note_index_entry e s) = pl_index_open s"
  "pl_index_position (note_index_entry e s) = pl_index_position s"
  "pl_index_gate_closed (note_index_entry e s) = pl_index_gate_closed s"
  by (simp_all add: note_index_entry_def Let_def)

text \<open>The sizes at which the file format still holds: 31-bit record sets, 63-bit positions.\<close>

definition write_fits :: "PartitionLog \<Rightarrow> int \<Rightarrow> bytes \<Rightarrow> bool" where
  "write_fits s nxt records \<longleftrightarrow>
     records \<noteq> [] \<and> length records < 2 ^ 31 \<and> i64 nxt \<and> i64 (nxt + estimate_record_count records) \<and>
     pl_write_position s < 2 ^ 63"

text \<open>The index entry of the next record set.\<close>

definition next_entry :: "PartitionLog \<Rightarrow> int \<Rightarrow> bytes \<Rightarrow> IndexEntry" where
  "next_entry s nxt records =
     \<lparr>ie_base_offset = nxt, ie_last_offset = nxt + estimate_record_count records - 1,
      ie_segment_base = pl_active_base s, ie_segment_position = pl_write_position s,
      ie_record_bytes = int (length records)\<rparr>"

lemma next_entry_fields [simp]:
  "ie_base_offset (next_entry s nxt records) = nxt"
  "ie_last_offset (next_entry s nxt records) = nxt + estimate_record_count records - 1"
  "ie_segment_base (next_entry s nxt records) = pl_active_base s"
  "ie_segment_position (next_entry s nxt records) = pl_write_position s"
  "ie_record_bytes (next_entry s nxt records) = int (length records)"
  by (simp_all add: next_entry_def)

abbreviation next_frame :: "PartitionLog \<Rightarrow> int \<Rightarrow> bytes \<Rightarrow> bytes" where
  "next_frame s nxt records \<equiv> log_frame (pl_alignment s) (record_set_of nxt records)"

abbreviation active_path :: "PartitionLog \<Rightarrow> string" where
  "active_path s \<equiv> segment_path s (pl_active_base s)"

lemma estimate_pos: "records \<noteq> [] \<Longrightarrow> 1 \<le> estimate_record_count records"
  using estimate_record_count_nonneg [of records] estimate_record_count_zero [of records] by simp

text \<open>What a submitted and completed write does to the state and to the disk.\<close>

lemma complete_write_effect:
  assumes ok: "store_ok dma s d nxt" and fits: "write_fits s nxt records"
    and sub: "submit_write (record_set_of nxt records) (next_frame s nxt records) s = (Inr w, s1)"
    and com: "complete_write w (s1, d) = (s2, d2)"
  shows "same_meta s s2" "pl_index_entries s2 = pl_index_entries s @ [next_entry s nxt records]"
    "pl_config s2 = pl_config s" "pl_alignment s2 = pl_alignment s"
    "pl_index_entry_size s2 = pl_index_entry_size s" "pl_file_open s2 = pl_file_open s"
    "pl_index_open s2 = pl_index_open s" "pl_active_base s2 = pl_active_base s"
    "pl_write_position s2 = pl_write_position s + length (next_frame s nxt records)"
    "pl_index_position s2 = pl_index_position s + pl_index_entry_size s"
    "pl_index_gate_closed s2 = pl_index_gate_closed s"
    and "d2 = (let d1 = write_file (active_path s) (pl_write_position s) (next_frame s nxt records) d
               in if pl_index_gate_closed s then d1
                  else write_file (index_path s) (pl_index_position s)
                         (encode_index_entry (pl_index_entry_size s) (next_entry s nxt records)) d1)"
proof -
  have "i32 (int (length records))" using fits by (simp add: write_fits_def i32_def)
  then have w: "w = \<lparr>sw_entry = next_entry s nxt records, sw_path = active_path s, sw_frame = next_frame s nxt records\<rparr>"
    and s1: "s1 = s\<lparr>pl_write_position := pl_write_position s + length (next_frame s nxt records)\<rparr>"
    using sub ok fits estimate_pos [of records]
    by (auto simp: submit_write_def record_set_of_def Let_def store_ok_def next_entry_def write_fits_def)
  have idx: "pl_index_open s" using ok by (simp add: store_ok_def)
  show "same_meta s s2" "pl_index_entries s2 = pl_index_entries s @ [next_entry s nxt records]"
    "pl_config s2 = pl_config s" "pl_alignment s2 = pl_alignment s"
    "pl_index_entry_size s2 = pl_index_entry_size s" "pl_file_open s2 = pl_file_open s"
    "pl_index_open s2 = pl_index_open s" "pl_active_base s2 = pl_active_base s"
    "pl_write_position s2 = pl_write_position s + length (next_frame s nxt records)"
    "pl_index_position s2 = pl_index_position s + pl_index_entry_size s"
    "pl_index_gate_closed s2 = pl_index_gate_closed s"
    using com idx
    by (auto simp: complete_write_def schedule_index_entry_write_def w s1 Let_def same_meta_def split: if_splits)
  show "d2 = (let d1 = write_file (active_path s) (pl_write_position s) (next_frame s nxt records) d
               in if pl_index_gate_closed s then d1
                  else write_file (index_path s) (pl_index_position s)
                         (encode_index_entry (pl_index_entry_size s) (next_entry s nxt records)) d1)"
    using com idx
    by (auto simp: complete_write_def schedule_index_entry_write_def w s1 Let_def index_path_def split: if_splits)
qed

lemma complete_write_files:
  assumes ok: "store_ok dma s d nxt"
    and d2: "d2 = (let d1 = write_file (active_path s) (pl_write_position s) frame d
               in if gate then d1 else write_file (index_path s) pos bs d1)"
  shows "map_of d2 (segment_path s b) =
      (if segment_path s b = active_path s then Some (file_contents d (active_path s) @ frame)
       else map_of d (segment_path s b))"
    and "file_contents d2 (segment_path s b) =
      (if segment_path s b = active_path s then file_contents d (active_path s) @ frame
       else file_contents d (segment_path s b))"
proof -
  have wp: "pl_write_position s = length (file_contents d (active_path s))" using ok by (simp add: store_ok_def)
  show m: "map_of d2 (segment_path s b) =
      (if segment_path s b = active_path s then Some (file_contents d (active_path s) @ frame)
       else map_of d (segment_path s b))"
    by (simp add: d2 Let_def map_of_write_file segment_path_not_index dma_write_end wp)
  show "file_contents d2 (segment_path s b) =
      (if segment_path s b = active_path s then file_contents d (active_path s) @ frame
       else file_contents d (segment_path s b))"
    using m by (simp add: file_contents_def)
qed

lemma store_frame_ok:
  assumes ok: "store_ok dma s d nxt" and fits: "write_fits s nxt records"
    and s': "pl_config s' = pl_config s" "pl_alignment s' = pl_alignment s"
    and d': "map_of d' (active_path s) = Some (file_contents d (active_path s) @ next_frame s nxt records)"
  shows "entry_stored s' d' (next_entry s nxt records) \<and> entry_payload s' d' (next_entry s nxt records) = records"
proof -
  let ?e = "next_entry s nxt records"
  let ?rs = "record_set_of nxt records"
  have a: "0 < pl_alignment s" using ok by (simp add: store_ok_def index_ok_def)
  have path: "segment_path s' = segment_path s" by (rule segment_path_cong [OF s'(1)])
  have wp: "pl_write_position s = length (file_contents d (active_path s))"
    using ok by (simp add: store_ok_def)
  have rs: "rs_bytes ?rs = records" "rs_base_offset ?rs = nxt" by (simp_all add: record_set_of_def Let_def)
  have bytes: "entry_bytes ?e = length records"
    using fits by (simp add: entry_bytes_def cast_u64_def write_fits_def)
  have file_eq: "entry_file s' d' ?e = file_contents d (active_path s) @ next_frame s nxt records"
    by (simp add: entry_file_def path file_contents_def d')
  have payload: "entry_payload s' d' ?e = records"
    using log_frame_payload [of "pl_alignment s" ?rs "[]"]
    by (simp add: entry_payload_def file_eq bytes wp rs chunk_def)
  have "chunk (entry_file s' d' ?e) (ie_segment_position ?e) (entry_frame_size (pl_alignment s) ?e) =
      next_frame s nxt records"
    using length_log_frame [OF a, of ?rs]
    by (simp add: file_eq wp rs chunk_def entry_frame_size_eq bytes)
  also have "\<dots> = log_frame (pl_alignment s) \<lparr>rs_base_offset = ie_base_offset ?e,
      rs_last_offset = ie_last_offset ?e, rs_bytes = records\<rparr>"
    by (simp add: log_frame_def Let_def rs)
  finally have "chunk (entry_file s' d' ?e) (ie_segment_position ?e) (entry_frame_size (pl_alignment s) ?e) = \<dots>" .
  moreover have "index_entry_ok ?e"
    using ok fits estimate_pos [of records] by (auto simp: index_entry_ok_def write_fits_def store_ok_def i64_def i32_def)
  ultimately show ?thesis
    using payload bytes d' s'(2) path by (simp add: entry_stored_def)
qed

lemma next_entry_after:
  assumes ok: "store_ok dma s d nxt" and x: "x \<in> set (pl_index_entries s)"
  shows "entry_before (pl_alignment s) x (next_entry s nxt records)"
proof -
  have idx: "index_ok s d" "pl_write_position s = length (file_contents d (active_path s))"
    using ok by (simp_all add: store_ok_def)
  have "ie_last_offset x < nxt" using ok covers_last x by (auto simp: store_ok_def)
  moreover have "ie_segment_position x + entry_frame_size (pl_alignment s) x \<le> pl_write_position s"
    if "ie_segment_base x = pl_active_base s"
  proof -
    have "entry_file s d x = file_contents d (active_path s)" using that by (simp add: entry_file_def)
    with idx entry_stored_extent [of s d x] x show ?thesis
      by (simp add: index_ok_def list_all_iff)
  qed
  ultimately show ?thesis by (simp add: entry_before_def)
qed

lemma index_ok_snoc:
  assumes "pl_index_entries s = es @ [e]" "index_ok (s\<lparr>pl_index_entries := es\<rparr>) d" "entry_stored s d e"
    and "\<forall>x\<in>set es. entry_before (pl_alignment s) x e"
  shows "index_ok s d \<and> log_contents s d = log_contents (s\<lparr>pl_index_entries := es\<rparr>) d @ [(ie_base_offset e, entry_payload s d e)]"
proof -
  have "entry_stored (s\<lparr>pl_index_entries := es\<rparr>) d = entry_stored s d"
    "entry_payload (s\<lparr>pl_index_entries := es\<rparr>) d = entry_payload s d"
    by (simp_all add: fun_eq_iff segment_path_def entry_stored_def entry_payload_def entry_file_def)
  with assms show ?thesis
    by (simp add: index_ok_def list_all_iff sorted_wrt_append log_contents_def)
qed

lemma complete_write_ok:
  assumes ok: "store_ok dma s d nxt" and fits: "write_fits s nxt records"
    and sub: "submit_write (record_set_of nxt records) (next_frame s nxt records) s = (Inr w, s1)"
    and com: "complete_write w (s1, d) = (s2, d2)"
  shows "store_ok dma s2 d2 (nxt + estimate_record_count records) \<and>
         log_contents s2 d2 = log_contents s d @ [(nxt, records)] \<and> same_meta s s2"
proof -
  let ?e = "next_entry s nxt records"
  note eff = complete_write_effect [OF ok fits sub com]
  note files = complete_write_files [OF ok eff(12)]
  have idxok: "index_ok s d" using ok by (simp add: store_ok_def)
  have path: "segment_path s2 = segment_path s" by (rule segment_path_cong [OF eff(3)])
  define s0 where "s0 = s2\<lparr>pl_index_entries := pl_index_entries s\<rparr>"
  have s0: "pl_alignment s0 = pl_alignment s" "segment_path s0 = segment_path s" "pl_index_entries s0 = pl_index_entries s"
    by (simp_all add: s0_def eff path [symmetric] segment_path_def fun_eq_iff)
  have old: "index_ok s0 d2 \<and> log_contents s0 d2 = log_contents s d"
  proof (rule index_ok_extend [OF idxok s0])
    show "\<forall>e\<in>set (pl_index_entries s). \<exists>x. entry_file s0 d2 e = entry_file s d e @ x"
      by (auto simp: entry_file_def s0(2) files(2))
    show "\<forall>e\<in>set (pl_index_entries s). map_of d2 (segment_path s (ie_segment_base e)) \<noteq> None"
      using idxok by (auto simp: files(1) index_ok_def list_all_iff entry_stored_def)
  qed
  have new: "entry_stored s2 d2 ?e \<and> entry_payload s2 d2 ?e = records"
    by (rule store_frame_ok [OF ok fits eff(3,4)]) (simp add: files)
  have "index_ok s2 d2 \<and> log_contents s2 d2 = log_contents s0 d2 @ [(nxt, records)]"
    using index_ok_snoc [OF eff(2), of d2] old new next_entry_after [OF ok] eff(4) by (simp add: s0_def)
  moreover have "covers (pl_earliest s2) (pl_index_entries s2) (nxt + estimate_record_count records)"
    using ok fits estimate_pos [of records] eff(1)
    by (simp add: eff(2) covers_snoc store_ok_def same_meta_def write_fits_def)
  moreover have "\<forall>b>pl_active_base s. map_of d2 (segment_path s b) = None"
    using ok segment_path_inject [of _ "pl_active_base s" s] by (auto simp: files(1) store_ok_def)
  moreover have "length (file_contents d2 (active_path s)) = pl_write_position s2"
    using ok by (simp add: files eff(9) store_ok_def)
  ultimately show ?thesis
    using ok fits estimate_pos [of records] old eff path files(1) [of "pl_active_base s"]
    by (auto simp: store_ok_def dma_aligned_def write_fits_def)
qed

lemma write_fits_smaller: "write_fits s nxt records \<Longrightarrow> pl_write_position s' \<le> pl_write_position s \<Longrightarrow> write_fits s' nxt records"
  by (auto simp: write_fits_def)

lemma ensure_segment_position:
  "store_ok dma s d nxt \<Longrightarrow> ensure_segment_for_write dma nxt frame_size (s, d) = (s', d') \<Longrightarrow>
     pl_write_position s' \<le> pl_write_position s"
  by (auto simp: ensure_segment_for_write_def store_ok_def rollover_def open_active_segment_def
      update_dma_alignment_def split: if_splits)

lemma write_record_set_ok:
  assumes ok: "store_ok dma s d nxt" and fits: "write_fits s nxt records"
  shows "\<exists>s' d'. write_record_set dma (record_set_of nxt records) (s, d) = (Inr (), s', d') \<and>
           store_ok dma s' d' (nxt + estimate_record_count records) \<and>
           log_contents s' d' = log_contents s d @ [(nxt, records)] \<and> same_meta s s'"
proof -
  let ?rs = "record_set_of nxt records"
  let ?frame = "log_frame (pl_alignment s) ?rs"
  have base: "rs_base_offset ?rs = nxt" by (simp add: record_set_of_def Let_def)
  obtain s1 d1 where ens: "ensure_segment_for_write dma nxt (length ?frame) (s, d) = (s1, d1)"
    by (cases "ensure_segment_for_write dma nxt (length ?frame) (s, d)")
  note ok1 = ensure_segment_ok [OF ok ens]
  have align: "pl_alignment s1 = pl_alignment s"
    using ok ok1 by (simp add: store_ok_def dma_aligned_def)
  have fits1: "write_fits s1 nxt records"
    by (rule write_fits_smaller [OF fits ensure_segment_position [OF ok ens]])
  obtain w s2 where sub: "submit_write ?rs ?frame s1 = (Inr w, s2)"
    using ok1 by (auto simp: submit_write_def Let_def store_ok_def)
  obtain s3 d3 where com: "complete_write w (s2, d1) = (s3, d3)" by (cases "complete_write w (s2, d1)")
  have "write_record_set dma ?rs (s, d) = (Inr (), s3, d3)"
    by (simp add: write_record_set_def base ens sub com)
  moreover from complete_write_ok [OF _ fits1, of dma d1 w s2 s3 d3] sub com ok1 align
  have "store_ok dma s3 d3 (nxt + estimate_record_count records) \<and>
      log_contents s3 d3 = log_contents s1 d1 @ [(nxt, records)] \<and> same_meta s1 s3" by simp
  ultimately show ?thesis using ok1 by (auto intro: same_meta_trans)
qed

section \<open>Appending\<close>

lemma store_ok_meta:
  assumes "store_ok dma s d nxt" and "pl_earliest s' = pl_earliest s"
    and "s' = s\<lparr>pl_offsets := po, pl_queue_depth := q, pl_replica_lag := l, pl_disk_fsyncs := f\<rparr>"
  shows "store_ok dma s' d nxt \<and> log_contents s' d = log_contents s d"
proof -
  have path: "segment_path s' = segment_path s" by (rule segment_path_cong) (simp add: assms(3))
  then have e: "entry_stored s' d = entry_stored s d" "entry_payload s' d = entry_payload s d"
    by (simp_all add: fun_eq_iff entry_stored_def entry_payload_def entry_file_def assms(3))
  have f: "pl_alignment s' = pl_alignment s" "pl_index_entries s' = pl_index_entries s"
    "pl_index_entry_size s' = pl_index_entry_size s" "pl_file_open s' = pl_file_open s"
    "pl_index_open s' = pl_index_open s" "pl_active_base s' = pl_active_base s"
    "pl_write_position s' = pl_write_position s"
    by (simp_all add: assms(3))
  have "store_ok dma s' d nxt = store_ok dma s d nxt"
    by (simp only: store_ok_def index_ok_def dma_aligned_def e f path assms(2))
  with assms(1) show ?thesis by (simp add: log_contents_def e f)
qed

lemma maybe_flush_open:
  assumes "pl_file_open s"
  shows "\<exists>f. maybe_flush s = (Inr (), s\<lparr>pl_disk_fsyncs := f\<rparr>)"
proof (cases "pc_durability (pl_config s) = DurFsync")
  case True
  with assms show ?thesis by (intro exI [of _ "pl_disk_fsyncs s + 1"]) (simp add: maybe_flush_def)
next
  case False
  then show ?thesis by (intro exI [of _ "pl_disk_fsyncs s"]) (simp add: maybe_flush_def)
qed

lemma append_write_ok:
  assumes ok: "store_ok dma s d nxt" and fits: "write_fits s nxt records"
  shows "\<exists>s' d'. append_write dma (response, Some (record_set_of nxt records), s) d = (Inr response, s', d') \<and>
           store_ok dma s' d' (nxt + estimate_record_count records) \<and>
           log_contents s' d' = log_contents s d @ [(nxt, records)] \<and>
           pl_config s' = pl_config s \<and> pl_offsets s' = pl_offsets s \<and>
           pl_queue_depth s' = pl_queue_depth s - 1 \<and> pl_replica_lag s' = pl_replica_lag s"
proof -
  obtain s1 d1 where w: "write_record_set dma (record_set_of nxt records) (s, d) = (Inr (), s1, d1)"
    and ok1: "store_ok dma s1 d1 (nxt + estimate_record_count records)"
    and con: "log_contents s1 d1 = log_contents s d @ [(nxt, records)]" and meta: "same_meta s s1"
    using write_record_set_ok [OF ok fits] by blast
  obtain f where flush: "maybe_flush s1 = (Inr (), s1\<lparr>pl_disk_fsyncs := f\<rparr>)"
    using maybe_flush_open [of s1] ok1 by (auto simp: store_ok_def)
  define s2 where "s2 = s1\<lparr>pl_offsets := pl_offsets s1, pl_queue_depth := pl_queue_depth s1 - 1,
      pl_replica_lag := pl_replica_lag s1, pl_disk_fsyncs := f\<rparr>"
  have "append_write dma (response, Some (record_set_of nxt records), s) d = (Inr response, s2, d1)"
    by (simp add: append_write_def w flush s2_def)
  moreover have "store_ok dma s2 d1 (nxt + estimate_record_count records) \<and> log_contents s2 d1 = log_contents s1 d1"
    by (rule store_ok_meta [OF ok1 _ s2_def]) (simp add: s2_def)
  moreover have "pl_config s2 = pl_config s \<and> pl_offsets s2 = pl_offsets s \<and>
      pl_queue_depth s2 = pl_queue_depth s - 1 \<and> pl_replica_lag s2 = pl_replica_lag s"
    using meta by (simp add: s2_def same_meta_def)
  ultimately show ?thesis using con by auto
qed

text \<open>The conditions under which the two append operations take a record set.\<close>

definition append_accepts :: "PartitionLog \<Rightarrow> bytes \<Rightarrow> int \<Rightarrow> bool" where
  "append_accepts s records acks \<longleftrightarrow>
     length records \<le> pc_max_frame_bytes (pl_config s) \<and>
     pl_queue_depth s < pc_queue_limit (pl_config s) \<and> - 1 \<le> acks \<and> acks \<le> 1"

definition append_replica_accepts :: "PartitionLog \<Rightarrow> ReplicaAppendRequest \<Rightarrow> bool" where
  "append_replica_accepts s request \<longleftrightarrow>
     length (rar_records request) \<le> pc_max_frame_bytes (pl_config s) \<and>
     rar_base_offset request = pl_latest s \<and> pl_queue_depth s < pc_queue_limit (pl_config s)"

lemma append_log_ok:
  assumes ok: "log_ok dma s d" and fits: "write_fits s (pl_latest s) records"
    and acc: "append_accepts s records acks"
  shows "\<exists>s' d'. append_log dma records acks (s, d) =
      (Inr ((append_response s ErrNone)\<lparr>ppr_base_offset := pl_latest s,
              ppr_log_end_offset := pl_latest s + estimate_record_count records\<rparr>), s', d') \<and>
      log_ok dma s' d' \<and> log_contents s' d' = log_contents s d @ [(pl_latest s, records)] \<and>
      pl_latest s' = pl_latest s + estimate_record_count records \<and> pl_earliest s' = pl_earliest s \<and>
      pl_high_watermark s' = (if length (pc_isr (pl_config s)) \<le> 1 then pl_latest s' else pl_high_watermark s) \<and>
      pl_queue_depth s' = pl_queue_depth s \<and> pl_config s' = pl_config s"
proof -
  let ?c = "estimate_record_count records"
  let ?hw = "if length (pc_isr (pl_config s)) \<le> 1 then pl_latest s + ?c else pl_high_watermark s"
  define s0 where "s0 = s\<lparr>pl_queue_depth := pl_queue_depth s + 1,
      pl_offsets := (pl_offsets s)\<lparr>po_latest := pl_latest s + ?c, po_high_watermark := ?hw\<rparr>\<rparr>"
  define response where "response = (append_response s ErrNone)\<lparr>ppr_base_offset := pl_latest s,
      ppr_log_end_offset := pl_latest s + ?c\<rparr>"
  have adm: "append_admit s records acks = (response, Some (record_set_of (pl_latest s) records), s0)"
    using acc by (simp add: append_admit_def append_accepts_def Let_def s0_def response_def)
  have ok0: "store_ok dma s0 d (pl_latest s) \<and> log_contents s0 d = log_contents s d"
    by (rule store_ok_meta [where s = s and po = "pl_offsets s0" and q = "pl_queue_depth s0"
          and l = "pl_replica_lag s" and f = "pl_disk_fsyncs s"])
      (use ok in \<open>simp_all add: log_ok_def s0_def\<close>)
  have fits0: "write_fits s0 (pl_latest s) records" using fits by (simp add: write_fits_def s0_def)
  obtain s' d' where w: "append_log dma records acks (s, d) = (Inr response, s', d')"
    and s': "store_ok dma s' d' (pl_latest s + ?c)" "log_contents s' d' = log_contents s0 d @ [(pl_latest s, records)]"
      "pl_config s' = pl_config s0" "pl_offsets s' = pl_offsets s0" "pl_queue_depth s' = pl_queue_depth s0 - 1"
    using append_write_ok [OF ok0 [THEN conjunct1] fits0, of response] by (auto simp: append_log_def adm)
  have "pl_latest s' = pl_latest s + ?c" "pl_earliest s' = pl_earliest s" "pl_high_watermark s' = ?hw"
      "pl_queue_depth s' = pl_queue_depth s" "pl_config s' = pl_config s"
    using s'(3-5) by (simp_all add: s0_def)
  moreover from this have "log_ok dma s' d'"
    using s'(1) ok estimate_record_count_nonneg [of records] by (simp add: log_ok_def)
  ultimately show ?thesis using w s'(2) ok0 by (intro exI [of _ s'] exI [of _ d']) (simp add: response_def)
qed

lemma append_replica_ok:
  assumes ok: "log_ok dma s d" and fits: "write_fits s (pl_latest s) (rar_records request)"
    and acc: "append_replica_accepts s request"
  shows "\<exists>s' d'. append_replica dma request (s, d) =
      (Inr \<lparr>ppr_topic = rar_topic request, ppr_partition = rar_partition request, ppr_error_code = 0,
            ppr_base_offset = pl_latest s,
            ppr_log_end_offset = pl_latest s + estimate_record_count (rar_records request),
            ppr_log_start_offset = pl_earliest s\<rparr>, s', d') \<and>
      log_ok dma s' d' \<and> log_contents s' d' = log_contents s d @ [(pl_latest s, rar_records request)] \<and>
      pl_latest s' = pl_latest s + estimate_record_count (rar_records request) \<and>
      pl_earliest s' = pl_earliest s \<and>
      pl_high_watermark s' = min (pl_latest s') (rar_leader_high_watermark request) \<and>
      pl_queue_depth s' = pl_queue_depth s \<and> pl_config s' = pl_config s"
proof -
  let ?c = "estimate_record_count (rar_records request)"
  let ?hw = "min (pl_latest s + ?c) (rar_leader_high_watermark request)"
  define s0 where "s0 = s\<lparr>pl_queue_depth := pl_queue_depth s + 1,
      pl_offsets := (pl_offsets s)\<lparr>po_latest := pl_latest s + ?c, po_high_watermark := ?hw\<rparr>,
      pl_replica_lag := max 0 (rar_leader_high_watermark request - ?hw)\<rparr>"
  define response where "response = \<lparr>ppr_topic = rar_topic request, ppr_partition = rar_partition request,
      ppr_error_code = 0, ppr_base_offset = pl_latest s, ppr_log_end_offset = pl_latest s + ?c,
      ppr_log_start_offset = pl_earliest s\<rparr>"
  have adm: "append_replica_admit s request =
      (response, Some (record_set_of (pl_latest s) (rar_records request)), s0)"
    using acc by (simp add: append_replica_admit_def append_replica_accepts_def Let_def s0_def response_def)
  have ok0: "store_ok dma s0 d (pl_latest s) \<and> log_contents s0 d = log_contents s d"
    by (rule store_ok_meta [where s = s and po = "pl_offsets s0" and q = "pl_queue_depth s0"
          and l = "pl_replica_lag s0" and f = "pl_disk_fsyncs s"])
      (use ok in \<open>simp_all add: log_ok_def s0_def\<close>)
  have fits0: "write_fits s0 (pl_latest s) (rar_records request)" using fits by (simp add: write_fits_def s0_def)
  obtain s' d' where w: "append_replica dma request (s, d) = (Inr response, s', d')"
    and s': "store_ok dma s' d' (pl_latest s + ?c)"
      "log_contents s' d' = log_contents s0 d @ [(pl_latest s, rar_records request)]"
      "pl_config s' = pl_config s0" "pl_offsets s' = pl_offsets s0" "pl_queue_depth s' = pl_queue_depth s0 - 1"
    using append_write_ok [OF ok0 [THEN conjunct1] fits0, of response] by (auto simp: append_replica_def adm)
  have "pl_latest s' = pl_latest s + ?c" "pl_earliest s' = pl_earliest s" "pl_high_watermark s' = ?hw"
      "pl_queue_depth s' = pl_queue_depth s" "pl_config s' = pl_config s"
    using s'(3-5) by (simp_all add: s0_def)
  moreover from this have "log_ok dma s' d'" using s'(1) ok by (simp add: log_ok_def)
  ultimately show ?thesis
    using w s'(2) ok0 by (intro exI [of _ s'] exI [of _ d']) (simp add: response_def)
qed

lemma append_log_rejects:
  assumes "\<not> append_accepts s records acks"
  shows "append_log dma records acks (s, d) =
    (Inr (append_response s
       (if length records > pc_max_frame_bytes (pl_config s) then RecordListTooLarge
        else if pl_queue_depth s \<ge> pc_queue_limit (pl_config s) then RequestTimedOut else InvalidRequest)), s, d)"
  using assms
  by (auto simp: append_log_def append_write_def append_admit_def append_accepts_def not_le not_less)

lemma append_replica_rejects:
  assumes "\<not> append_replica_accepts s request"
  shows "append_replica dma request (s, d) =
    (Inr \<lparr>ppr_topic = rar_topic request, ppr_partition = rar_partition request,
       ppr_error_code = error_id
         (if length (rar_records request) > pc_max_frame_bytes (pl_config s) then RecordListTooLarge
          else if rar_base_offset request \<noteq> pl_latest s then OffsetOutOfRange else RequestTimedOut),
       ppr_base_offset = rar_base_offset request, ppr_log_end_offset = 0,
       ppr_log_start_offset = pl_earliest s\<rparr>, s, d)"
  using assms
  by (auto simp: append_replica_def append_write_def append_replica_admit_def append_replica_accepts_def
      Let_def not_le not_less)

section \<open>The contract of an append-only log\<close>

text \<open>The record sets of a log tile its offsets.\<close>

fun tiles :: "int \<Rightarrow> (int \<times> bytes) list \<Rightarrow> int \<Rightarrow> bool" where
  "tiles from [] to \<longleftrightarrow> from = to"
| "tiles from (x # xs) to \<longleftrightarrow> fst x = from \<and> tiles (from + estimate_record_count (snd x)) xs to"

lemma tiles_append: "tiles from (xs @ ys) to \<longleftrightarrow> (\<exists>mid. tiles from xs mid \<and> tiles mid ys to)"
  by (induction xs arbitrary: "from") auto

locale append_only_log =
  fixes inv :: "'s \<Rightarrow> bool"
    and contents :: "'s \<Rightarrow> (int \<times> bytes) list"
    and next_offset :: "'s \<Rightarrow> int"
    and fits :: "'r \<Rightarrow> 's \<Rightarrow> bool"
    and accepts :: "'r \<Rightarrow> 's \<Rightarrow> bool"
    and step :: "'r \<Rightarrow> 's \<Rightarrow> 's"
    and records_of :: "'r \<Rightarrow> bytes"
  assumes step_inv: "inv s \<Longrightarrow> fits r s \<Longrightarrow> accepts r s \<Longrightarrow> inv (step r s)"
    and step_contents: "inv s \<Longrightarrow> fits r s \<Longrightarrow> accepts r s \<Longrightarrow>
          contents (step r s) = contents s @ [(next_offset s, records_of r)]"
    and step_next: "inv s \<Longrightarrow> fits r s \<Longrightarrow> accepts r s \<Longrightarrow>
          next_offset (step r s) = next_offset s + estimate_record_count (records_of r)"
    and step_rejected: "\<not> accepts r s \<Longrightarrow> step r s = s"
begin

fun all_fit :: "'r list \<Rightarrow> 's \<Rightarrow> bool" where
  "all_fit [] s \<longleftrightarrow> True"
| "all_fit (r # rs) s \<longleftrightarrow> fits r s \<and> all_fit rs (step r s)"

fun accepted :: "'r list \<Rightarrow> 's \<Rightarrow> bytes list" where
  "accepted [] s = []"
| "accepted (r # rs) s = (if accepts r s then [records_of r] else []) @ accepted rs (step r s)"

lemma run_inv: "inv s \<Longrightarrow> all_fit rs s \<Longrightarrow> inv (fold step rs s)"
  by (induction rs arbitrary: s) (auto, metis step_inv step_rejected)

lemma run_contents:
  "inv s \<Longrightarrow> all_fit rs s \<Longrightarrow>
   \<exists>new. contents (fold step rs s) = contents s @ new \<and> map snd new = accepted rs s \<and>
         tiles (next_offset s) new (next_offset (fold step rs s))"
proof (induction rs arbitrary: s)
  case Nil
  then show ?case by simp
next
  case (Cons r rs)
  then have "inv (step r s)" "all_fit rs (step r s)"
    by (auto intro: step_inv) (metis step_inv step_rejected)
  from Cons.IH [OF this] obtain new where new: "contents (fold step rs (step r s)) = contents (step r s) @ new"
    "map snd new = accepted rs (step r s)"
    "tiles (next_offset (step r s)) new (next_offset (fold step rs (step r s)))" by blast
  show ?case
  proof (cases "accepts r s")
    case True
    with Cons.prems new show ?thesis
      by (intro exI [of _ "(next_offset s, records_of r) # new"]) (simp add: step_contents step_next)
  next
    case False
    with new show ?thesis by (intro exI [of _ new]) (simp add: step_rejected)
  qed
qed

end

text \<open>The leader appends what the client sends, the follower what the leader sends.\<close>

definition leader_step :: "nat \<Rightarrow> bytes \<times> int \<Rightarrow> PartitionLog \<times> disk \<Rightarrow> PartitionLog \<times> disk" where
  "leader_step dma r sd = snd (append_log dma (fst r) (snd r) sd)"

definition follower_step :: "nat \<Rightarrow> ReplicaAppendRequest \<Rightarrow> PartitionLog \<times> disk \<Rightarrow> PartitionLog \<times> disk" where
  "follower_step dma r sd = snd (append_replica dma r sd)"

interpretation leader: append_only_log
  "\<lambda>(s, d). log_ok dma s d" "\<lambda>(s, d). log_contents s d" "\<lambda>(s, d). pl_latest s"
  "\<lambda>r (s, d). write_fits s (pl_latest s) (fst r)" "\<lambda>r (s, d). append_accepts s (fst r) (snd r)"
  "leader_step dma" fst
  for dma
proof unfold_locales
  fix sd :: "PartitionLog \<times> disk" and r :: "bytes \<times> int"
  assume "case sd of (s, d) \<Rightarrow> log_ok dma s d" "case sd of (s, d) \<Rightarrow> write_fits s (pl_latest s) (fst r)"
    "case sd of (s, d) \<Rightarrow> append_accepts s (fst r) (snd r)"
  then show "case leader_step dma r sd of (s, d) \<Rightarrow> log_ok dma s d"
    and "(case leader_step dma r sd of (s, d) \<Rightarrow> log_contents s d) =
        (case sd of (s, d) \<Rightarrow> log_contents s d) @ [(case sd of (s, d) \<Rightarrow> pl_latest s, fst r)]"
    and "(case leader_step dma r sd of (s, d) \<Rightarrow> pl_latest s) =
        (case sd of (s, d) \<Rightarrow> pl_latest s) + estimate_record_count (fst r)"
    using append_log_ok [of dma "fst sd" "snd sd" "fst r" "snd r"]
    by (auto simp: leader_step_def split: prod.splits)
next
  fix sd :: "PartitionLog \<times> disk" and r :: "bytes \<times> int"
  assume "\<not> (case sd of (s, d) \<Rightarrow> append_accepts s (fst r) (snd r))"
  then show "leader_step dma r sd = sd"
    by (cases sd) (simp add: leader_step_def append_log_rejects)
qed

interpretation follower: append_only_log
  "\<lambda>(s, d). log_ok dma s d" "\<lambda>(s, d). log_contents s d" "\<lambda>(s, d). pl_latest s"
  "\<lambda>r (s, d). write_fits s (pl_latest s) (rar_records r)" "\<lambda>r (s, d). append_replica_accepts s r"
  "follower_step dma" rar_records
  for dma
proof unfold_locales
  fix sd :: "PartitionLog \<times> disk" and r :: ReplicaAppendRequest
  assume "case sd of (s, d) \<Rightarrow> log_ok dma s d" "case sd of (s, d) \<Rightarrow> write_fits s (pl_latest s) (rar_records r)"
    "case sd of (s, d) \<Rightarrow> append_replica_accepts s r"
  then show "case follower_step dma r sd of (s, d) \<Rightarrow> log_ok dma s d"
    and "(case follower_step dma r sd of (s, d) \<Rightarrow> log_contents s d) =
        (case sd of (s, d) \<Rightarrow> log_contents s d) @ [(case sd of (s, d) \<Rightarrow> pl_latest s, rar_records r)]"
    and "(case follower_step dma r sd of (s, d) \<Rightarrow> pl_latest s) =
        (case sd of (s, d) \<Rightarrow> pl_latest s) + estimate_record_count (rar_records r)"
    using append_replica_ok [of dma "fst sd" "snd sd" r]
    by (auto simp: follower_step_def split: prod.splits)
next
  fix sd :: "PartitionLog \<times> disk" and r :: ReplicaAppendRequest
  assume "\<not> (case sd of (s, d) \<Rightarrow> append_replica_accepts s r)"
  then show "follower_step dma r sd = sd"
    by (cases sd) (simp add: follower_step_def append_replica_rejects)
qed

end
