(* ===== verification/Log_Recovery.thy ===== *)
theory Log_Recovery
  imports Log_Append
begin

text \<open>
  Starting a partition log: recovery from the index file, the check that the index covers the
  segment files, the walk over the segment files that rebuilds the index, and \<^verbatim>\<open>start\<close> and
  \<^verbatim>\<open>stop\<close>. The directory holds regular files only, listed in the order of the disk.
\<close>

section \<open>Recovery from the index\<close>

text \<open>
  The scan over the index file. The record that is decoded takes 44 bytes; the entry size is at
  least 48 once \<^verbatim>\<open>update_dma_alignment\<close> has run.
\<close>

function index_scan :: "bytes \<Rightarrow> nat \<Rightarrow> bool \<Rightarrow> PartitionLog \<Rightarrow> bool result \<times> PartitionLog" where
  "index_scan f position recovered s =
     (let n = pl_index_entry_size s
      in if length f < position + n then (Inr recovered, s)
         else let buffer = dma_read f position n
              in if length buffer \<noteq> n then (Inr recovered, s)
                 else if n < 44 then (Inl OutOfBounds, s)
                 else case decode_index_entry buffer of
                        None \<Rightarrow> (Inr recovered, s)
                      | Some entry \<Rightarrow>
                          (let s1 = note_index_entry entry s;
                               latest = max (pl_latest s1) (ie_last_offset entry + 1)
                           in index_scan f (position + n) True
                                (s1\<lparr>pl_offsets := (pl_offsets s1)\<lparr>po_latest := latest, po_high_watermark := latest\<rparr>,
                                    pl_index_position := pl_index_position s1 + n\<rparr>)))"
  by pat_completeness auto
termination
  by (relation "measure (\<lambda>(f, position, recovered, s). length f - position)") auto

declare index_scan.simps [simp del]

text \<open>The segment that appends continue in.\<close>

definition resume_last_segment :: "PartitionLog \<Rightarrow> PartitionLog" where
  "resume_last_segment s =
     (let active = last (pl_segments s)
      in s\<lparr>pl_active_base := si_base_offset active, pl_write_position := si_write_position active\<rparr>)"

definition recover_from_index :: "nat \<Rightarrow> PartitionLog \<times> disk \<Rightarrow> bool result \<times> PartitionLog" where
  "recover_from_index dma = (\<lambda>(s, d).
     case map_of d (index_path s) of
       None \<Rightarrow> (Inr False, s)
     | Some f \<Rightarrow>
         (case index_scan f 0 False (update_dma_alignment dma s) of
            (Inr True, s1) \<Rightarrow> (Inr True, resume_last_segment s1)
          | r \<Rightarrow> r))"

section \<open>The segment files\<close>

text \<open>\<^verbatim>\<open>std::sort\<close> by base offset; a file name that overflows \<^verbatim>\<open>std::stoll\<close> ends the listing.\<close>

definition list_segment_files :: "PartitionLog \<times> disk \<Rightarrow> (int \<times> string) list result" where
  "list_segment_files = (\<lambda>(s, d).
     rbind (mapR (\<lambda>name. rbind (segment_base_offset_from_name (pl_config s) name)
                            (\<lambda>b. Inr (map_option (\<lambda>base. (base, name)) b))) (map fst d))
       (\<lambda>found. Inr (sort_key fst (List.map_filter (\<lambda>x. x) found))))"

definition covers_file :: "disk \<Rightarrow> (int \<times> string) \<times> SegmentInfo \<Rightarrow> bool" where
  "covers_file d = (\<lambda>((segment_base, name), segment).
     segment_base = si_base_offset segment \<and> length (file_contents d name) = si_write_position segment)"

definition recovered_index_covers_segments :: "PartitionLog \<times> disk \<Rightarrow> bool result" where
  "recovered_index_covers_segments = (\<lambda>(s, d).
     if pl_segments s = [] then Inr True
     else rbind (list_segment_files (s, d)) (\<lambda>segment_files.
       Inr (length segment_files = length (pl_segments s) \<and>
            list_all (covers_file d) (zip segment_files (pl_segments s)))))"

section \<open>Recovery from the segments\<close>

definition write_rebuilt_index_entry :: "PartitionLog \<Rightarrow> IndexEntry \<Rightarrow> nat \<Rightarrow> disk \<Rightarrow> disk" where
  "write_rebuilt_index_entry s entry position d =
     write_file (index_path s) position (encode_index_entry (pl_index_entry_size s) entry) d"

text \<open>The body of the loop of \<^verbatim>\<open>recover_segment_file\<close> once the frame has been read.\<close>

definition note_recovered_frame ::
    "int \<Rightarrow> nat \<Rightarrow> int \<Rightarrow> int \<Rightarrow> bytes \<Rightarrow> nat \<times> PartitionLog \<times> disk \<Rightarrow> nat \<times> PartitionLog \<times> disk" where
  "note_recovered_frame segment_base position base_offset record_bytes records = (\<lambda>(rebuilt, s, d).
     let count = estimate_record_count records;
         entry = \<lparr>ie_base_offset = base_offset, ie_last_offset = base_offset + count - 1,
                  ie_segment_base = segment_base, ie_segment_position = position,
                  ie_record_bytes = record_bytes\<rparr>;
         s1 = note_index_entry entry s;
         n = pl_index_entry_size s
     in (rebuilt + n,
         s1\<lparr>pl_index_position := pl_index_position s1 + n,
            pl_offsets := (pl_offsets s1)\<lparr>po_latest := base_offset + count, po_high_watermark := base_offset + count\<rparr>\<rparr>,
         write_rebuilt_index_entry s entry rebuilt d))"

function segment_scan ::
    "int \<Rightarrow> bytes \<Rightarrow> nat \<Rightarrow> nat \<times> PartitionLog \<times> disk \<Rightarrow> unit result \<times> nat \<times> PartitionLog \<times> disk" where
  "segment_scan segment_base f position (rebuilt, s, d) =
     (let a = pl_alignment s
      in if length f < position + a then (Inr (), rebuilt, s, d)
         else let header = dma_read f position a
              in if length header \<noteq> a then (Inr (), rebuilt, s, d)
                 else if a < 8 then (Inl OutOfBounds, rebuilt, s, d)
                 else if take 8 header \<noteq> kLogMagic then (Inr (), rebuilt, s, d)
                 else if a < 20 then (Inl OutOfBounds, rebuilt, s, d)
                 else let base_offset = get_i64 (drop 8 header);
                          record_bytes = get_i32 (drop 16 header);
                          frame_size = round_up (20 + nat record_bytes) a
                      in if record_bytes \<le> 0 \<or> length f < position + frame_size then (Inr (), rebuilt, s, d)
                         else let frame = (if frame_size = a then header else dma_read f position frame_size)
                              in if frame_size \<noteq> a \<and>
                                    (length frame \<noteq> frame_size \<or> \<not> frame_header_is frame base_offset record_bytes)
                                 then (Inr (), rebuilt, s, d)
                                 else segment_scan segment_base f (position + frame_size)
                                        (note_recovered_frame segment_base position base_offset record_bytes
                                           (chunk frame 20 (nat record_bytes)) (rebuilt, s, d)))"
  by pat_completeness auto
termination
proof (relation "measure (\<lambda>(segment_base, f, position, r). length f - position)", goal_cases)
  case (2 segment_base f position rebuilt s d a header base_offset record_bytes frame_size frame)
  then have "20 \<le> frame_size" using round_up_ge [of a "20 + nat record_bytes"] by simp
  with 2 show ?case by simp
qed simp

declare segment_scan.simps [simp del]

definition recover_segment_file ::
    "nat \<Rightarrow> int \<times> string \<Rightarrow> nat \<times> PartitionLog \<times> disk \<Rightarrow> unit result \<times> nat \<times> PartitionLog \<times> disk" where
  "recover_segment_file dma = (\<lambda>(segment_base, name) (rebuilt, s, d).
     segment_scan segment_base (file_contents d name) 0 (rebuilt, update_dma_alignment dma s, d))"

fun recover_segment_files ::
    "nat \<Rightarrow> (int \<times> string) list \<Rightarrow> nat \<times> PartitionLog \<times> disk \<Rightarrow> unit result \<times> nat \<times> PartitionLog \<times> disk" where
  "recover_segment_files dma [] r = (Inr (), r)"
| "recover_segment_files dma (x # xs) r =
     (case recover_segment_file dma x r of
        (Inl e, r1) \<Rightarrow> (Inl e, r1)
      | (Inr _, r1) \<Rightarrow> recover_segment_files dma xs r1)"

text \<open>Opening a file with \<^verbatim>\<open>rw | create | truncate\<close>.\<close>

definition truncate_file :: "string \<Rightarrow> disk \<Rightarrow> disk" where
  "truncate_file name d = AList.update name [] d"

definition recover_from_segments :: "nat \<Rightarrow> PartitionLog \<times> disk \<Rightarrow> unit result \<times> PartitionLog \<times> disk" where
  "recover_from_segments dma = (\<lambda>(s, d).
     case list_segment_files (s, d) of
       Inl e \<Rightarrow> (Inl e, s, d)
     | Inr segment_files \<Rightarrow>
         (case recover_segment_files dma segment_files (0, s, truncate_file (index_path s) d) of
            (Inl e, _, s1, d1) \<Rightarrow> (Inl e, s1, d1)
          | (Inr _, _, s1, d1) \<Rightarrow>
              (Inr (), if segment_files = [] then s1\<lparr>pl_active_base := pl_latest s1, pl_write_position := 0\<rparr>
                       else if pl_segments s1 \<noteq> [] then resume_last_segment s1 else s1, d1)))"

section \<open>Start and stop\<close>

definition clear_recovered :: "PartitionLog \<Rightarrow> PartitionLog" where
  "clear_recovered s =
     s\<lparr>pl_segments := [], pl_index_entries := [],
       pl_offsets := \<lparr>po_earliest = 0, po_latest = 0, po_high_watermark = 0\<rparr>,
       pl_active_base := 0, pl_write_position := 0, pl_index_position := 0\<rparr>"

definition recover :: "nat \<Rightarrow> PartitionLog \<times> disk \<Rightarrow> unit result \<times> PartitionLog \<times> disk" where
  "recover dma = (\<lambda>(s, d).
     case recover_from_index dma (clear_recovered s, d) of
       (Inl e, s1) \<Rightarrow> (Inl e, s1, d)
     | (Inr recovered, s1) \<Rightarrow>
         if recovered then
           (case recovered_index_covers_segments (s1, d) of
              Inl e \<Rightarrow> (Inl e, s1, d)
            | Inr complete \<Rightarrow>
                if complete then (Inr (), s1, d) else recover_from_segments dma (clear_recovered s1, d))
         else recover_from_segments dma (s1, d))"

definition start_log ::
    "nat \<Rightarrow> PartitionConfig \<Rightarrow> nat \<Rightarrow> PartitionLog \<times> disk \<Rightarrow> unit result \<times> PartitionLog \<times> disk" where
  "start_log dma config segment_bytes = (\<lambda>(s, d).
     case recover dma (s\<lparr>pl_config := config, pl_segment_bytes := segment_bytes, pl_index_entries := [],
                         pl_index_write_error := False\<rparr>, d) of
       (Inl e, s1, d1) \<Rightarrow> (Inl e, s1, d1)
     | (Inr _, s1, d1) \<Rightarrow> (Inr (), open_index dma (open_active_segment dma (s1, d1))))"

text \<open>
  After the index writes and the pending flush have drained: the gates are closed, the cached
  handles and the two files given up.
\<close>

definition stop_log :: "PartitionLog \<Rightarrow> PartitionLog" where
  "stop_log s = s\<lparr>pl_index_gate_closed := True, pl_segment_cache := [], pl_file_open := False, pl_index_open := False\<rparr>"

text \<open>A default-constructed \<^verbatim>\<open>PartitionLogShard\<close>, of a default-constructed configuration.\<close>

definition new_log :: "PartitionConfig \<Rightarrow> PartitionLog" where
  "new_log config =
     \<lparr>pl_config = config, pl_segment_bytes = 0, pl_segments = [],
      pl_offsets = \<lparr>po_earliest = 0, po_latest = 0, po_high_watermark = 0\<rparr>,
      pl_queue_depth = 0, pl_active_base = 0, pl_write_position = 0,
      pl_alignment = 4096, pl_index_entry_size = 4096, pl_degraded = False, pl_replica_lag = 0,
      pl_file_open = False, pl_index_open = False, pl_segment_cache = [], pl_index_position = 0,
      pl_index_entries = [], pl_index_gate_closed = False, pl_index_write_error = False,
      pl_disk_writes = 0, pl_disk_fsyncs = 0\<rparr>"

end
