(* ===== verification/Broker_Shard.thy ===== *)
theory Broker_Shard
  imports Partition_Table Log_Recovery
begin

text \<open>
  The broker shard of \<^verbatim>\<open>src/broker_shard.cpp\<close>. A node is the list of its shards; a request that
  arrives at a shard which does not own the partition is passed on to the owner. The RPC layer
  is the parameter \<open>net\<close>: what a forward to an address, of an RPC name and a payload, returns,
  and what it does to the world outside the node. An operation runs to its end before the next
  one starts; where it sleeps or a timer may fire, what happens meanwhile is an argument.
\<close>

section \<open>State\<close>

record BrokerShard =
  bs_config :: BrokerConfig
  bs_table :: "PartitionLog PartitionTable"
  bs_disk :: disk
  bs_stopping :: bool
  bs_listening :: bool
  bs_timer_armed :: bool
  bs_gate_closed :: bool
  bs_mercury_running :: bool
  bs_kafka_requests :: nat
  bs_kafka_errors :: nat
  bs_produce_errors :: nat
  bs_fetch_errors :: nat
  bs_replica_appends :: nat
  bs_replica_errors :: nat
  bs_health_checks :: nat
  bs_health_failures :: nat
  bs_catchup_attempts :: nat
  bs_catchup_errors :: nat
  bs_catchup_records :: nat

type_synonym 'w net = "string \<Rightarrow> string \<Rightarrow> bytes \<Rightarrow> 'w \<Rightarrow> bytes result \<times> 'w"

abbreviation count_produce_error :: "BrokerShard \<Rightarrow> BrokerShard" where
  "count_produce_error sh \<equiv> sh\<lparr>bs_produce_errors := bs_produce_errors sh + 1\<rparr>"

abbreviation count_fetch_error :: "BrokerShard \<Rightarrow> BrokerShard" where
  "count_fetch_error sh \<equiv> sh\<lparr>bs_fetch_errors := bs_fetch_errors sh + 1\<rparr>"

abbreviation count_replica_error :: "BrokerShard \<Rightarrow> BrokerShard" where
  "count_replica_error sh \<equiv> sh\<lparr>bs_replica_errors := bs_replica_errors sh + 1\<rparr>"

definition partition_missing :: int where
  "partition_missing = error_id UnknownTopicOrPartition"

definition produce_result :: "string \<Rightarrow> int \<Rightarrow> int \<Rightarrow> ProducePartitionResult" where
  "produce_result topic p err =
     \<lparr>ppr_topic = topic, ppr_partition = p, ppr_error_code = err, ppr_base_offset = 0, ppr_log_end_offset = 0,
      ppr_log_start_offset = 0\<rparr>"

definition fetch_result :: "int \<Rightarrow> FetchPartitionResult" where
  "fetch_result err =
     \<lparr>fpr_error_code = err, fpr_high_watermark = 0, fpr_log_start_offset = 0, fpr_log_end_offset = 0, fpr_records = []\<rparr>"

definition list_offset_missing :: "string \<Rightarrow> int \<Rightarrow> ListOffsetPartitionResult" where
  "list_offset_missing topic p =
     \<lparr>lpr_topic = topic, lpr_partition = p, lpr_error_code = partition_missing, lpr_earliest = 0, lpr_latest = 0,
      lpr_selected = 0\<rparr>"

definition replica_fetch_result :: "int \<Rightarrow> ReplicaFetchResult" where
  "replica_fetch_result err =
     \<lparr>rfr_error_code = err, rfr_leader_high_watermark = 0, rfr_log_end_offset = 0, rfr_records = []\<rparr>"

section \<open>Logs of a shard\<close>

definition find_log :: "string \<Rightarrow> int \<Rightarrow> BrokerShard \<Rightarrow> TopicPartition option \<times> BrokerShard" where
  "find_log topic p sh =
     (let (r, t) = find_partition_log \<lparr>tp_topic = topic, tp_partition = p\<rparr> (bs_table sh)
      in (r, sh\<lparr>bs_table := t\<rparr>))"

definition log_of :: "BrokerShard \<Rightarrow> TopicPartition \<Rightarrow> PartitionLog" where
  "log_of sh key = the (table_log (bs_table sh) key)"

definition store_log :: "TopicPartition \<Rightarrow> PartitionLog \<Rightarrow> BrokerShard \<Rightarrow> BrokerShard" where
  "store_log key log sh = sh\<lparr>bs_table := set_log key log (bs_table sh)\<rparr>"

section \<open>Routing\<close>

fun owner_in_topics :: "TopicConfig list \<Rightarrow> string \<Rightarrow> int \<Rightarrow> nat option" where
  "owner_in_topics [] topic p = None"
| "owner_in_topics (t # ts) topic p =
     (if tc_name t \<noteq> topic then owner_in_topics ts topic p
      else map_option pc_shard (List.find (\<lambda>q. pc_partition q = p) (tc_partitions t)))"

definition owner_shard :: "BrokerConfig \<Rightarrow> string \<Rightarrow> int \<Rightarrow> nat option" where
  "owner_shard config topic p = owner_in_topics (bc_topics config) topic p"

text \<open>
  How each request finds its shard: unknown partitions are answered where the request is, the
  others by the owner, which looks again. \<^verbatim>\<open>invoke_on\<close> with a shard id that does not exist is an
  access outside the shards. The bound \<open>fuel\<close> is on the number of hops.
\<close>

fun dispatch ::
    "nat \<Rightarrow> (BrokerShard \<Rightarrow> BrokerShard) \<Rightarrow> (BrokerShard \<Rightarrow> 'r \<times> BrokerShard) \<Rightarrow>
     (BrokerShard \<times> 'w \<Rightarrow> 'r result \<times> BrokerShard \<times> 'w) \<Rightarrow> string \<Rightarrow> int \<Rightarrow> nat \<Rightarrow> BrokerShard list \<times> 'w \<Rightarrow>
     ('r result \<times> BrokerShard list \<times> 'w) option" where
  "dispatch 0 enter missing local topic p i st = None"
| "dispatch (Suc fuel) enter missing local topic p i (node, w) =
     (if length node \<le> i then Some (Inl OutOfBounds, node, w)
      else let sh = enter (node ! i)
           in case owner_shard (bs_config sh) topic p of
                None \<Rightarrow> (let (r, sh1) = missing sh in Some (Inr r, node[i := sh1], w))
              | Some owner \<Rightarrow>
                  if owner = i then (let (r, sh1, w1) = local (sh, w) in Some (r, node[i := sh1], w1))
                  else dispatch fuel enter missing local topic p owner (node[i := sh], w))"

section \<open>Replication, leader side\<close>

text \<open>The addresses of the followers, and one failed future for each that is not configured.\<close>

definition isr_followers :: "BrokerConfig \<Rightarrow> PartitionConfig \<Rightarrow> string list \<times> unit result list" where
  "isr_followers config q =
     (let others = filter (\<lambda>broker_id. broker_id \<noteq> bc_node_id config) (pc_isr q);
          found = map (find_broker config) others
      in (List.map_filter (map_option be_mercury_address) found,
          map (\<lambda>_. Inl (RuntimeError ''replica broker is not configured'')) (filter (\<lambda>b. b = None) found)))"

definition check_append_reply :: "bytes \<Rightarrow> unit result" where
  "check_append_reply payload =
     rbind (read_payload read_int16 payload)
       (\<lambda>error_code. guardR (error_code = 0) (RuntimeError ''replica append failed''))"

fun forward_all :: "'w net \<Rightarrow> string list \<Rightarrow> bytes \<Rightarrow> 'w \<Rightarrow> unit result list \<times> 'w" where
  "forward_all net [] payload w = ([], w)"
| "forward_all net (a # as) payload w =
     (let (reply, w1) = net a ''replica_append'' payload w;
          (rs, w2) = forward_all net as payload w1
      in (rbind reply check_append_reply # rs, w2))"

definition when_all_succeed :: "unit result list \<Rightarrow> unit result" where
  "when_all_succeed rs = foldR (\<lambda>r _. r) rs ()"

text \<open>The outer result is what the call throws at once, the inner one what its future holds.\<close>

definition replicate_to_isr ::
    "'w net \<Rightarrow> BrokerConfig \<Rightarrow> PartitionConfig \<Rightarrow> ProducePartitionResult \<Rightarrow> bytes \<Rightarrow> 'w \<Rightarrow>
     unit result result \<times> 'w" where
  "replicate_to_isr net config q local_result records w =
     (let (followers, failed) = isr_followers config q
      in if followers = [] then (Inr (when_all_succeed failed), w)
         else case encode_replica_append
                \<lparr>rar_topic = pc_topic q, rar_partition = pc_partition q,
                 rar_base_offset = ppr_base_offset local_result,
                 rar_leader_high_watermark = ppr_log_end_offset local_result, rar_records = records\<rparr> of
                Inl e \<Rightarrow> (Inl e, w)
              | Inr encoded \<Rightarrow>
                  (let (rs, w1) = forward_all net followers encoded w
                   in (Inr (when_all_succeed (failed @ rs)), w1)))"

text \<open>The continuation of the replication future.\<close>

definition settle_replication :: "PartitionConfig \<Rightarrow> unit result \<Rightarrow> BrokerShard \<Rightarrow> BrokerShard" where
  "settle_replication q replicated sh =
     (let sh0 = (case replicated of Inr _ \<Rightarrow> sh | Inl _ \<Rightarrow> count_replica_error sh)
      in case find_log (pc_topic q) (pc_partition q) sh0 of
           (None, sh1) \<Rightarrow> sh1
         | (Some key, sh1) \<Rightarrow>
             (let log = log_of sh1 key
              in store_log key (case replicated of
                                  Inr _ \<Rightarrow> mark_replicated_through (pl_latest log) log
                                | Inl _ \<Rightarrow> mark_degraded log) sh1))"

section \<open>Produce\<close>

definition replica_stub :: "PartitionLog \<Rightarrow> bytes \<Rightarrow> ProducePartitionResult" where
  "replica_stub log records =
     \<lparr>ppr_topic = pc_topic (pl_config log), ppr_partition = pc_partition (pl_config log), ppr_error_code = 0,
      ppr_base_offset = pl_latest log, ppr_log_end_offset = pl_latest log + estimate_record_count records,
      ppr_log_start_offset = 0\<rparr>"

definition start_replication ::
    "'w net \<Rightarrow> BrokerConfig \<Rightarrow> PartitionConfig \<Rightarrow> ProducePartitionResult \<Rightarrow> bytes \<Rightarrow> 'w \<Rightarrow>
     unit result result \<times> 'w" where
  "start_replication net config q stub records w =
     (if length (pc_isr q) > 1 then replicate_to_isr net config q stub records w else (Inr (Inr ()), w))"

text \<open>The lambda under the gate: replication is dispatched first, then the local write runs.\<close>

definition produce_operation ::
    "nat \<Rightarrow> 'w net \<Rightarrow> TopicPartition \<Rightarrow> bytes \<Rightarrow> int \<Rightarrow> BrokerShard \<times> 'w \<Rightarrow>
     ProducePartitionResult result \<times> BrokerShard \<times> 'w" where
  "produce_operation dma net key records acks = (\<lambda>(sh, w).
     if bs_gate_closed sh then (Inl GateClosed, sh, w)
     else let log = log_of sh key; q = pl_config log
          in case start_replication net (bs_config sh) q (replica_stub log records) records w of
               (Inl e, w1) \<Rightarrow> (Inl e, sh, w1)
             | (Inr replicated, w1) \<Rightarrow>
                 (let (written, log1, d1) = append_log dma records acks (log, bs_disk sh);
                      sh1 = (store_log key log1 sh)\<lparr>bs_disk := d1\<rparr>
                  in if acks = - 1
                     then case written of
                            Inl e \<Rightarrow> (Inl e, sh1, w1)
                          | Inr result \<Rightarrow>
                              if ppr_error_code result \<noteq> 0 then (Inr result, sh1, w1)
                              else (Inr (case replicated of
                                           Inr _ \<Rightarrow> result
                                         | Inl _ \<Rightarrow> result\<lparr>ppr_error_code := error_id NotEnoughReplicas\<rparr>),
                                    settle_replication q replicated sh1, w1)
                     else (written, settle_replication q replicated sh1, w1)))"

definition produce_wait_ms :: "BrokerConfig \<Rightarrow> int \<Rightarrow> int" where
  "produce_wait_ms config timeout_ms =
     (let cap_ms = cast_i32 (int (bc_produce_wait_ms_cap config))
      in if timeout_ms \<le> 0 then cap_ms else min timeout_ms cap_ms)"

text \<open>
  \<open>late\<close> says that the operation is still running when the timer fires; it then goes on behind
  the gate, and its effects are those of \<open>produce_operation\<close> all the same.
\<close>

definition append_local ::
    "nat \<Rightarrow> 'w net \<Rightarrow> bool \<Rightarrow> ProducePartitionRequest \<Rightarrow> int \<Rightarrow> int \<Rightarrow> BrokerShard \<times> 'w \<Rightarrow>
     ProducePartitionResult result \<times> BrokerShard \<times> 'w" where
  "append_local dma net late request acks timeout_ms = (\<lambda>(sh, w).
     case find_log (ppq_topic request) (ppq_partition request) sh of
       (None, sh1) \<Rightarrow>
         (Inr (produce_result (ppq_topic request) (ppq_partition request) partition_missing), count_produce_error sh1, w)
     | (Some key, sh1) \<Rightarrow>
         (let log = log_of sh1 key
          in if pc_leader (pl_config log) \<noteq> bc_node_id (bs_config sh1)
             then (Inr (produce_result (ppq_topic request) (ppq_partition request) (error_id NotLeaderOrFollower)), sh1, w)
             else case rewrite_record_batch_offsets (ppq_records request) (pl_latest log) of
                    Inl e \<Rightarrow> (Inl e, sh1, w)
                  | Inr records \<Rightarrow>
                      (let (r, sh2, w2) = produce_operation dma net key records acks (sh1, w)
                       in if produce_wait_ms (bs_config sh1) timeout_ms \<le> 0 \<or> \<not> late then (r, sh2, w2)
                          else (Inr (produce_result (pc_topic (pl_config log)) (pc_partition (pl_config log))
                                       (error_id RequestTimedOut)), count_produce_error sh2, w2))))"

definition append_shard ::
    "nat \<Rightarrow> 'w net \<Rightarrow> bool \<Rightarrow> nat \<Rightarrow> nat \<Rightarrow> ProducePartitionRequest \<Rightarrow> int \<Rightarrow> int \<Rightarrow> BrokerShard list \<times> 'w \<Rightarrow>
     (ProducePartitionResult result \<times> BrokerShard list \<times> 'w) option" where
  "append_shard dma net late fuel i request acks timeout_ms =
     dispatch fuel id
       (\<lambda>sh. (produce_result (ppq_topic request) (ppq_partition request) partition_missing, count_produce_error sh))
       (append_local dma net late request acks timeout_ms) (ppq_topic request) (ppq_partition request) i"

section \<open>Fetch and list offsets\<close>

definition local_is_replica :: "BrokerShard \<Rightarrow> PartitionConfig \<Rightarrow> bool" where
  "local_is_replica sh q = (bc_node_id (bs_config sh) \<in> set (pc_replicas q))"

definition fetch_wait_ms :: "BrokerConfig \<Rightarrow> int \<Rightarrow> int" where
  "fetch_wait_ms config max_wait_ms = min (max 0 max_wait_ms) (cast_i32 (int (bc_fetch_max_wait_ms_cap config)))"

text \<open>Reading a log changes its cache of segment handles.\<close>

definition fetch_log ::
    "TopicPartition \<Rightarrow> int \<Rightarrow> int \<Rightarrow> BrokerShard \<Rightarrow> FetchPartitionResult result \<times> BrokerShard" where
  "fetch_log key offset max_bytes sh =
     (let (r, log) = fetch offset max_bytes (log_of sh key, bs_disk sh) in (r, store_log key log sh))"

text \<open>\<open>meanwhile\<close> is what the other operations do to the shard while the fetch sleeps.\<close>

definition fetch_local ::
    "(BrokerShard \<times> 'w \<Rightarrow> BrokerShard \<times> 'w) \<Rightarrow> FetchPartitionRequest \<Rightarrow> BrokerShard \<times> 'w \<Rightarrow>
     FetchPartitionResult result \<times> BrokerShard \<times> 'w" where
  "fetch_local meanwhile request = (\<lambda>(sh, w).
     case find_log (fpq_topic request) (fpq_partition request) sh of
       (None, sh1) \<Rightarrow> (Inr (fetch_result partition_missing), count_fetch_error sh1, w)
     | (Some key, sh1) \<Rightarrow>
         (let q = pl_config (log_of sh1 key)
          in if \<not> local_is_replica sh1 q \<or> (pc_leader q \<noteq> bc_node_id (bs_config sh1) \<and> \<not> pc_allow_follower_fetch q)
             then (Inr (fetch_result (error_id NotLeaderOrFollower)), sh1, w)
             else case fetch_log key (fpq_offset request) (fpq_max_bytes request) sh1 of
                    (Inl e, sh2) \<Rightarrow> (Inl e, sh2, w)
                  | (Inr result, sh2) \<Rightarrow>
                      if fpr_error_code result \<noteq> 0 \<or> fpr_records result \<noteq> [] \<or>
                         fetch_wait_ms (bs_config sh2) (fpq_max_wait_ms request) \<le> 0 \<or> fpq_min_bytes request \<le> 0 \<or>
                         fpq_offset request < fpr_log_end_offset result
                      then (Inr result, sh2, w)
                      else (let (sh3, w3) = meanwhile (sh2, w);
                                (r, sh4) = fetch_log key (fpq_offset request) (fpq_max_bytes request) sh3
                            in (r, sh4, w3))))"

definition fetch_shard ::
    "(BrokerShard \<times> 'w \<Rightarrow> BrokerShard \<times> 'w) \<Rightarrow> nat \<Rightarrow> nat \<Rightarrow> FetchPartitionRequest \<Rightarrow> BrokerShard list \<times> 'w \<Rightarrow>
     (FetchPartitionResult result \<times> BrokerShard list \<times> 'w) option" where
  "fetch_shard meanwhile fuel i request =
     dispatch fuel id (\<lambda>sh. (fetch_result partition_missing, count_fetch_error sh))
       (fetch_local meanwhile request) (fpq_topic request) (fpq_partition request) i"

definition list_offsets_local ::
    "ListOffsetPartitionRequest \<Rightarrow> BrokerShard \<times> 'w \<Rightarrow> ListOffsetPartitionResult result \<times> BrokerShard \<times> 'w" where
  "list_offsets_local request = (\<lambda>(sh, w).
     case find_log (lpq_topic request) (lpq_partition request) sh of
       (None, sh1) \<Rightarrow> (Inr (list_offset_missing (lpq_topic request) (lpq_partition request)), sh1, w)
     | (Some key, sh1) \<Rightarrow> (Inr (list_offsets (lpq_timestamp request) (log_of sh1 key)), sh1, w))"

definition list_offsets_shard ::
    "nat \<Rightarrow> nat \<Rightarrow> ListOffsetPartitionRequest \<Rightarrow> BrokerShard list \<times> 'w \<Rightarrow>
     (ListOffsetPartitionResult result \<times> BrokerShard list \<times> 'w) option" where
  "list_offsets_shard fuel i request =
     dispatch fuel id (\<lambda>sh. (list_offset_missing (lpq_topic request) (lpq_partition request), sh))
       (list_offsets_local request) (lpq_topic request) (lpq_partition request) i"

section \<open>Replication, follower side\<close>

definition append_replica_local ::
    "nat \<Rightarrow> ReplicaAppendRequest \<Rightarrow> BrokerShard \<times> 'w \<Rightarrow> ProducePartitionResult result \<times> BrokerShard \<times> 'w" where
  "append_replica_local dma request = (\<lambda>(sh, w).
     case find_log (rar_topic request) (rar_partition request) sh of
       (None, sh1) \<Rightarrow>
         (Inr (produce_result (rar_topic request) (rar_partition request) partition_missing), count_replica_error sh1, w)
     | (Some key, sh1) \<Rightarrow>
         if \<not> local_is_replica sh1 (pl_config (log_of sh1 key))
         then (Inr (produce_result (rar_topic request) (rar_partition request) (error_id NotLeaderOrFollower)),
               count_replica_error sh1, w)
         else (let (r, log1, d1) = append_replica dma request (log_of sh1 key, bs_disk sh1)
               in (r, (store_log key log1 sh1)\<lparr>bs_disk := d1\<rparr>, w)))"

definition append_replica_shard ::
    "nat \<Rightarrow> nat \<Rightarrow> nat \<Rightarrow> ReplicaAppendRequest \<Rightarrow> BrokerShard list \<times> 'w \<Rightarrow>
     (ProducePartitionResult result \<times> BrokerShard list \<times> 'w) option" where
  "append_replica_shard dma fuel i request =
     dispatch fuel (\<lambda>sh. sh\<lparr>bs_replica_appends := bs_replica_appends sh + 1\<rparr>)
       (\<lambda>sh. (produce_result (rar_topic request) (rar_partition request) partition_missing, count_replica_error sh))
       (append_replica_local dma request) (rar_topic request) (rar_partition request) i"

definition fetch_for_replica_local ::
    "ReplicaFetchRequest \<Rightarrow> BrokerShard \<times> 'w \<Rightarrow> ReplicaFetchResult result \<times> BrokerShard \<times> 'w" where
  "fetch_for_replica_local request = (\<lambda>(sh, w).
     case find_log (rfq_topic request) (rfq_partition request) sh of
       (None, sh1) \<Rightarrow> (Inr (replica_fetch_result partition_missing), sh1, w)
     | (Some key, sh1) \<Rightarrow>
         if pc_leader (pl_config (log_of sh1 key)) \<noteq> bc_node_id (bs_config sh1)
         then (Inr (replica_fetch_result (error_id NotLeaderOrFollower)), sh1, w)
         else (let (r, log1) = fetch_for_replica (rfq_offset request) (rfq_max_bytes request)
                                 (log_of sh1 key, bs_disk sh1)
               in (r, store_log key log1 sh1, w)))"

definition fetch_for_replica_shard ::
    "nat \<Rightarrow> nat \<Rightarrow> ReplicaFetchRequest \<Rightarrow> BrokerShard list \<times> 'w \<Rightarrow>
     (ReplicaFetchResult result \<times> BrokerShard list \<times> 'w) option" where
  "fetch_for_replica_shard fuel i request =
     dispatch fuel id (\<lambda>sh. (replica_fetch_result partition_missing, sh))
       (fetch_for_replica_local request) (rfq_topic request) (rfq_partition request) i"

text \<open>The three handlers that \<^verbatim>\<open>register_mercury_rpcs\<close> installs, on the shard that receives the RPC.\<close>

definition serve_replica_append ::
    "nat \<Rightarrow> nat \<Rightarrow> nat \<Rightarrow> bytes \<Rightarrow> BrokerShard list \<times> 'w \<Rightarrow> (bytes result \<times> BrokerShard list \<times> 'w) option" where
  "serve_replica_append dma fuel i payload st =
     (case decode_replica_append payload of
        Inl e \<Rightarrow> Some (Inl e, st)
      | Inr request \<Rightarrow>
          map_option (\<lambda>(r, st1).
            (rbind r (\<lambda>result. encode_replica_append_response (ppr_error_code result)
               (if ppr_error_code result = 0 then ppr_log_end_offset result else rar_base_offset request)), st1))
            (append_replica_shard dma fuel i request st))"

definition serve_replica_fetch ::
    "nat \<Rightarrow> nat \<Rightarrow> bytes \<Rightarrow> BrokerShard list \<times> 'w \<Rightarrow> (bytes result \<times> BrokerShard list \<times> 'w) option" where
  "serve_replica_fetch fuel i payload st =
     (case decode_replica_fetch payload of
        Inl e \<Rightarrow> Some (Inl e, st)
      | Inr request \<Rightarrow>
          map_option (\<lambda>(r, st1). (rbind r encode_replica_fetch_response, st1))
            (fetch_for_replica_shard fuel i request st))"

definition serve_health_ping :: "bytes \<Rightarrow> bytes result" where
  "serve_health_ping payload = Inr []"

definition send_replica_fetch ::
    "'w net \<Rightarrow> BrokerConfig \<Rightarrow> int \<Rightarrow> ReplicaFetchRequest \<Rightarrow> 'w \<Rightarrow> ReplicaFetchResult result result \<times> 'w" where
  "send_replica_fetch net config broker_id request w =
     (case find_broker config broker_id of
        None \<Rightarrow> (Inr (Inl (RuntimeError ''replica broker is not configured'')), w)
      | Some broker \<Rightarrow>
          (case encode_replica_fetch request of
             Inl e \<Rightarrow> (Inl e, w)
           | Inr payload \<Rightarrow>
               (let (reply, w1) = net (be_mercury_address broker) ''replica_fetch'' payload w
                in (Inr (rbind reply decode_replica_fetch_response), w1))))"

end
