(* ===== verification/Broker_Control.thy ===== *)
theory Broker_Control
  imports Broker_Shard
begin

text \<open>
  The control plane of a broker shard: start, stop, reload of the configuration, and the
  maintenance that the one-second timer runs (health pings and catch-up of followers). The
  start of the RPC layer and the listening socket are parameters that succeed or fail.
\<close>

section \<open>Start, stop and reload\<close>

definition default_partition_config :: PartitionConfig where
  "default_partition_config =
     \<lparr>pc_topic = [], pc_partition = 0, pc_shard = 0, pc_replicas = [], pc_isr = [],
      pc_durability = DurWrite, pc_queue_limit = 8192, pc_max_frame_bytes = 1024 * 1024,
      pc_fetch_visibility = HighWatermark, pc_allow_follower_fetch = False, pc_leader = 0,
      pc_migration_generation = 0, pc_migration_target_shard = 0, pc_migration_target_leader = - 1\<rparr>"

definition shard_partitions :: "nat \<Rightarrow> BrokerConfig \<Rightarrow> PartitionConfig list" where
  "shard_partitions i config = filter (\<lambda>q. pc_shard q = i) (concat (map tc_partitions (bc_topics config)))"

abbreviation partition_tp :: "PartitionConfig \<Rightarrow> TopicPartition" where
  "partition_tp q \<equiv> \<lparr>tp_topic = pc_topic q, tp_partition = pc_partition q\<rparr>"

text \<open>\<^verbatim>\<open>emplace_partition_log\<close> and \<^verbatim>\<open>log.start\<close>, with the future it returns.\<close>

definition start_partition ::
    "nat \<Rightarrow> nat \<Rightarrow> PartitionConfig \<Rightarrow> unit result list \<times> BrokerShard \<Rightarrow> unit result list \<times> BrokerShard" where
  "start_partition dma segment_bytes q = (\<lambda>(starts, sh).
     let (key, t) = emplace_partition_log (new_log default_partition_config) (partition_tp q) (bs_table sh);
         sh1 = sh\<lparr>bs_table := t\<rparr>;
         (r, log, d) = start_log dma q segment_bytes (log_of sh1 key, bs_disk sh1)
     in (starts @ [r], (store_log key log sh1)\<lparr>bs_disk := d\<rparr>))"

definition arm_maintenance_timer :: "BrokerShard \<Rightarrow> BrokerShard" where
  "arm_maintenance_timer sh = (if \<not> bs_stopping sh then sh\<lparr>bs_timer_armed := True\<rparr> else sh)"

definition start_broker ::
    "nat \<Rightarrow> (string \<Rightarrow> unit result) \<Rightarrow> (string \<Rightarrow> nat \<Rightarrow> unit result) \<Rightarrow> nat \<Rightarrow> BrokerConfig \<Rightarrow> BrokerShard \<Rightarrow>
     unit result \<times> BrokerShard" where
  "start_broker dma mercury_start listen i config sh =
     (let (starts, sh1) = fold (start_partition dma (bc_segment_bytes config)) (shard_partitions i config)
                            ([], sh\<lparr>bs_config := config\<rparr>)
      in case find_broker config (bc_node_id config) of
           None \<Rightarrow> (Inl (RuntimeError ''local broker is missing from config''), sh1)
         | Some broker \<Rightarrow>
             (case rbind (when_all_succeed starts) (\<lambda>_. mercury_start (be_mercury_address broker)) of
                Inl e \<Rightarrow> (Inl e, sh1)
              | Inr _ \<Rightarrow>
                  (case listen (be_kafka_host broker) (be_kafka_port broker) of
                     Inl e \<Rightarrow> (Inl e, sh1\<lparr>bs_mercury_running := True\<rparr>)
                   | Inr _ \<Rightarrow>
                       (Inr (), arm_maintenance_timer (sh1\<lparr>bs_mercury_running := True, bs_listening := True\<rparr>)))))"

definition stop_logs :: "PartitionLog PartitionTable \<Rightarrow> PartitionLog PartitionTable" where
  "stop_logs t = t\<lparr>pt_partitions := map (\<lambda>e. e\<lparr>pe_log := stop_log (pe_log e)\<rparr>) (pt_partitions t)\<rparr>"

definition stop_broker :: "BrokerShard \<Rightarrow> BrokerShard" where
  "stop_broker sh =
     sh\<lparr>bs_stopping := True, bs_timer_armed := False, bs_listening := False, bs_gate_closed := True,
        bs_table := stop_logs (bs_table sh), bs_mercury_running := False\<rparr>"

definition reload_partition ::
    "nat \<Rightarrow> nat \<Rightarrow> PartitionConfig \<Rightarrow> unit result list \<times> BrokerShard \<Rightarrow> unit result list \<times> BrokerShard" where
  "reload_partition dma segment_bytes q = (\<lambda>(starts, sh).
     case find_log (pc_topic q) (pc_partition q) sh of
       (Some key, sh1) \<Rightarrow> (starts, store_log key (update_config q (log_of sh1 key)) sh1)
     | (None, sh1) \<Rightarrow> start_partition dma segment_bytes q (starts, sh1))"

definition apply_config :: "nat \<Rightarrow> nat \<Rightarrow> BrokerConfig \<Rightarrow> BrokerShard \<Rightarrow> unit result \<times> BrokerShard" where
  "apply_config dma i config sh =
     (case validate_reload (bs_config sh) config of
        Inl e \<Rightarrow> (Inl e, sh)
      | Inr _ \<Rightarrow>
          (let (starts, sh1) = fold (reload_partition dma (bc_segment_bytes config)) (shard_partitions i config) ([], sh)
           in case when_all_succeed starts of
                Inl e \<Rightarrow> (Inl e, sh1)
              | Inr _ \<Rightarrow> (Inr (), sh1\<lparr>bs_config := config\<rparr>)))"

section \<open>Maintenance\<close>

definition check_peer_health :: "'w net \<Rightarrow> int \<Rightarrow> BrokerShard \<times> 'w \<Rightarrow> BrokerShard \<times> 'w" where
  "check_peer_health net broker_id = (\<lambda>(sh, w).
     case find_broker (bs_config sh) broker_id of
       None \<Rightarrow> (sh\<lparr>bs_health_failures := bs_health_failures sh + 1\<rparr>, w)
     | Some broker \<Rightarrow>
         (let sh1 = sh\<lparr>bs_health_checks := bs_health_checks sh + 1\<rparr>;
              (reply, w1) = net (be_mercury_address broker) ''health_ping'' [] w
          in case reply of
               Inr _ \<Rightarrow> (sh1, w1)
             | Inl _ \<Rightarrow> (sh1\<lparr>bs_health_failures := bs_health_failures sh1 + 1\<rparr>, w1)))"

abbreviation count_catchup_error :: "BrokerShard \<Rightarrow> BrokerShard" where
  "count_catchup_error sh \<equiv> sh\<lparr>bs_catchup_errors := bs_catchup_errors sh + 1\<rparr>"

text \<open>The continuation of the append of the records that catch-up has fetched.\<close>

definition catch_up_appended :: "PartitionConfig \<Rightarrow> int \<Rightarrow> ProducePartitionResult result \<Rightarrow> BrokerShard \<Rightarrow> BrokerShard" where
  "catch_up_appended q local_end appended sh =
     (case appended of
        Inl _ \<Rightarrow> count_catchup_error sh
      | Inr result \<Rightarrow>
          if ppr_error_code result \<noteq> 0 then count_catchup_error sh
          else let sh1 = sh\<lparr>bs_catchup_records := bs_catchup_records sh + nat (max 0 (ppr_log_end_offset result - local_end))\<rparr>
               in case find_log (pc_topic q) (pc_partition q) sh1 of
                    (None, sh2) \<Rightarrow> sh2
                  | (Some key, sh2) \<Rightarrow>
                      let log = log_of sh2 key
                      in if pl_latest log \<ge> ppr_log_end_offset result
                         then store_log key (mark_replicated_through (pl_latest log) log) sh2 else sh2)"

definition catch_up_append_request :: "PartitionConfig \<Rightarrow> int \<Rightarrow> ReplicaFetchResult \<Rightarrow> ReplicaAppendRequest" where
  "catch_up_append_request q local_end result =
     \<lparr>rar_topic = pc_topic q, rar_partition = pc_partition q, rar_base_offset = local_end,
      rar_leader_high_watermark = rfr_leader_high_watermark result, rar_records = rfr_records result\<rparr>"

text \<open>Catch-up of a partition of shard \<open>i\<close>; the outer result is what the call throws at once.\<close>

definition catch_up_follower_partition ::
    "nat \<Rightarrow> 'w net \<Rightarrow> nat \<Rightarrow> nat \<Rightarrow> PartitionConfig \<Rightarrow> BrokerShard list \<times> 'w \<Rightarrow>
     (unit result \<times> BrokerShard list \<times> 'w) option" where
  "catch_up_follower_partition dma net fuel i q = (\<lambda>(node, w).
     case find_log (pc_topic q) (pc_partition q) (node ! i) of
       (None, sh1) \<Rightarrow> Some (Inr (), node[i := sh1], w)
     | (Some key, sh1) \<Rightarrow>
         (let local_end = pl_latest (log_of sh1 key);
              request = \<lparr>rfq_topic = pc_topic q, rfq_partition = pc_partition q, rfq_offset = local_end,
                         rfq_max_bytes = kReplicaCatchupMaxBytes\<rparr>;
              sh2 = sh1\<lparr>bs_catchup_attempts := bs_catchup_attempts sh1 + 1\<rparr>
          in case send_replica_fetch net (bs_config sh2) (pc_leader q) request w of
               (Inl e, w1) \<Rightarrow> Some (Inl e, node[i := sh2], w1)
             | (Inr (Inl _), w1) \<Rightarrow> Some (Inr (), node[i := count_catchup_error sh2], w1)
             | (Inr (Inr result), w1) \<Rightarrow>
                 if rfr_error_code result \<noteq> 0 \<or> rfr_records result = [] then Some (Inr (), node[i := sh2], w1)
                 else map_option (\<lambda>(appended, node1, w2).
                        (Inr (), node1[i := catch_up_appended q local_end appended (node1 ! i)], w2))
                        (append_replica_shard dma fuel i (catch_up_append_request q local_end result) (node[i := sh2], w1))))"

text \<open>The partitions that this shard follows, in table order.\<close>

definition followed_partitions :: "BrokerShard \<Rightarrow> PartitionConfig list" where
  "followed_partitions sh =
     filter (\<lambda>q. local_is_replica sh q \<and> pc_leader q \<noteq> bc_node_id (bs_config sh))
       (map (\<lambda>e. pl_config (pe_log e)) (pt_partitions (bs_table sh)))"

fun catch_up_all ::
    "nat \<Rightarrow> 'w net \<Rightarrow> nat \<Rightarrow> nat \<Rightarrow> PartitionConfig list \<Rightarrow> BrokerShard list \<times> 'w \<Rightarrow>
     (unit result \<times> BrokerShard list \<times> 'w) option" where
  "catch_up_all dma net fuel i [] st = Some (Inr (), st)"
| "catch_up_all dma net fuel i (q # qs) st =
     (case catch_up_follower_partition dma net fuel i q st of
        None \<Rightarrow> None
      | Some (Inl e, st1) \<Rightarrow> Some (Inl e, st1)
      | Some (Inr _, st1) \<Rightarrow> catch_up_all dma net fuel i qs st1)"

definition maintenance_once ::
    "nat \<Rightarrow> 'w net \<Rightarrow> nat \<Rightarrow> nat \<Rightarrow> BrokerShard list \<times> 'w \<Rightarrow> (unit result \<times> BrokerShard list \<times> 'w) option" where
  "maintenance_once dma net fuel i = (\<lambda>(node, w).
     let config = bs_config (node ! i);
         peers = filter (\<lambda>b. b \<noteq> bc_node_id config) (map be_id (bc_brokers config));
         (sh1, w1) = fold (check_peer_health net) peers (node ! i, w)
     in catch_up_all dma net fuel i (followed_partitions sh1) (node[i := sh1], w1))"

text \<open>The timer callback: the gate, the maintenance, and the timer armed again.\<close>

definition maintenance_timer ::
    "nat \<Rightarrow> 'w net \<Rightarrow> nat \<Rightarrow> nat \<Rightarrow> BrokerShard list \<times> 'w \<Rightarrow> (BrokerShard list \<times> 'w) option" where
  "maintenance_timer dma net fuel i = (\<lambda>(node, w).
     if bs_gate_closed (node ! i) then Some (node[i := arm_maintenance_timer (node ! i)], w)
     else map_option (\<lambda>(_, node1, w1). (node1[i := arm_maintenance_timer (node1 ! i)], w1))
            (maintenance_once dma net fuel i (node, w)))"

end
