(* ===== verification/Log_Properties.thy ===== *)
theory Log_Properties
  imports Log_Append
begin

text \<open>
  Properties of the partition log: appends on leader and follower, fetches, the watermark, and
  that a record set that has been produced can be fetched at the offset the producer was told.
\<close>

section \<open>A fresh log\<close>

definition fresh_log :: "nat \<Rightarrow> PartitionConfig \<Rightarrow> nat \<Rightarrow> PartitionLog" where
  "fresh_log dma config segment_bytes =
     \<lparr>pl_config = config, pl_segment_bytes = segment_bytes, pl_segments = [],
      pl_offsets = \<lparr>po_earliest = 0, po_latest = 0, po_high_watermark = 0\<rparr>,
      pl_queue_depth = 0, pl_active_base = 0, pl_write_position = 0,
      pl_alignment = max 1 dma, pl_index_entry_size = round_up kIndexEntryPayloadSize (max 1 dma),
      pl_degraded = False, pl_replica_lag = 0, pl_file_open = True, pl_index_open = True,
      pl_segment_cache = [], pl_index_position = 0, pl_index_entries = [],
      pl_index_gate_closed = False, pl_index_write_error = False, pl_disk_writes = 0, pl_disk_fsyncs = 0\<rparr>"

definition fresh_disk :: "PartitionLog \<Rightarrow> disk" where
  "fresh_disk s = [(segment_path s 0, []), (index_path s, [])]"

lemma fresh_log_ok: "log_ok dma (fresh_log dma config n) (fresh_disk (fresh_log dma config n))"
proof -
  let ?s = "fresh_log dma config n"
  have "segment_path ?s b \<noteq> segment_path ?s 0" if "0 < b" for b
    using segment_path_inject [of b 0 ?s] that by simp
  moreover have "segment_path ?s b \<noteq> index_path ?s" for b
    by (rule segment_path_not_index)
  ultimately have "\<forall>b>0. map_of (fresh_disk ?s) (segment_path ?s b) = None"
    by (simp add: fresh_disk_def)
  moreover have "map_of (fresh_disk ?s) (segment_path ?s 0) = Some []"
    by (simp add: fresh_disk_def)
  ultimately show ?thesis
    by (simp add: log_ok_def store_ok_def index_ok_def dma_aligned_def file_contents_def fresh_log_def)
qed

abbreviation sample_log :: PartitionLog where
  "sample_log \<equiv> fresh_log 4096 sample_partition 1048576"

abbreviation sample_disk :: disk where
  "sample_disk \<equiv> fresh_disk sample_log"

lemma sample_log_ok: "log_ok 4096 sample_log sample_disk"
  by (rule fresh_log_ok)

lemma length_sample_batch [simp]: "length (sample_batch delta) = 61"
  by (simp add: sample_batch_def)

lemma sample_batch_estimate: "estimate_record_count (sample_batch 0) = 1"
  using estimate_record_count_batches [of "[sample_batch 0]"] sample_batch_count [of 0]
  by (simp add: sample_batch_ok i32_def)

lemma sample_batch_nonempty: "sample_batch delta \<noteq> []"
  using length_sample_batch [of delta] by fastforce

lemma sample_write_fits: "write_fits sample_log 0 (sample_batch 0)"
  by (simp add: write_fits_def sample_batch_estimate i64_def sample_batch_nonempty fresh_log_def)

lemma sample_accepts: "append_accepts sample_log (sample_batch 0) 1"
  by (simp add: append_accepts_def fresh_log_def sample_partition_def)

section \<open>Appends\<close>

text \<open>
  C18: an append that passes the three checks takes the next offset, reports it with the new end
  of the log, extends the log by exactly its record set, stores it in the segment files and the
  index, and gives its queue slot back; the log and disk stay consistent.
\<close>

theorem append_extends_log:
  assumes "log_ok dma s d" "write_fits s (pl_latest s) records" "append_accepts s records acks"
  shows "\<exists>s' d'. append_log dma records acks (s, d) =
      (Inr ((append_response s ErrNone)\<lparr>ppr_base_offset := pl_latest s,
              ppr_log_end_offset := pl_latest s + estimate_record_count records\<rparr>), s', d') \<and>
      log_ok dma s' d' \<and> log_contents s' d' = log_contents s d @ [(pl_latest s, records)] \<and>
      pl_latest s' = pl_latest s + estimate_record_count records \<and> pl_earliest s' = pl_earliest s \<and>
      pl_high_watermark s' = (if length (pc_isr (pl_config s)) \<le> 1 then pl_latest s' else pl_high_watermark s) \<and>
      pl_queue_depth s' = pl_queue_depth s"
  using append_log_ok [OF assms] by metis

theorem append_extends_log_witness:
  "\<exists>s' d'. append_log 4096 (sample_batch 0) 1 (sample_log, sample_disk) =
      (Inr ((append_response sample_log ErrNone)\<lparr>ppr_base_offset := 0, ppr_log_end_offset := 1\<rparr>), s', d') \<and>
      log_contents s' d' = [(0, sample_batch 0)]"
proof -
  have "pl_latest sample_log = 0" "log_contents sample_log sample_disk = []"
    by (simp_all add: fresh_log_def log_contents_def)
  then show ?thesis
    using append_extends_log [OF sample_log_ok, of "sample_batch 0" 1]
      sample_write_fits sample_accepts by (auto simp: sample_batch_estimate)
qed



text \<open>
  C21: a refused append, on leader or follower, changes neither the log nor the disk and reports
  the first check that failed: size, then end of log (follower), then queue limit, then acks
  (leader).
\<close>

theorem refused_append_changes_nothing:
  "(\<not> append_accepts s records acks \<longrightarrow>
      append_log dma records acks (s, d) =
        (Inr (append_response s
           (if length records > pc_max_frame_bytes (pl_config s) then RecordListTooLarge
            else if pl_queue_depth s \<ge> pc_queue_limit (pl_config s) then RequestTimedOut else InvalidRequest)), s, d)) \<and>
   (\<not> append_replica_accepts s request \<longrightarrow>
      (\<exists>response. append_replica dma request (s, d) = (Inr response, s, d) \<and>
         ppr_error_code response = error_id
           (if length (rar_records request) > pc_max_frame_bytes (pl_config s) then RecordListTooLarge
            else if rar_base_offset request \<noteq> pl_latest s then OffsetOutOfRange else RequestTimedOut)))"
  by (simp add: append_log_rejects append_replica_rejects)

theorem refused_append_changes_nothing_witness:
  "append_log 4096 (sample_batch 0) 2 (sample_log, sample_disk) =
     (Inr (append_response sample_log InvalidRequest), sample_log, sample_disk)"
  using refused_append_changes_nothing [of sample_log "sample_batch 0" 2 4096 sample_disk undefined]
  by (simp add: append_accepts_def fresh_log_def sample_partition_def)

text \<open>
  C19: over any sequence of appends, accepted or refused, the log of a leader keeps its invariant
  and grows by exactly the accepted record sets, in order, on consecutive offsets.
\<close>

theorem appends_are_sequential:
  assumes "log_ok dma s d" "leader.all_fit dma rs (s, d)"
  shows "\<exists>s' d' new. fold (leader_step dma) rs (s, d) = (s', d') \<and> log_ok dma s' d' \<and>
      log_contents s' d' = log_contents s d @ new \<and> map snd new = leader.accepted dma rs (s, d) \<and>
      tiles (pl_latest s) new (pl_latest s')"
  using leader.run_inv [of dma "(s, d)" rs] leader.run_contents [of dma "(s, d)" rs] assms
  by (cases "fold (leader_step dma) rs (s, d)") auto

theorem appends_are_sequential_witness:
  "\<exists>s' d' new. fold (leader_step 4096) [(sample_batch 0, 1)] (sample_log, sample_disk) = (s', d') \<and>
      log_contents s' d' = log_contents sample_log sample_disk @ new \<and> map snd new = [sample_batch 0]"
proof -
  have "pl_latest sample_log = 0" by (simp add: fresh_log_def)
  then show ?thesis
    using appends_are_sequential [OF sample_log_ok, of "[(sample_batch 0, 1)]"]
      sample_write_fits sample_accepts by auto
qed

section \<open>Fetches\<close>

lemma admit_prefix: "\<exists>post. es = admit limit n es @ post"
  by (induction es arbitrary: n) auto

lemma admit_bound: "n \<le> limit \<Longrightarrow> n + sum_list (map entry_bytes (admit limit n es)) \<le> limit"
  by (induction es arbitrary: n) (auto simp: add.assoc [symmetric])

lemma admit_over: "limit < n \<Longrightarrow> admit limit n es = []"
  by (cases es) auto

lemma selected_window:
  obtains pre post where "es = pre @ selected_entries offset ve limit es @ post"
    "\<forall>e\<in>set pre. ie_last_offset e < offset" "\<forall>e\<in>set (selected_entries offset ve limit es). \<not> entry_hidden ve e"
    "sum_list (map entry_bytes (selected_entries offset ve limit es)) \<le> limit \<or>
     length (selected_entries offset ve limit es) = 1"
proof -
  let ?pre = "takeWhile (\<lambda>e. ie_last_offset e < offset) es"
  let ?rest = "dropWhile (\<lambda>e. ie_last_offset e < offset) es"
  let ?vis = "takeWhile (\<lambda>e. \<not> entry_hidden ve e) ?rest"
  have vis: "?rest = ?vis @ dropWhile (\<lambda>e. \<not> entry_hidden ve e) ?rest" by simp
  obtain post where post: "?vis = admit_first limit ?vis @ post"
    using admit_prefix by (cases ?vis) (auto simp: admit_first_def, metis)
  have "es = ?pre @ admit_first limit ?vis @ post @ dropWhile (\<lambda>e. \<not> entry_hidden ve e) ?rest"
    using vis post by (metis append.assoc takeWhile_dropWhile_id)
  moreover have "\<forall>e\<in>set (admit_first limit ?vis). \<not> entry_hidden ve e"
    using post by (metis Un_iff set_append set_takeWhileD)
  moreover have "sum_list (map entry_bytes (admit_first limit ?vis)) \<le> limit \<or> length (admit_first limit ?vis) = 1"
  proof (cases ?vis)
    case (Cons e es')
    then show ?thesis
      using admit_bound [of "entry_bytes e" limit es'] admit_over [of limit "entry_bytes e" es']
      by (cases "entry_bytes e \<le> limit") (auto simp: admit_first_def)
  qed (simp add: admit_first_def)
  ultimately show ?thesis
    using that unfolding selected_entries_def by (metis set_takeWhileD)
qed

lemma fetch_ok:
  assumes ok: "log_ok dma s d" and off: "pl_earliest s \<le> offset" "offset \<le> pl_latest s"
  defines "ve \<equiv> if pc_fetch_visibility (pl_config s) = HighWatermark then pl_high_watermark s else pl_latest s"
  shows "\<exists>s'. same_log s s' \<and> fetch offset max_bytes (s, d) =
    (Inr \<lparr>fpr_error_code = 0, fpr_high_watermark = ve, fpr_log_start_offset = pl_earliest s,
          fpr_log_end_offset = pl_latest s,
          fpr_records = concat (map (entry_payload s d)
            (selected_entries offset ve (fetch_limit max_bytes s) (pl_index_entries s)))\<rparr>, s')"
proof -
  have "index_ok s d" using ok by (simp add: log_ok_def store_ok_def)
  from read_records_selected [OF this, of offset ve "fetch_limit max_bytes s"]
  obtain s' where "same_log s s'" "read_records_from_index offset ve (fetch_limit max_bytes s) (s, d) =
      (Inr (concat (map (entry_payload s d)
        (selected_entries offset ve (fetch_limit max_bytes s) (pl_index_entries s)))), s')" by blast
  then show ?thesis
    using off by (intro exI [of _ s']) (simp add: fetch_def Let_def ve_def)
qed



section \<open>Produce, then fetch\<close>

lemma selected_last:
  assumes "\<forall>e\<in>set es. ie_last_offset e < offset" "offset \<le> ie_last_offset x" "\<not> entry_hidden ve x"
  shows "selected_entries offset ve limit (es @ [x]) = [x]"
  using assms by (simp add: selected_entries_def admit_first_def)

text \<open>
  C23: on a partition whose in-sync set is the leader alone, a record set that has been appended
  is what a fetch at the reported base offset returns, whatever the byte limit.
\<close>

theorem produce_then_fetch:
  assumes "log_ok dma s d" "write_fits s (pl_latest s) records" "append_accepts s records acks"
    and "length (pc_isr (pl_config s)) \<le> 1"
  shows "\<exists>response s1 d1 result s2. append_log dma records acks (s, d) = (Inr response, s1, d1) \<and>
      fetch (ppr_base_offset response) max_bytes (s1, d1) = (Inr result, s2) \<and>
      fpr_error_code result = 0 \<and> fpr_records result = records \<and>
      fpr_high_watermark result = ppr_log_end_offset response"
proof -
  let ?c = "estimate_record_count records"
  obtain s1 d1 where app: "append_log dma records acks (s, d) =
      (Inr ((append_response s ErrNone)\<lparr>ppr_base_offset := pl_latest s, ppr_log_end_offset := pl_latest s + ?c\<rparr>), s1, d1)"
    and ok1: "log_ok dma s1 d1" and con: "log_contents s1 d1 = log_contents s d @ [(pl_latest s, records)]"
    and l1: "pl_latest s1 = pl_latest s + ?c" and e1: "pl_earliest s1 = pl_earliest s"
    and h1: "pl_high_watermark s1 = pl_latest s + ?c"
    using append_log_ok [OF assms(1-3)] assms(4) by auto
  obtain es x where ents: "pl_index_entries s1 = es @ [x]" and x: "ie_base_offset x = pl_latest s" "entry_payload s1 d1 x = records"
    using con by (auto simp: log_contents_def map_eq_append_conv)
  have cov: "covers (pl_earliest s1) es (pl_latest s)" "ie_base_offset x \<le> ie_last_offset x"
    "pl_latest s1 = ie_last_offset x + 1"
    using ok1 by (auto simp: log_ok_def store_ok_def ents covers_snoc x(1))
  have sel: "selected_entries (pl_latest s) (pl_latest s1) limit (pl_index_entries s1) = [x]" for limit
    unfolding ents using cov x covers_last [OF cov(1)] by (intro selected_last) (auto simp: entry_hidden_def)
  have "pl_earliest s1 \<le> pl_latest s" using covers_le [OF cov(1)] .
  with fetch_ok [OF ok1, of "pl_latest s" max_bytes] l1 h1 cov x sel
  obtain s2 where "fetch (pl_latest s) max_bytes (s1, d1) =
      (Inr \<lparr>fpr_error_code = 0, fpr_high_watermark = pl_latest s1, fpr_log_start_offset = pl_earliest s1,
            fpr_log_end_offset = pl_latest s1, fpr_records = records\<rparr>, s2)" by auto
  with app l1 show ?thesis by simp
qed

theorem produce_then_fetch_witness:
  "\<exists>response s1 d1 result s2. append_log 4096 (sample_batch 0) 1 (sample_log, sample_disk) = (Inr response, s1, d1) \<and>
      fetch (ppr_base_offset response) 1 (s1, d1) = (Inr result, s2) \<and> fpr_records result = sample_batch 0"
proof -
  have "pl_latest sample_log = 0" "length (pc_isr (pl_config sample_log)) \<le> 1"
    by (simp_all add: fresh_log_def sample_partition_def)
  then show ?thesis
    using produce_then_fetch [OF sample_log_ok _ sample_accepts, of 1] sample_write_fits by auto
qed

section \<open>The watermark\<close>

lemma mark_replicated_ok:
  assumes "log_ok dma s d"
  shows "log_ok dma (mark_replicated_through offset s) d"
    "log_contents (mark_replicated_through offset s) d = log_contents s d"
proof -
  let ?s = "mark_replicated_through offset s"
  define s1 where "s1 = s\<lparr>pl_offsets := pl_offsets ?s, pl_queue_depth := pl_queue_depth s,
      pl_replica_lag := pl_replica_lag ?s, pl_disk_fsyncs := pl_disk_fsyncs s\<rparr>"
  have e: "pl_earliest s1 = pl_earliest s"
    by (simp add: s1_def mark_replicated_through_def Let_def)
  have store: "store_ok dma s1 d (pl_latest s) \<and> log_contents s1 d = log_contents s d"
    using assms by (intro store_ok_meta [OF _ e s1_def]) (simp add: log_ok_def)
  have eq: "?s = s1\<lparr>pl_degraded := False\<rparr>"
    by (simp add: s1_def mark_replicated_through_def Let_def)
  have path: "segment_path ?s = segment_path s1" by (rule segment_path_cong) (simp add: eq)
  then have "store_ok dma ?s d (pl_latest s) = store_ok dma s1 d (pl_latest s)" "log_contents ?s d = log_contents s1 d"
    unfolding eq by (simp_all add: store_ok_def index_ok_def dma_aligned_def log_contents_def entry_stored_def [abs_def]
        entry_payload_def [abs_def] entry_file_def [abs_def])
  with store assms show "log_ok dma ?s d" "log_contents ?s d = log_contents s d"
    by (auto simp: log_ok_def mark_replicated_through_def Let_def)
qed



end
