(* ===== verification/Broker_Properties.thy ===== *)
theory Broker_Properties
  imports Broker_Control Log_Properties
begin

text \<open>
  Properties of the broker shard on its own: where a request is served, what the table of logs
  holds, what an acknowledged produce means, and what a refused one leaves alone.
\<close>

section \<open>Routing\<close>

lemma dispatch_owner:
  assumes "i < length node" "owner_shard (bs_config (enter (node ! i))) topic p = Some i"
  shows "dispatch (Suc fuel) enter missing local topic p i (node, w) =
    (case local (enter (node ! i), w) of (r, sh1, w1) \<Rightarrow> Some (r, node[i := sh1], w1))"
  using assms by (simp add: Let_def)

lemma dispatch_other:
  assumes "i < length node" "k < length node" "i \<noteq> k" "owner_shard (bs_config (enter (node ! i))) topic p = Some k"
    and "owner_shard (bs_config (enter (node ! k))) topic p = Some k"
  shows "dispatch (Suc (Suc fuel)) enter missing local topic p i (node, w) =
    (case local (enter (node ! k), w) of (r, sh1, w1) \<Rightarrow> Some (r, node[i := enter (node ! i), k := sh1], w1))"
  using assms by (simp add: Let_def)

lemma dispatch_id:
  assumes "i < length node" "k < length node" "\<forall>sh\<in>set node. owner_shard (bs_config sh) topic p = Some k"
  shows "dispatch (Suc (Suc fuel)) id missing local topic p i (node, w) =
    (case local (node ! k, w) of (r, sh1, w1) \<Rightarrow> Some (r, node[k := sh1], w1))"
proof (cases "i = k")
  case True
  with assms show ?thesis using dispatch_owner [of i node id topic p "Suc fuel" missing local w] by simp
next
  case False
  with assms show ?thesis using dispatch_other [of i node k id topic p fuel missing local w] by simp
qed

text \<open>Where a configuration places a partition: on the shard of its first entry under the first topic of its name.\<close>

definition places :: "BrokerConfig \<Rightarrow> string \<Rightarrow> int \<Rightarrow> nat \<Rightarrow> bool" where
  "places config topic p k \<longleftrightarrow>
     (\<exists>before t after pre q post. bc_topics config = before @ t # after \<and> topic \<notin> tc_name ` set before \<and> tc_name t = topic \<and>
        tc_partitions t = pre @ q # post \<and> p \<notin> pc_partition ` set pre \<and> pc_partition q = p \<and> pc_shard q = k)"

definition unplaced :: "BrokerConfig \<Rightarrow> string \<Rightarrow> int \<Rightarrow> bool" where
  "unplaced config topic p \<longleftrightarrow>
     (\<forall>t\<in>set (bc_topics config). tc_name t = topic \<longrightarrow> p \<notin> pc_partition ` set (tc_partitions t))"

lemma owner_places:
  assumes "places config topic p k"
  shows "owner_shard config topic p = Some k"
proof -
  obtain before t after pre q post where c: "bc_topics config = before @ t # after" "topic \<notin> tc_name ` set before"
      "tc_name t = topic" and q: "tc_partitions t = pre @ q # post" "p \<notin> pc_partition ` set pre" "pc_partition q = p" "pc_shard q = k"
    using assms unfolding places_def by blast
  have "List.find (\<lambda>q. pc_partition q = p) (pre @ q # post) = Some q" using q(2,3) by (induction pre) auto
  then have "owner_in_topics (before @ t # after) topic p = Some k" using c(2,3) q(1,4) by (induction before) auto
  then show ?thesis by (simp add: owner_shard_def c(1))
qed

lemma owner_unplaced:
  assumes "unplaced config topic p"
  shows "owner_shard config topic p = None"
proof -
  have "owner_in_topics ts topic p = None" if "\<forall>t\<in>set ts. tc_name t = topic \<longrightarrow> p \<notin> pc_partition ` set (tc_partitions t)" for ts
    using that by (induction ts) (auto simp: find_None_iff)
  then show ?thesis using assms by (simp add: unplaced_def owner_shard_def)
qed


section \<open>The logs of a shard\<close>

text \<open>The table is in order and every log sits under the key of its configuration.\<close>

definition shard_ok :: "BrokerShard \<Rightarrow> bool" where
  "shard_ok sh \<longleftrightarrow> table_ok (bs_table sh) \<and>
     (\<forall>key log. table_log (bs_table sh) key = Some log \<longrightarrow> partition_tp (pl_config log) = key)"

abbreviation logs :: "BrokerShard \<Rightarrow> TopicPartition \<rightharpoonup> PartitionLog" where
  "logs sh \<equiv> table_log (bs_table sh)"

lemma find_log_spec:
  assumes "table_ok (bs_table sh)" "find_log topic p sh = (r, sh1)"
  shows "r = (if logs sh \<lparr>tp_topic = topic, tp_partition = p\<rparr> = None then None
              else Some \<lparr>tp_topic = topic, tp_partition = p\<rparr>)"
    "logs sh1 = logs sh" "table_ok (bs_table sh1)" "sh1 = sh\<lparr>bs_table := bs_table sh1\<rparr>" "shard_ok sh1 = shard_ok sh"
proof -
  let ?key = "\<lparr>tp_topic = topic, tp_partition = p\<rparr>"
  have f: "sh1 = sh\<lparr>bs_table := snd (find_partition_log ?key (bs_table sh))\<rparr>" "r = fst (find_partition_log ?key (bs_table sh))"
    using assms(2) by (simp_all add: find_log_def case_prod_beta)
  show "r = (if logs sh ?key = None then None else Some ?key)"
    unfolding f(2) by (rule partitions.find_result [OF assms(1)])
  show l: "logs sh1 = logs sh" using partitions.find_lookup [OF assms(1)] by (simp add: f(1))
  show ok: "table_ok (bs_table sh1)" using partitions.find_inv [OF assms(1)] by (simp add: f(1))
  show "sh1 = sh\<lparr>bs_table := bs_table sh1\<rparr>" by (simp add: f(1))
  show "shard_ok sh1 = shard_ok sh" using l ok assms(1) by (simp add: shard_ok_def)
qed

lemma store_log_spec:
  assumes "table_ok (bs_table sh)"
  shows "table_ok (bs_table (store_log key log sh))"
    "logs (store_log key log sh) = (if logs sh key = None then logs sh else (logs sh)(key \<mapsto> log))"
  by (simp_all add: store_log_def partitions.store_inv [OF assms] partitions.store_lookup [OF assms])

text \<open>A lookup that finds a log, and one that does not, in the form the operations use them.\<close>

lemma find_log_Some:
  assumes "table_ok (bs_table sh)" "logs sh \<lparr>tp_topic = topic, tp_partition = p\<rparr> = Some log"
  obtains sh1 where "find_log topic p sh = (Some \<lparr>tp_topic = topic, tp_partition = p\<rparr>, sh1)"
    "logs sh1 = logs sh" "table_ok (bs_table sh1)" "sh1 = sh\<lparr>bs_table := bs_table sh1\<rparr>"
    "log_of sh1 \<lparr>tp_topic = topic, tp_partition = p\<rparr> = log"
proof -
  obtain r sh1 where f: "find_log topic p sh = (r, sh1)" by (cases "find_log topic p sh")
  note s = find_log_spec [OF assms(1) f]
  show ?thesis by (rule that [of sh1]) (use f s assms(2) in \<open>simp_all add: log_of_def\<close>)
qed

lemma find_log_None:
  assumes "table_ok (bs_table sh)" "logs sh \<lparr>tp_topic = topic, tp_partition = p\<rparr> = None"
  obtains sh1 where "find_log topic p sh = (None, sh1)" "logs sh1 = logs sh" "table_ok (bs_table sh1)"
    "sh1 = sh\<lparr>bs_table := bs_table sh1\<rparr>"
proof -
  obtain r sh1 where f: "find_log topic p sh = (r, sh1)" by (cases "find_log topic p sh")
  note s = find_log_spec [OF assms(1) f]
  show ?thesis by (rule that [of sh1]) (use f s assms(2) in simp_all)
qed

lemma settle_replication_spec:
  assumes ok: "table_ok (bs_table sh)" and log: "logs sh (partition_tp q) = Some log"
  shows "table_ok (bs_table (settle_replication q replicated sh))"
    "logs (settle_replication q replicated sh) = (logs sh)(partition_tp q \<mapsto>
       (case replicated of Inr _ \<Rightarrow> mark_replicated_through (pl_latest log) log | Inl _ \<Rightarrow> mark_degraded log))"
    "bs_disk (settle_replication q replicated sh) = bs_disk sh" "bs_config (settle_replication q replicated sh) = bs_config sh"
proof -
  let ?sh = "case replicated of Inr _ \<Rightarrow> sh | Inl _ \<Rightarrow> count_replica_error sh"
  let ?log = "case replicated of Inr _ \<Rightarrow> mark_replicated_through (pl_latest log) log | Inl _ \<Rightarrow> mark_degraded log"
  have t: "bs_table ?sh = bs_table sh" "bs_disk ?sh = bs_disk sh" "bs_config ?sh = bs_config sh" by (simp_all split: sum.splits)
  have ok': "table_ok (bs_table ?sh)" "logs ?sh (partition_tp q) = Some log" using ok log t(1) by simp_all
  obtain sh1 where f: "find_log (pc_topic q) (pc_partition q) ?sh = (Some (partition_tp q), sh1)"
    and s: "logs sh1 = logs ?sh" "table_ok (bs_table sh1)" "sh1 = ?sh\<lparr>bs_table := bs_table sh1\<rparr>" "log_of sh1 (partition_tp q) = log"
    by (rule find_log_Some [OF ok'])
  have eq: "settle_replication q replicated sh = store_log (partition_tp q) ?log sh1"
    unfolding settle_replication_def Let_def f using s(4) by (cases replicated) simp_all
  show "table_ok (bs_table (settle_replication q replicated sh))" "logs (settle_replication q replicated sh) = (logs sh)(partition_tp q \<mapsto> ?log)"
    unfolding eq using store_log_spec [OF s(2)] s(1) t(1) log by simp_all
  have "bs_disk sh1 = bs_disk sh" "bs_config sh1 = bs_config sh" using t by (subst s(3), simp)+
  then show "bs_disk (settle_replication q replicated sh) = bs_disk sh" "bs_config (settle_replication q replicated sh) = bs_config sh"
    unfolding eq by (simp_all add: store_log_def)
qed

section \<open>Acknowledged produces\<close>

lemma ensure_segment_config: "pl_config (fst (ensure_segment_for_write dma b n sd)) = pl_config (fst sd)"
  by (cases sd) (simp add: ensure_segment_for_write_def rollover_def open_active_segment_def update_dma_alignment_def)

lemma complete_write_config: "pl_config (fst (complete_write w sd)) = pl_config (fst sd)"
  by (cases sd) (simp add: complete_write_def schedule_index_entry_write_def note_index_entry_def Let_def)

lemma submit_write_config: "pl_config (snd (submit_write rs frame s)) = pl_config s"
  by (simp add: submit_write_def Let_def)

lemma write_record_set_config: "pl_config (fst (snd (write_record_set dma rs sd))) = pl_config (fst sd)"
proof -
  obtain s d where sd: "sd = (s, d)" by (cases sd)
  let ?frame = "log_frame (pl_alignment s) rs"
  obtain s1 d1 where e: "ensure_segment_for_write dma (rs_base_offset rs) (length ?frame) (s, d) = (s1, d1)"
    by (cases "ensure_segment_for_write dma (rs_base_offset rs) (length ?frame) (s, d)")
  obtain r s2 where w: "submit_write rs ?frame s1 = (r, s2)" by (cases "submit_write rs ?frame s1")
  show ?thesis
    using ensure_segment_config [of dma "rs_base_offset rs" "length ?frame" "(s, d)"] submit_write_config [of rs ?frame s1]
      complete_write_config [of _ "(s2, d1)"]
    by (cases r) (simp_all add: write_record_set_def sd e w Let_def)
qed

lemma append_write_config:
  assumes "append_write dma (response, rs, s) d = (r, s', d')"
  shows "pl_config s' = pl_config s"
proof (cases rs)
  case (Some record_set)
  obtain x s1 d1 where w: "write_record_set dma record_set (s, d) = (x, s1, d1)" by (cases "write_record_set dma record_set (s, d)")
  with assms Some write_record_set_config [of dma record_set "(s, d)"] show ?thesis
    by (cases x) (auto simp: append_write_def maybe_flush_def split: if_splits)
qed (use assms in \<open>simp add: append_write_def\<close>)

lemma append_log_config: "append_log dma records acks (s, d) = (r, s', d') \<Longrightarrow> pl_config s' = pl_config s"
  by (cases "append_admit s records acks")
    (auto simp: append_log_def append_admit_def Let_def dest: append_write_config split: if_splits)

lemma append_replica_config: "append_replica dma request (s, d) = (r, s', d') \<Longrightarrow> pl_config s' = pl_config s"
  by (cases "append_replica_admit s request")
    (auto simp: append_replica_def append_replica_admit_def Let_def dest: append_write_config split: if_splits)

lemma when_all_succeed_iff: "when_all_succeed rs = Inr () \<longleftrightarrow> (\<forall>r\<in>set rs. r = Inr ())"
  by (simp add: when_all_succeed_def foldR_unit_iff)

text \<open>The brokers at the addresses, asked one after the other, answered the payload with the error code 0.\<close>

fun all_confirmed :: "'w net \<Rightarrow> string list \<Rightarrow> bytes \<Rightarrow> 'w \<Rightarrow> 'w \<Rightarrow> bool" where
  "all_confirmed net [] payload w w' \<longleftrightarrow> w' = w"
| "all_confirmed net (a # as) payload w w' \<longleftrightarrow>
     (\<exists>reply w1. net a ''replica_append'' payload w = (Inr reply, w1) \<and> read_payload read_int16 reply = Inr 0 \<and>
        all_confirmed net as payload w1 w')"

text \<open>Every follower of the partition took the record set.\<close>

definition isr_confirmed ::
    "'w net \<Rightarrow> BrokerConfig \<Rightarrow> PartitionConfig \<Rightarrow> ProducePartitionResult \<Rightarrow> bytes \<Rightarrow> 'w \<Rightarrow> 'w \<Rightarrow> bool" where
  "isr_confirmed net config q stub records w w' \<longleftrightarrow>
     (\<forall>b\<in>set (pc_isr q). b \<noteq> bc_node_id config \<longrightarrow> find_broker config b \<noteq> None) \<and>
     (fst (isr_followers config q) \<noteq> [] \<longrightarrow>
       (\<exists>payload. encode_replica_append
            \<lparr>rar_topic = pc_topic q, rar_partition = pc_partition q, rar_base_offset = ppr_base_offset stub,
             rar_leader_high_watermark = ppr_log_end_offset stub, rar_records = records\<rparr> = Inr payload \<and>
          all_confirmed net (fst (isr_followers config q)) payload w w'))"

lemma forward_all_confirmed:
  assumes "forward_all net as payload w = (rs, w')" "\<forall>r\<in>set rs. r = Inr ()"
  shows "all_confirmed net as payload w w'"
  using assms
proof (induction "as" arbitrary: w rs)
  case (Cons a as)
  obtain reply w1 where a: "net a ''replica_append'' payload w = (reply, w1)" by (cases "net a ''replica_append'' payload w")
  obtain rs1 where as: "forward_all net as payload w1 = (rs1, w')" "rs = rbind reply check_append_reply # rs1"
    using Cons.prems(1) a by (auto split: prod.splits)
  then obtain bs where "reply = Inr bs" "read_payload read_int16 bs = Inr 0"
    using Cons.prems(2) by (auto simp: rbind_eq_Inr_iff check_append_reply_def guardR_eq_Inr)
  then show ?case using Cons.IH [OF as(1)] Cons.prems(2) a as(2) by auto
qed simp

lemma replicate_to_isr_confirmed:
  assumes "replicate_to_isr net config q stub records w = (Inr (Inr ()), w')"
  shows "isr_confirmed net config q stub records w w'"
proof -
  obtain followers failed where f: "isr_followers config q = (followers, failed)" by (cases "isr_followers config q")
  have failed: "failed = [] \<longleftrightarrow> (\<forall>b\<in>set (pc_isr q). b \<noteq> bc_node_id config \<longrightarrow> find_broker config b \<noteq> None)"
    and bad: "\<forall>r\<in>set failed. r \<noteq> Inr ()"
    using f by (auto simp: isr_followers_def Let_def filter_empty_conv)
  from assms bad have "failed = []"
    by (auto simp: replicate_to_isr_def f when_all_succeed_iff split: if_splits sum.splits prod.splits)
  with assms failed show ?thesis
    by (auto simp: isr_confirmed_def replicate_to_isr_def f when_all_succeed_iff intro: forward_all_confirmed
        split: if_splits sum.splits prod.splits)
qed

lemma produce_operation_acked:
  assumes ok: "table_ok (bs_table sh)" and log: "logs sh key = Some log" and key: "partition_tp (pl_config log) = key"
    and op: "produce_operation dma net key records (- 1) (sh, w) = (Inr result, sh', w')" and zero: "ppr_error_code result = 0"
  shows "length (pc_isr (pl_config log)) > 1 \<longrightarrow>
      isr_confirmed net (bs_config sh) (pl_config log) (replica_stub log records) records w w'"
    and "\<exists>log1. append_log dma records (- 1) (log, bs_disk sh) = (Inr result, log1, bs_disk sh') \<and>
      logs sh' = (logs sh)(key \<mapsto> mark_replicated_through (pl_latest log1) log1)"
proof -
  let ?q = "pl_config log" and ?rep = "start_replication net (bs_config sh) (pl_config log) (replica_stub log records) records w"
  have lo: "log_of sh key = log" by (simp add: log_of_def log)
  have open_gate: "\<not> bs_gate_closed sh" using op by (auto simp: produce_operation_def)
  obtain r w1 where rep: "?rep = (r, w1)" by (cases ?rep)
  obtain written log1 d1 where app: "append_log dma records (- 1) (log, bs_disk sh) = (written, log1, d1)"
    by (cases "append_log dma records (- 1) (log, bs_disk sh)")
  let ?sh1 = "(store_log key log1 sh)\<lparr>bs_disk := d1\<rparr>"
  have "r = Inr (Inr ()) \<and> written = Inr result \<and> sh' = settle_replication ?q (Inr ()) ?sh1 \<and> w' = w1"
    using op zero open_gate unfolding produce_operation_def Let_def prod.case lo rep app
    by (cases r; cases written) (auto split: if_splits sum.splits)
  then have r: "r = Inr (Inr ())" "written = Inr result" "sh' = settle_replication ?q (Inr ()) ?sh1" "w' = w1" by auto
  show "length (pc_isr ?q) > 1 \<longrightarrow> isr_confirmed net (bs_config sh) ?q (replica_stub log records) records w w'"
    using rep r by (auto simp: start_replication_def intro: replicate_to_isr_confirmed)
  have st: "table_ok (bs_table ?sh1)" "logs ?sh1 = (logs sh)(key \<mapsto> log1)"
    using store_log_spec [OF ok, of key log1] log by simp_all
  have "pl_config log1 = ?q" by (rule append_log_config [OF app])
  then have "logs ?sh1 (partition_tp ?q) = Some log1" using st(2) key by simp
  note settle = settle_replication_spec [OF st(1) this, of "Inr ()"]
  show "\<exists>log1. append_log dma records (- 1) (log, bs_disk sh) = (Inr result, log1, bs_disk sh') \<and>
      logs sh' = (logs sh)(key \<mapsto> mark_replicated_through (pl_latest log1) log1)"
    using settle(2,3) st(2) key app r by (intro exI [of _ log1]) simp
qed


section \<open>Samples\<close>

definition pair_partition :: PartitionConfig where
  "pair_partition = sample_partition\<lparr>pc_replicas := [0, 1], pc_isr := [0, 1]\<rparr>"

definition pair_config :: "int \<Rightarrow> BrokerConfig" where
  "pair_config node_id = sample_config\<lparr>bc_node_id := node_id,
     bc_brokers := [sample_broker, sample_broker\<lparr>be_id := 1, be_mercury_address := ''n''\<rparr>],
     bc_topics := [\<lparr>tc_name = ''t'', tc_partitions = [pair_partition]\<rparr>]\<rparr>"

definition one_log_shard :: "BrokerConfig \<Rightarrow> PartitionLog \<Rightarrow> disk \<Rightarrow> BrokerShard" where
  "one_log_shard config log d =
     \<lparr>bs_config = config,
      bs_table = \<lparr>pt_partitions = [\<lparr>pe_key = partition_tp (pl_config log), pe_log = log\<rparr>], pt_hot = None\<rparr>,
      bs_disk = d, bs_stopping = False, bs_listening = True, bs_timer_armed = True, bs_gate_closed = False,
      bs_mercury_running = True, bs_kafka_requests = 0, bs_kafka_errors = 0, bs_produce_errors = 0,
      bs_fetch_errors = 0, bs_replica_appends = 0, bs_replica_errors = 0, bs_health_checks = 0,
      bs_health_failures = 0, bs_catchup_attempts = 0, bs_catchup_errors = 0, bs_catchup_records = 0\<rparr>"

lemma one_log_shard_fields [simp]:
  "bs_config (one_log_shard config log d) = config" "bs_disk (one_log_shard config log d) = d"
  "bs_gate_closed (one_log_shard config log d) = False"
  "logs (one_log_shard config log d) = [partition_tp (pl_config log) \<mapsto> log]"
  by (simp_all add: one_log_shard_def table_log_def)

lemma one_log_shard_ok: "shard_ok (one_log_shard config log d)"
  by (auto simp: shard_ok_def one_log_shard_def table_ok_def table_log_def split: if_splits)

abbreviation pair_log :: PartitionLog where
  "pair_log \<equiv> fresh_log 4096 pair_partition 1048576"

abbreviation pair_shard :: "int \<Rightarrow> BrokerShard" where
  "pair_shard node_id \<equiv> one_log_shard (pair_config node_id) pair_log (fresh_disk pair_log)"

lemma pair_owner: "owner_shard (pair_config i) ''t'' 0 = Some 0" "owner_shard (pair_config i) ''u'' 0 = None"
  by (simp_all add: owner_shard_def pair_config_def pair_partition_def sample_partition_def)

lemma short_estimate: "estimate_record_count [1] = 1"
  by (simp add: estimate_record_count_def estimate_loop.simps)

lemma short_rewrite: "rewrite_record_batch_offsets [1] base = Inr [1]"
  by (simp add: rewrite_record_batch_offsets_def rewrite_loop.simps)

lemma pair_log_accepts:
  "log_ok 4096 pair_log (fresh_disk pair_log)" "write_fits pair_log 0 [1]" "append_accepts pair_log [1] (- 1)"
  "pl_latest pair_log = 0" "pl_config pair_log = pair_partition" "log_contents pair_log d = []"
  by (rule fresh_log_ok)
    (simp_all add: write_fits_def short_estimate i64_def fresh_log_def append_accepts_def pair_partition_def
      sample_partition_def log_contents_def)

lemma produce_operation_eq:
  assumes "\<not> bs_gate_closed sh" "logs sh key = Some log"
    and rep: "start_replication net (bs_config sh) (pl_config log) (replica_stub log records) records w = (Inr (Inr ()), w1)"
    and app: "append_log dma records (- 1) (log, bs_disk sh) = (Inr result, log1, d1)" and "ppr_error_code result = 0"
  shows "produce_operation dma net key records (- 1) (sh, w) =
    (Inr result, settle_replication (pl_config log) (Inr ()) ((store_log key log1 sh)\<lparr>bs_disk := d1\<rparr>), w1)"
proof -
  have lo: "log_of sh key = log" by (simp add: log_of_def assms(2))
  show ?thesis using assms(1,5) unfolding produce_operation_def Let_def prod.case lo rep app by simp
qed

text \<open>The same from the request on: an accepted produce that every follower takes is acknowledged.\<close>

lemma append_local_acked:
  fixes request :: ProducePartitionRequest
  defines "key \<equiv> \<lparr>tp_topic = ppq_topic request, tp_partition = ppq_partition request\<rparr>"
  assumes ok: "shard_ok sh" and log: "logs sh key = Some log" and gate: "\<not> bs_gate_closed sh"
    and lead: "pc_leader (pl_config log) = bc_node_id (bs_config sh)"
    and rw: "rewrite_record_batch_offsets (ppq_records request) (pl_latest log) = Inr records"
    and rep: "start_replication net (bs_config sh) (pl_config log) (replica_stub log records) records w = (Inr (Inr ()), w1)"
    and app: "append_log dma records (- 1) (log, bs_disk sh) = (Inr result, log1, d1)" and zero: "ppr_error_code result = 0"
  shows "\<exists>sh'. append_local dma net False request (- 1) timeout_ms (sh, w) = (Inr result, sh', w1) \<and> shard_ok sh' \<and>
      logs sh' = (logs sh)(key \<mapsto> mark_replicated_through (pl_latest log1) log1) \<and> bs_disk sh' = d1 \<and>
      bs_config sh' = bs_config sh"
proof -
  have tok: "table_ok (bs_table sh)" and key: "partition_tp (pl_config log) = key" using ok log by (auto simp: shard_ok_def)
  obtain sh1 where f: "find_log (ppq_topic request) (ppq_partition request) sh = (Some key, sh1)"
    and sh1: "logs sh1 = logs sh" "table_ok (bs_table sh1)" "sh1 = sh\<lparr>bs_table := bs_table sh1\<rparr>" "log_of sh1 key = log"
    using find_log_Some [OF tok, of "ppq_topic request" "ppq_partition request" log] log unfolding key_def by blast
  have same: "bs_config sh1 = bs_config sh" "bs_disk sh1 = bs_disk sh" "bs_gate_closed sh1 = bs_gate_closed sh"
    by (subst sh1(3), simp)+
  let ?sh2 = "(store_log key log1 sh1)\<lparr>bs_disk := d1\<rparr>"
  have op: "produce_operation dma net key records (- 1) (sh1, w) =
      (Inr result, settle_replication (pl_config log) (Inr ()) ?sh2, w1)"
    by (rule produce_operation_eq) (use gate log rep app zero sh1(1) same in simp_all)
  have st: "table_ok (bs_table ?sh2)" "logs ?sh2 = (logs sh)(key \<mapsto> log1)" "bs_config ?sh2 = bs_config sh"
    using store_log_spec [OF sh1(2), of key log1] log sh1(1) same(1) by (simp_all add: store_log_def)
  have c: "pl_config log1 = pl_config log" by (rule append_log_config [OF app])
  have "logs ?sh2 (partition_tp (pl_config log)) = Some log1" using st(2) key by simp
  note settle = settle_replication_spec [OF st(1) this, of "Inr ()"]
  have logs': "logs (settle_replication (pl_config log) (Inr ()) ?sh2) = (logs sh)(key \<mapsto> mark_replicated_through (pl_latest log1) log1)"
    using settle(2) st(2) key by simp
  have "pl_config (mark_replicated_through (pl_latest log1) log1) = pl_config log"
    by (simp add: mark_replicated_through_def Let_def c)
  then have "shard_ok (settle_replication (pl_config log) (Inr ()) ?sh2)"
    using settle(1) ok key unfolding shard_ok_def logs' by (auto split: if_splits)
  moreover have "append_local dma net False request (- 1) timeout_ms (sh, w) =
      (Inr result, settle_replication (pl_config log) (Inr ()) ?sh2, w1)"
    using lead rw by (simp add: append_local_def f sh1(4) same(1) op)
  ultimately show ?thesis using logs' settle(3,4) st(3) by simp
qed



end
