(* ===== verification/Cluster.thy ===== *)
theory Cluster
  imports Broker_Properties
begin

text \<open>
  Several nodes together. The RPC layer, a parameter of the broker shard, is here the one that
  delivers: a call goes to the handler that the node at that address has registered. On such a
  cluster a produce with \<^verbatim>\<open>acks=-1\<close> brings leader and followers to the same log.
\<close>

section \<open>A network that delivers\<close>

type_synonym cluster = "string \<rightharpoonup> BrokerShard list"

text \<open>\<open>recv\<close> is the shard of a node that receives its calls.\<close>

definition cluster_net :: "nat \<Rightarrow> nat \<Rightarrow> (string \<Rightarrow> nat) \<Rightarrow> cluster net" where
  "cluster_net dma fuel recv address rpc payload c =
     (case c address of
        None \<Rightarrow> (Inl (RuntimeError ''no node at this address''), c)
      | Some node \<Rightarrow>
          (case (if rpc = ''replica_append'' then serve_replica_append dma fuel (recv address) payload (node, ())
                 else if rpc = ''replica_fetch'' then serve_replica_fetch fuel (recv address) payload (node, ())
                 else Some (serve_health_ping payload, node, ())) of
             None \<Rightarrow> (Inl (RuntimeError ''no answer''), c)
           | Some (reply, node1, _) \<Rightarrow> (reply, c(address \<mapsto> node1))))"

section \<open>A follower takes a record set\<close>

text \<open>Shard \<open>k\<close> of the node keeps, for the partition, a log in good order with these contents.\<close>

definition replica_at ::
    "nat \<Rightarrow> nat \<Rightarrow> TopicPartition \<Rightarrow> BrokerShard list \<Rightarrow> nat \<Rightarrow> PartitionLog \<Rightarrow> bool" where
  "replica_at dma i key node k log \<longleftrightarrow>
     i < length node \<and> k < length node \<and>
     (\<forall>sh\<in>set node. owner_shard (bs_config sh) (tp_topic key) (tp_partition key) = Some k) \<and>
     shard_ok (node ! k) \<and> logs (node ! k) key = Some log \<and> log_ok dma log (bs_disk (node ! k)) \<and>
     local_is_replica (node ! k) (pl_config log)"

definition has_room :: "PartitionLog \<Rightarrow> bytes \<Rightarrow> bool" where
  "has_room log records \<longleftrightarrow>
     write_fits log (pl_latest log) records \<and> length records \<le> pc_max_frame_bytes (pl_config log) \<and>
     pl_queue_depth log < pc_queue_limit (pl_config log)"

abbreviation replica_request :: "TopicPartition \<Rightarrow> int \<Rightarrow> bytes \<Rightarrow> ReplicaAppendRequest" where
  "replica_request key base records \<equiv>
     \<lparr>rar_topic = tp_topic key, rar_partition = tp_partition key, rar_base_offset = base,
      rar_leader_high_watermark = base + estimate_record_count records, rar_records = records\<rparr>"

lemma append_replica_local_ok:
  assumes ok: "shard_ok sh" and log: "logs sh \<lparr>tp_topic = rar_topic r, tp_partition = rar_partition r\<rparr> = Some log"
    and rep: "local_is_replica sh (pl_config log)" and app: "append_replica dma r (log, bs_disk sh) = (result, log1, d1)"
  shows "\<exists>sh'. append_replica_local dma r (sh, w) = (result, sh', w) \<and> shard_ok sh' \<and> bs_config sh' = bs_config sh \<and>
      bs_disk sh' = d1 \<and> logs sh' = (logs sh)(\<lparr>tp_topic = rar_topic r, tp_partition = rar_partition r\<rparr> \<mapsto> log1)"
proof -
  let ?key = "\<lparr>tp_topic = rar_topic r, tp_partition = rar_partition r\<rparr>"
  have tok: "table_ok (bs_table sh)" and key: "partition_tp (pl_config log) = ?key" using ok log by (auto simp: shard_ok_def)
  obtain sh1 where f: "find_log (rar_topic r) (rar_partition r) sh = (Some ?key, sh1)"
    and sh1: "logs sh1 = logs sh" "table_ok (bs_table sh1)" "sh1 = sh\<lparr>bs_table := bs_table sh1\<rparr>" "log_of sh1 ?key = log"
    by (rule find_log_Some [OF tok log])
  have same: "bs_config sh1 = bs_config sh" "bs_disk sh1 = bs_disk sh" by (subst sh1(3), simp)+
  let ?sh' = "(store_log ?key log1 sh1)\<lparr>bs_disk := d1\<rparr>"
  have "append_replica_local dma r (sh, w) = (result, ?sh', w)"
    using rep app same by (simp add: append_replica_local_def f sh1(4) local_is_replica_def)
  moreover have logs': "logs ?sh' = (logs sh)(?key \<mapsto> log1)" and "table_ok (bs_table ?sh')"
    using store_log_spec [OF sh1(2), of ?key log1] log sh1(1) by simp_all
  moreover have "shard_ok ?sh'"
    using ok append_replica_config [OF app] key calculation(3) unfolding shard_ok_def logs' by (auto split: if_splits)
  ultimately show ?thesis using same(1) by (intro exI [of _ ?sh']) (simp add: store_log_def)
qed

text \<open>A hop to the owner counts the request on both shards and leaves the first one otherwise alone.\<close>

lemma dispatch_counting:
  assumes "i < length node" "k < length node" "\<forall>sh\<in>set node. owner_shard (bs_config sh) topic p = Some k"
    and "\<forall>sh. bs_config (enter sh) = bs_config sh"
  shows "\<exists>node1. dispatch (Suc (Suc fuel)) enter missing local topic p i (node, w) =
      (case local (enter (node ! k), w) of (r, sh1, w1) \<Rightarrow> Some (r, node1[k := sh1], w1)) \<and> length node1 = length node \<and>
      (\<forall>j<length node. bs_config (node1 ! j) = bs_config (node ! j))"
proof (cases "i = k")
  case True
  with assms show ?thesis
    using dispatch_owner [of i node enter topic p "Suc fuel" missing local w] by (intro exI [of _ node]) simp
next
  case False
  with assms show ?thesis
    using dispatch_other [of i node k enter topic p fuel missing local w]
    by (intro exI [of _ "node[i := enter (node ! i)]"]) (simp add: nth_list_update)
qed

lemma append_response_reply:
  assumes "i64 log_end"
  shows "\<exists>reply. encode_replica_append_response 0 log_end = Inr reply \<and> check_append_reply reply = Inr ()"
  using assms
  by (simp add: encode_replica_append_response_def check_append_reply_def read_payload_def reader_at_Nil [symmetric]
      wr_app rd_at int_ranges)

lemma append_replica_routed:
  assumes "i < length node" "k < length node"
    and "\<forall>sh\<in>set node. owner_shard (bs_config sh) (rar_topic r) (rar_partition r) = Some k"
    and loc: "append_replica_local dma r ((node ! k)\<lparr>bs_replica_appends := bs_replica_appends (node ! k) + 1\<rparr>, w) = (result, sh', w1)"
  shows "\<exists>node1. append_replica_shard dma (Suc (Suc fuel)) i r (node, w) = Some (result, node1[k := sh'], w1) \<and>
      length node1 = length node \<and> (\<forall>j<length node. bs_config (node1 ! j) = bs_config (node ! j))"
proof -
  have "\<forall>sh. bs_config (sh\<lparr>bs_replica_appends := bs_replica_appends sh + 1\<rparr>) = bs_config sh" by simp
  from dispatch_counting [OF assms(1-3) this, of fuel
      "\<lambda>sh. (produce_result (rar_topic r) (rar_partition r) partition_missing, count_replica_error sh)"
      "append_replica_local dma r" w]
  show ?thesis unfolding append_replica_shard_def loc prod.case .
qed

text \<open>Exchanging the owning shard for one with the same configuration, and an append that reaches it.\<close>

lemma replica_at_update:
  assumes "replica_at dma i key node k log" "length node1 = length node" "\<forall>j<length node. bs_config (node1 ! j) = bs_config (node ! j)"
    and "shard_ok sh" "logs sh key = Some log1" "bs_config sh = bs_config (node ! k)" "log_ok dma log1 (bs_disk sh)"
    and "pl_config log1 = pl_config log"
  shows "replica_at dma i key (node1[k := sh]) k log1"
proof -
  have "\<forall>j<length node. owner_shard (bs_config (node ! j)) (tp_topic key) (tp_partition key) = Some k" "k < length node"
    using assms(1) by (auto simp: replica_at_def)
  then have "\<forall>x\<in>set (node1[k := sh]). owner_shard (bs_config x) (tp_topic key) (tp_partition key) = Some k"
    using assms(2,3,6) by (simp add: all_set_conv_all_nth nth_list_update)
  with assms show ?thesis by (auto simp: replica_at_def local_is_replica_def)
qed

lemma replica_shard_append:
  assumes at: "replica_at dma i key node k log" and rec: "rar_topic r = tp_topic key" "rar_partition r = tp_partition key"
    and app: "append_replica dma r (log, bs_disk (node ! k)) = (x, log1, d1)" and ok: "log_ok dma log1 d1"
  shows "\<exists>node1. append_replica_shard dma (Suc (Suc fuel)) i r (node, w) = Some (x, node1, w) \<and> replica_at dma i key node1 k log1 \<and>
      bs_config (node1 ! k) = bs_config (node ! k) \<and> bs_disk (node1 ! k) = d1"
proof -
  have n: "i < length node" "k < length node" "\<forall>sh\<in>set node. owner_shard (bs_config sh) (rar_topic r) (rar_partition r) = Some k"
    using at rec by (auto simp: replica_at_def)
  have key: "\<lparr>tp_topic = rar_topic r, tp_partition = rar_partition r\<rparr> = key" using rec by simp
  let ?sh = "(node ! k)\<lparr>bs_replica_appends := bs_replica_appends (node ! k) + 1\<rparr>"
  have "shard_ok ?sh" "logs ?sh \<lparr>tp_topic = rar_topic r, tp_partition = rar_partition r\<rparr> = Some log" "local_is_replica ?sh (pl_config log)"
    "append_replica dma r (log, bs_disk ?sh) = (x, log1, d1)"
    unfolding key using at app by (simp_all add: replica_at_def shard_ok_def local_is_replica_def)
  from append_replica_local_ok [OF this, of w] obtain sh' where
    loc: "append_replica_local dma r (?sh, w) = (x, sh', w)" and sh': "shard_ok sh'" "bs_config sh' = bs_config (node ! k)"
      "bs_disk sh' = d1" "logs sh' key = Some log1"
    unfolding key by auto
  obtain node1 where run: "append_replica_shard dma (Suc (Suc fuel)) i r (node, w) = Some (x, node1[k := sh'], w)"
    and n1: "length node1 = length node" "\<forall>j<length node. bs_config (node1 ! j) = bs_config (node ! j)"
    using append_replica_routed [OF n loc, of fuel] by blast
  have "replica_at dma i key (node1[k := sh']) k log1"
    by (rule replica_at_update [OF at n1 sh'(1,4,2)]) (use ok sh'(3) append_replica_config [OF app] in simp_all)
  with run sh' n(2) n1(1) show ?thesis by (intro exI [of _ "node1[k := sh']"]) simp
qed

lemma follower_takes:
  assumes c: "c address = Some node" and at: "replica_at dma (recv address) key node k log" and room: "has_room log records"
    and ok: "ok_replica_append (replica_request key (pl_latest log) records)"
  shows "\<exists>reply node' log'.
      cluster_net dma (Suc (Suc fuel)) recv address ''replica_append'' (replica_append_bytes (replica_request key (pl_latest log) records)) c =
        (Inr reply, c(address \<mapsto> node')) \<and> check_append_reply reply = Inr () \<and>
      replica_at dma (recv address) key node' k log' \<and> pl_latest log' = pl_latest log + estimate_record_count records \<and>
      log_contents log' (bs_disk (node' ! k)) = log_contents log (bs_disk (node ! k)) @ [(pl_latest log, records)] \<and>
      pl_high_watermark log' = pl_latest log'"
proof -
  let ?r = "replica_request key (pl_latest log) records"
  have acc: "append_replica_accepts log ?r" and fits: "write_fits log (pl_latest log) (rar_records ?r)"
    using room by (simp_all add: has_room_def append_replica_accepts_def)
  have lok: "log_ok dma log (bs_disk (node ! k))" using at by (simp add: replica_at_def)
  obtain result log1 d1 where app: "append_replica dma ?r (log, bs_disk (node ! k)) = (Inr result, log1, d1)"
    and res: "ppr_error_code result = 0" "ppr_log_end_offset result = pl_latest log + estimate_record_count records"
    and log1: "log_ok dma log1 d1" "log_contents log1 d1 = log_contents log (bs_disk (node ! k)) @ [(pl_latest log, records)]"
      "pl_latest log1 = pl_latest log + estimate_record_count records" "pl_high_watermark log1 = pl_latest log1"
    using append_replica_ok [OF lok fits acc] by auto
  obtain node1 where d: "append_replica_shard dma (Suc (Suc fuel)) (recv address) ?r (node, ()) = Some (Inr result, node1, ())"
    and n1: "replica_at dma (recv address) key node1 k log1" "bs_disk (node1 ! k) = d1"
    using replica_shard_append [OF at _ _ app log1(1), of fuel "()"] by auto
  obtain reply where reply: "encode_replica_append_response 0 (pl_latest log + estimate_record_count records) = Inr reply"
    "check_append_reply reply = Inr ()"
    using append_response_reply fits by (auto simp: write_fits_def)
  have "cluster_net dma (Suc (Suc fuel)) recv address ''replica_append'' (replica_append_bytes ?r) c = (Inr reply, c(address \<mapsto> node1))"
    using reply(1) by (simp add: cluster_net_def c serve_replica_append_def decode_encode_replica_append [OF ok] d res)
  with reply(2) log1 n1 show ?thesis by (intro exI [of _ reply] exI [of _ node1] exI [of _ log1]) simp
qed

section \<open>Leader and followers\<close>

text \<open>The node at this address has the partition with this end and these contents, in a log with property \<open>P\<close>.\<close>

definition in_sync ::
    "nat \<Rightarrow> (string \<Rightarrow> nat) \<Rightarrow> TopicPartition \<Rightarrow> int \<Rightarrow> (int \<times> bytes) list \<Rightarrow> (PartitionLog \<Rightarrow> bool) \<Rightarrow> cluster \<Rightarrow> string \<Rightarrow> bool" where
  "in_sync dma recv key latest contents P c address \<longleftrightarrow>
     (\<exists>node k log. c address = Some node \<and> replica_at dma (recv address) key node k log \<and> P log \<and>
        pl_latest log = latest \<and> log_contents log (bs_disk (node ! k)) = contents)"

lemma in_sync_cong: "c' a = c a \<Longrightarrow> in_sync dma recv key latest contents P c' a = in_sync dma recv key latest contents P c a"
  by (simp add: in_sync_def)

lemma forward_all_in_sync:
  assumes "distinct as" "\<forall>a\<in>set as. in_sync dma recv key base contents (\<lambda>log. has_room log records) c a"
    and ok: "ok_replica_append (replica_request key base records)"
  shows "\<exists>rs c'. forward_all (cluster_net dma (Suc (Suc fuel)) recv) as (replica_append_bytes (replica_request key base records)) c = (rs, c') \<and>
      (\<forall>r\<in>set rs. r = Inr ()) \<and>
      (\<forall>a\<in>set as. in_sync dma recv key (base + estimate_record_count records) (contents @ [(base, records)])
         (\<lambda>log. pl_high_watermark log = pl_latest log) c' a) \<and>
      (\<forall>a. a \<notin> set as \<longrightarrow> c' a = c a)"
  using assms(1,2)
proof (induction as arbitrary: c)
  case (Cons a as)
  let ?net = "cluster_net dma (Suc (Suc fuel)) recv" and ?bytes = "replica_append_bytes (replica_request key base records)"
  let ?after = "in_sync dma recv key (base + estimate_record_count records) (contents @ [(base, records)])
      (\<lambda>log. pl_high_watermark log = pl_latest log)"
  from Cons.prems(2) obtain node k log where pre: "c a = Some node" "replica_at dma (recv a) key node k log" "has_room log records"
    "pl_latest log = base" "log_contents log (bs_disk (node ! k)) = contents"
    by (auto simp: in_sync_def)
  from follower_takes [where c = c and address = a and recv = recv and fuel = fuel, OF pre(1-3)] ok pre(4,5) obtain reply node' log' where
    net: "?net a ''replica_append'' ?bytes c = (Inr reply, c(a \<mapsto> node'))" "check_append_reply reply = Inr ()"
    and post: "replica_at dma (recv a) key node' k log'" "pl_latest log' = base + estimate_record_count records"
      "log_contents log' (bs_disk (node' ! k)) = contents @ [(base, records)]" "pl_high_watermark log' = pl_latest log'"
    by auto
  have synced: "?after (c(a \<mapsto> node')) a"
    unfolding in_sync_def by (intro exI [of _ node'] exI [of _ k] exI [of _ log']) (use post in simp)
  have d: "distinct as" using Cons.prems(1) by simp
  have sy: "\<forall>a'\<in>set as. in_sync dma recv key base contents (\<lambda>log. has_room log records) (c(a \<mapsto> node')) a'"
    using Cons.prems in_sync_cong [of "c(a \<mapsto> node')"] by (metis distinct.simps(2) fun_upd_other list.set_intros(2))
  from Cons.IH [OF d sy] obtain rs c' where
    fwd: "forward_all ?net as ?bytes (c(a \<mapsto> node')) = (rs, c')" "\<forall>r\<in>set rs. r = Inr ()"
    and rest: "\<forall>a'\<in>set as. ?after c' a'" "\<forall>a'. a' \<notin> set as \<longrightarrow> c' a' = (c(a \<mapsto> node')) a'"
    by blast
  have "?after c' a" using synced rest(2) Cons.prems(1) in_sync_cong [of c' a "c(a \<mapsto> node')"] by simp
  then show ?case using net fwd rest by (intro exI [of _ "Inr () # rs"] exI [of _ c']) auto
qed simp

text \<open>
  C3: on a cluster whose other in-sync brokers are reachable, hold the same log as the leader and
  have room, a produce with \<^verbatim>\<open>acks=-1\<close> succeeds: the record set gets the next offset, and leader
  and followers end up with the same log, longer by exactly that record set, and with the high
  watermark at its end. No other node changes.
\<close>

theorem acks_all_replicates:
  fixes request :: ProducePartitionRequest
  defines "key \<equiv> \<lparr>tp_topic = ppq_topic request, tp_partition = ppq_partition request\<rparr>"
  assumes ok: "shard_ok sh" and log: "logs sh key = Some log" and gate: "\<not> bs_gate_closed sh"
    and lok: "log_ok dma log (bs_disk sh)" and lead: "pc_leader (pl_config log) = bc_node_id (bs_config sh)"
    and rw: "rewrite_record_batch_offsets (ppq_records request) (pl_latest log) = Inr records"
    and room: "has_room log records"
    and isr: "length (pc_isr (pl_config log)) > 1" "isr_followers (bs_config sh) (pl_config log) = (followers, [])"
    and sync: "distinct followers" "\<forall>a\<in>set followers.
      in_sync dma recv key (pl_latest log) (log_contents log (bs_disk sh)) (\<lambda>log. has_room log records) c a"
    and wire: "ok_string (ppq_topic request)" "i32 (ppq_partition request)"
  shows "\<exists>result sh' c' log'.
      append_local dma (cluster_net dma (Suc (Suc fuel)) recv) False request (- 1) timeout_ms (sh, c) = (Inr result, sh', c') \<and>
      ppr_error_code result = 0 \<and> ppr_base_offset result = pl_latest log \<and>
      shard_ok sh' \<and> logs sh' = (logs sh)(key \<mapsto> log') \<and> log_ok dma log' (bs_disk sh') \<and>
      log_contents log' (bs_disk sh') = log_contents log (bs_disk sh) @ [(pl_latest log, records)] \<and>
      pl_high_watermark log' = pl_latest log' \<and>
      (\<forall>a\<in>set followers. in_sync dma recv key (pl_latest log') (log_contents log' (bs_disk sh'))
         (\<lambda>log. pl_high_watermark log = pl_latest log) c' a) \<and>
      (\<forall>a. a \<notin> set followers \<longrightarrow> c' a = c a)"
proof -
  let ?net = "cluster_net dma (Suc (Suc fuel)) recv" and ?n = "estimate_record_count records"
  have fits: "write_fits log (pl_latest log) records" and acc: "append_accepts log records (- 1)"
    using room by (simp_all add: has_room_def append_accepts_def)
  have ra: "ok_replica_append (replica_request key (pl_latest log) records)"
    using wire fits by (simp add: ok_replica_append_def key_def write_fits_def ok_bytes_def)
  have "partition_tp (pl_config log) = key" using ok log by (simp add: shard_ok_def)
  then have q: "pc_topic (pl_config log) = tp_topic key" "pc_partition (pl_config log) = tp_partition key" by auto
  obtain rs c' where fwd: "forward_all ?net followers (replica_append_bytes (replica_request key (pl_latest log) records)) c = (rs, c')"
    "\<forall>r\<in>set rs. r = Inr ()" and post: "\<forall>a\<in>set followers. in_sync dma recv key (pl_latest log + ?n)
        (log_contents log (bs_disk sh) @ [(pl_latest log, records)]) (\<lambda>log. pl_high_watermark log = pl_latest log) c' a"
      "\<forall>a. a \<notin> set followers \<longrightarrow> c' a = c a"
    using forward_all_in_sync [OF sync ra] by blast
  have "replicate_to_isr ?net (bs_config sh) (pl_config log) (replica_stub log records) records c = (Inr (Inr ()), c')"
    using fwd by (auto simp: replicate_to_isr_def isr(2) replica_stub_def q encode_replica_append_eq [OF ra] when_all_succeed_iff)
  then have rep: "start_replication ?net (bs_config sh) (pl_config log) (replica_stub log records) records c = (Inr (Inr ()), c')"
    using isr(1) by (simp add: start_replication_def)
  obtain result log1 d1 where app: "append_log dma records (- 1) (log, bs_disk sh) = (Inr result, log1, d1)"
    and res: "ppr_error_code result = 0" "ppr_base_offset result = pl_latest log"
    and log1: "log_ok dma log1 d1" "log_contents log1 d1 = log_contents log (bs_disk sh) @ [(pl_latest log, records)]"
      "pl_latest log1 = pl_latest log + ?n"
    using append_log_ok [OF lok fits acc] by (auto simp: append_response_def)
  obtain sh' where run: "append_local dma ?net False request (- 1) timeout_ms (sh, c) = (Inr result, sh', c')" "shard_ok sh'"
    "logs sh' = (logs sh)(key \<mapsto> mark_replicated_through (pl_latest log1) log1)" "bs_disk sh' = d1"
    using append_local_acked [OF ok _ gate lead rw rep app res(1)] log unfolding key_def by blast
  let ?log' = "mark_replicated_through (pl_latest log1) log1"
  have m: "log_ok dma ?log' d1" "log_contents ?log' d1 = log_contents log1 d1" "pl_latest ?log' = pl_latest log1"
    "pl_high_watermark ?log' = pl_latest log1"
    using mark_replicated_ok [OF log1(1), of "pl_latest log1"] by (auto simp: mark_replicated_through_def Let_def)
  show ?thesis
    by (intro exI [of _ result] exI [of _ sh'] exI [of _ c'] exI [of _ ?log'])
      (use run res m log1 post in simp)
qed

lemma pair_shard_fields:
  "owner_shard (bs_config (pair_shard i)) ''t'' 0 = Some 0" "local_is_replica (pair_shard 1) pair_partition"
  "logs (pair_shard i) \<lparr>tp_topic = ''t'', tp_partition = 0\<rparr> = Some pair_log"
  "isr_followers (pair_config 0) pair_partition = ([''n''], [])" "length (pc_isr pair_partition) > 1"
  "pc_leader pair_partition = bc_node_id (pair_config 0)"
proof -
  have q: "pc_topic pair_partition = ''t''" "pc_partition pair_partition = 0" "pc_isr pair_partition = [0, 1]" "pc_leader pair_partition = 0"
    "pc_replicas pair_partition = [0, 1]" by (simp_all add: pair_partition_def sample_partition_def)
  have c: "bc_node_id (pair_config i) = i" "find_broker (pair_config 0) 1 = Some (sample_broker\<lparr>be_id := 1, be_mercury_address := ''n''\<rparr>)" for i
    by (simp_all add: pair_config_def find_broker_def sample_broker_def)
  show "isr_followers (pair_config 0) pair_partition = ([''n''], [])"
    by (simp add: isr_followers_def q c List.map_filter_def)
  show "logs (pair_shard i) \<lparr>tp_topic = ''t'', tp_partition = 0\<rparr> = Some pair_log"
    using q pair_log_accepts(5) by simp
  show "owner_shard (bs_config (pair_shard i)) ''t'' 0 = Some 0" by (simp add: pair_owner)
qed (simp_all add: local_is_replica_def pair_config_def, simp_all add: pair_partition_def sample_partition_def)

lemma pair_log_room: "has_room pair_log [1]"
  using pair_log_accepts by (simp add: has_room_def append_accepts_def)

lemma pair_in_sync:
  "in_sync 4096 (\<lambda>_. 0) \<lparr>tp_topic = ''t'', tp_partition = 0\<rparr> 0 [] (\<lambda>log. has_room log [1]) [''n'' \<mapsto> [pair_shard 1]] ''n''"
  unfolding in_sync_def replica_at_def
  using pair_shard_fields(1) [of 1] pair_shard_fields(2,3) pair_log_room pair_log_accepts one_log_shard_ok
  by (intro exI [of _ "[pair_shard 1]"] exI [of _ 0] exI [of _ pair_log]) simp

theorem acks_all_replicates_witness:
  "\<exists>result sh' c' log'.
      append_local 4096 (cluster_net 4096 2 (\<lambda>_. 0)) False \<lparr>ppq_topic = ''t'', ppq_partition = 0, ppq_records = [1]\<rparr>
        (- 1) 0 (pair_shard 0, [''n'' \<mapsto> [pair_shard 1]]) = (Inr result, sh', c') \<and>
      ppr_error_code result = 0 \<and> log_contents log' (bs_disk sh') = [(0, [1])] \<and>
      in_sync 4096 (\<lambda>_. 0) \<lparr>tp_topic = ''t'', tp_partition = 0\<rparr> (pl_latest log') [(0, [1])]
        (\<lambda>log. pl_high_watermark log = pl_latest log) c' ''n''"
proof -
  let ?req = "\<lparr>ppq_topic = ''t'', ppq_partition = 0, ppq_records = [1]\<rparr>"
  have two: "2 = Suc (Suc 0)" by simp
  have rw: "rewrite_record_batch_offsets (ppq_records ?req) (pl_latest pair_log) = Inr [1]" by (simp add: short_rewrite)
  have wire: "ok_string (ppq_topic ?req)" "i32 (ppq_partition ?req)" by (simp_all add: ok_string_def i32_def)
  have sync: "distinct [''n'']" "\<forall>a\<in>set [''n'']. in_sync 4096 (\<lambda>_. 0) \<lparr>tp_topic = ppq_topic ?req, tp_partition = ppq_partition ?req\<rparr>
      (pl_latest pair_log) (log_contents pair_log (bs_disk (pair_shard 0))) (\<lambda>log. has_room log [1]) [''n'' \<mapsto> [pair_shard 1]] a"
    using pair_in_sync pair_log_accepts by simp_all
  have l: "logs (pair_shard 0) \<lparr>tp_topic = ppq_topic ?req, tp_partition = ppq_partition ?req\<rparr> = Some pair_log"
    "\<not> bs_gate_closed (pair_shard 0)" "log_ok 4096 pair_log (bs_disk (pair_shard 0))"
    "pc_leader (pl_config pair_log) = bc_node_id (bs_config (pair_shard 0))"
    using pair_shard_fields pair_log_accepts(1,5) by simp_all
  have isr: "length (pc_isr (pl_config pair_log)) > 1" "isr_followers (bs_config (pair_shard 0)) (pl_config pair_log) = ([''n''], [])"
    using pair_shard_fields pair_log_accepts(5) by simp_all
  show ?thesis
    using acks_all_replicates [OF one_log_shard_ok l rw pair_log_room isr sync wire, of 0 0] pair_log_accepts(4,6)
    unfolding two by auto
qed

end
