(* ===== verification/Catch_Up.thy ===== *)
theory Catch_Up
  imports Cluster
begin

text \<open>
  A follower that has fallen behind. Each maintenance round fetches the next record sets from
  the leader and appends them; when the record sets are well-formed batches, repeated rounds
  bring the follower to the end of the leader's log with the same bytes.
\<close>

section \<open>What the leader sends\<close>

lemma covers_concat: "covers from (xs @ ys) to \<longleftrightarrow> (\<exists>mid. covers from xs mid \<and> covers mid ys to)"
  by (induction xs arbitrary: "from") auto

lemma covers_inside: "covers from es to \<Longrightarrow> e \<in> set es \<Longrightarrow> ie_base_offset e < to \<and> ie_last_offset e < to"
  by (induction es arbitrary: "from") (auto dest: covers_le)

lemma same_log_ok:
  assumes "same_log s s'"
  shows "log_ok dma s' d = log_ok dma s d" "log_contents s' d = log_contents s d"
proof -
  note f = same_log_fields [OF assms]
  obtain c where "s' = s\<lparr>pl_segment_cache := c\<rparr>" using assms by (auto simp: same_log_def)
  then have g: "pl_index_entry_size s' = pl_index_entry_size s" "pl_file_open s' = pl_file_open s" "pl_index_open s' = pl_index_open s"
    "pl_offsets s' = pl_offsets s" "pl_active_base s' = pl_active_base s" "pl_write_position s' = pl_write_position s"
    by simp_all
  show "log_contents s' d = log_contents s d" by (simp add: log_contents_def f)
  show "log_ok dma s' d = log_ok dma s d"
    by (simp add: log_ok_def store_ok_def index_ok_def dma_aligned_def f g)
qed

lemma admit_first_small:
  "sum_list (map entry_bytes (admit_first limit es)) \<le> limit \<or> length (admit_first limit es) = 1"
proof (cases es)
  case (Cons e es')
  then show ?thesis
    using admit_bound [of "entry_bytes e" limit es'] admit_over [of limit "entry_bytes e" es']
    by (cases "entry_bytes e \<le> limit") (auto simp: admit_first_def)
qed (simp add: admit_first_def)

text \<open>The window of a fetch that starts between two record sets.\<close>

lemma fetch_for_replica_window:
  assumes ok: "log_ok dma s d" and con: "log_contents s d = xs @ ys"
    and t: "tiles (pl_earliest s) xs b" "tiles b ys (pl_latest s)"
  shows "\<exists>s' win rest. same_log s s' \<and> ys = win @ rest \<and> (ys \<noteq> [] \<longrightarrow> win \<noteq> []) \<and>
      (length (concat (map snd win)) \<le> fetch_limit max_bytes s \<or> length win = 1) \<and>
      fetch_for_replica b max_bytes (s, d) =
        (Inr \<lparr>rfr_error_code = 0, rfr_leader_high_watermark = pl_high_watermark s, rfr_log_end_offset = pl_latest s,
              rfr_records = concat (map snd win)\<rparr>, s')"
proof -
  let ?f = "\<lambda>e. (ie_base_offset e, entry_payload s d e)" and ?limit = "fetch_limit max_bytes s"
  obtain es1 es2 where es: "pl_index_entries s = es1 @ es2" "xs = map ?f es1" "ys = map ?f es2"
    using con by (auto simp: log_contents_def map_eq_append_conv)
  have idx: "index_ok s d" and "covers (pl_earliest s) (es1 @ es2) (pl_latest s)"
    using ok es(1) by (simp_all add: log_ok_def store_ok_def)
  then obtain m where m: "covers (pl_earliest s) es1 m" "covers m es2 (pl_latest s)" by (auto simp: covers_concat)
  have mb: "m = b" using m(2) t(2) es(3) by (cases es2) auto
  have "\<forall>e\<in>set es1. ie_last_offset e < b" using covers_last [OF m(1)] mb by blast
  then have drop1: "dropWhile (\<lambda>e. ie_last_offset e < b) (es1 @ es2) = es2"
    using m(2) mb by (cases es2) auto
  have "\<forall>e\<in>set es2. \<not> entry_hidden (pl_latest s) e"
    using covers_inside [OF m(2)] by (simp add: entry_hidden_def not_le)
  then have take2: "takeWhile (\<lambda>e. \<not> entry_hidden (pl_latest s) e) es2 = es2" by (simp add: takeWhile_eq_all_conv)
  let ?win = "admit_first ?limit es2"
  have sel: "selected_entries b (pl_latest s) ?limit (pl_index_entries s) = ?win"
    by (simp add: selected_entries_def es(1) drop1 take2)
  obtain s' where s': "same_log s s'"
    "read_records_from_index b (pl_latest s) ?limit (s, d) = (Inr (concat (map (entry_payload s d) ?win)), s')"
    using read_records_selected [OF idx, of b "pl_latest s" ?limit] unfolding sel by blast
  obtain post where post: "es2 = ?win @ post"
    using admit_prefix by (cases es2) (auto simp: admit_first_def, metis)
  have bytes: "length (concat (map (entry_payload s d) ?win)) = sum_list (map entry_bytes ?win)"
  proof (rule payloads_length)
    have "\<forall>e\<in>set (es1 @ ?win @ post). entry_stored s d e"
      using idx unfolding index_ok_def list_all_iff es(1) post [symmetric] by blast
    then show "\<forall>e\<in>set ?win. entry_stored s d e" by simp
  qed
  have "pl_earliest s \<le> b" "b \<le> pl_latest s" using covers_le m mb by blast+
  then have "fetch_for_replica b max_bytes (s, d) =
      (Inr \<lparr>rfr_error_code = 0, rfr_leader_high_watermark = pl_high_watermark s, rfr_log_end_offset = pl_latest s,
            rfr_records = concat (map snd (map ?f ?win))\<rparr>, s')"
    using s'(2) by (simp add: fetch_for_replica_def Let_def comp_def)
  moreover have "ys = map ?f ?win @ map ?f post" using post es(3) by (metis map_append)
  moreover have "ys \<noteq> [] \<longrightarrow> map ?f ?win \<noteq> []" using es(3) by (auto simp: admit_first_def split: list.splits)
  moreover have "length (concat (map snd (map ?f ?win))) \<le> ?limit \<or> length (map ?f ?win) = 1"
    using admit_first_small [of ?limit es2] bytes by (simp add: comp_def)
  ultimately show ?thesis using s'(1) by blast
qed

lemma tiles_le: "tiles from xs to \<Longrightarrow> from \<le> to"
proof (induction xs arbitrary: "from")
  case (Cons x xs)
  then have "from + estimate_record_count (snd x) \<le> to" by simp
  with estimate_record_count_nonneg [of "snd x"] show ?case by linarith
qed simp

text \<open>The node at this address leads the partition, with these contents on consecutive offsets.\<close>

definition leader_at ::
    "nat \<Rightarrow> (string \<Rightarrow> nat) \<Rightarrow> TopicPartition \<Rightarrow> string \<Rightarrow> int \<Rightarrow> (int \<times> bytes) list \<Rightarrow> int \<Rightarrow> cluster \<Rightarrow> bool" where
  "leader_at dma recv key address earliest contents latest c \<longleftrightarrow>
     (\<exists>node k log. c address = Some node \<and> replica_at dma (recv address) key node k log \<and>
        pc_leader (pl_config log) = bc_node_id (bs_config (node ! k)) \<and>
        log_contents log (bs_disk (node ! k)) = contents \<and> pl_earliest log = earliest \<and> pl_latest log = latest \<and>
        i64 (pl_high_watermark log) \<and> i64 latest)"

lemma fetch_for_replica_local_ok:
  assumes ok: "shard_ok sh" and log: "logs sh \<lparr>tp_topic = rfq_topic r, tp_partition = rfq_partition r\<rparr> = Some log"
    and lead: "pc_leader (pl_config log) = bc_node_id (bs_config sh)" and same: "same_log log log1"
    and f: "fetch_for_replica (rfq_offset r) (rfq_max_bytes r) (log, bs_disk sh) = (result, log1)"
  shows "\<exists>sh'. fetch_for_replica_local r (sh, w) = (result, sh', w) \<and> shard_ok sh' \<and> bs_config sh' = bs_config sh \<and>
      bs_disk sh' = bs_disk sh \<and> logs sh' = (logs sh)(\<lparr>tp_topic = rfq_topic r, tp_partition = rfq_partition r\<rparr> \<mapsto> log1)"
proof -
  let ?key = "\<lparr>tp_topic = rfq_topic r, tp_partition = rfq_partition r\<rparr>"
  have tok: "table_ok (bs_table sh)" and key: "partition_tp (pl_config log) = ?key" using ok log by (auto simp: shard_ok_def)
  obtain sh1 where fl: "find_log (rfq_topic r) (rfq_partition r) sh = (Some ?key, sh1)"
    and sh1: "logs sh1 = logs sh" "table_ok (bs_table sh1)" "sh1 = sh\<lparr>bs_table := bs_table sh1\<rparr>" "log_of sh1 ?key = log"
    by (rule find_log_Some [OF tok log])
  have eq: "bs_config sh1 = bs_config sh" "bs_disk sh1 = bs_disk sh" by (subst sh1(3), simp)+
  let ?sh' = "store_log ?key log1 sh1"
  have "fetch_for_replica_local r (sh, w) = (result, ?sh', w)"
    using lead f eq by (simp add: fetch_for_replica_local_def fl sh1(4))
  moreover have logs': "logs ?sh' = (logs sh)(?key \<mapsto> log1)" and "table_ok (bs_table ?sh')"
    using store_log_spec [OF sh1(2), of ?key log1] log sh1(1) by simp_all
  moreover have "pl_config log1 = pl_config log" by (rule same_log_meta [OF same])
  then have "shard_ok ?sh'" using ok key calculation(3) unfolding shard_ok_def logs' by (auto split: if_splits)
  ultimately show ?thesis using eq by (intro exI [of _ ?sh']) (simp add: store_log_def)
qed

lemma leader_answers:
  assumes lead: "leader_at dma recv key address earliest (xs @ ys) latest c"
    and t: "tiles earliest xs b" "tiles b ys latest"
    and wire: "ok_string (tp_topic key)" "i32 (tp_partition key)" "\<forall>y\<in>set ys. length (snd y) < 2 ^ 31"
    and br: "find_broker config leader = Some broker" "be_mercury_address broker = address"
  shows "\<exists>c' win rest hw. send_replica_fetch (cluster_net dma (Suc (Suc fuel)) recv) config leader
        \<lparr>rfq_topic = tp_topic key, rfq_partition = tp_partition key, rfq_offset = b, rfq_max_bytes = kReplicaCatchupMaxBytes\<rparr> c =
        (Inr (Inr \<lparr>rfr_error_code = 0, rfr_leader_high_watermark = hw, rfr_log_end_offset = latest,
                   rfr_records = concat (map snd win)\<rparr>), c') \<and>
      leader_at dma recv key address earliest (xs @ ys) latest c' \<and> i64 hw \<and>
      ys = win @ rest \<and> (ys \<noteq> [] \<longrightarrow> win \<noteq> []) \<and> (length (concat (map snd win)) \<le> 1048576 \<or> length win = 1)"
proof -
  let ?q = "\<lparr>rfq_topic = tp_topic key, rfq_partition = tp_partition key, rfq_offset = b, rfq_max_bytes = kReplicaCatchupMaxBytes\<rparr>"
  have key: "\<lparr>tp_topic = rfq_topic ?q, tp_partition = rfq_partition ?q\<rparr> = key" by simp
  from lead obtain node k log where c: "c address = Some node" and at: "replica_at dma (recv address) key node k log"
    and l: "pc_leader (pl_config log) = bc_node_id (bs_config (node ! k))" "log_contents log (bs_disk (node ! k)) = xs @ ys"
      "pl_earliest log = earliest" "pl_latest log = latest" "i64 (pl_high_watermark log)" "i64 latest"
    by (auto simp: leader_at_def)
  have n: "recv address < length node" "k < length node" "\<forall>sh\<in>set node. owner_shard (bs_config sh) (tp_topic key) (tp_partition key) = Some k"
    "shard_ok (node ! k)" "logs (node ! k) key = Some log" "log_ok dma log (bs_disk (node ! k))"
    using at by (auto simp: replica_at_def)
  obtain log1 win rest where same: "same_log log log1" and win: "ys = win @ rest" "ys \<noteq> [] \<longrightarrow> win \<noteq> []"
      "length (concat (map snd win)) \<le> fetch_limit kReplicaCatchupMaxBytes log \<or> length win = 1"
    and f: "fetch_for_replica b kReplicaCatchupMaxBytes (log, bs_disk (node ! k)) =
        (Inr \<lparr>rfr_error_code = 0, rfr_leader_high_watermark = pl_high_watermark log, rfr_log_end_offset = latest,
              rfr_records = concat (map snd win)\<rparr>, log1)"
    using fetch_for_replica_window [OF n(6) l(2), of b kReplicaCatchupMaxBytes] t l(3,4) by blast
  let ?r = "\<lparr>rfr_error_code = 0, rfr_leader_high_watermark = pl_high_watermark log, rfr_log_end_offset = latest,
              rfr_records = concat (map snd win)\<rparr>"
  have small: "length (concat (map snd win)) \<le> 1048576 \<or> length win = 1"
    using win(3) by (simp add: fetch_limit_def kReplicaCatchupMaxBytes_def)
  obtain sh' where loc: "fetch_for_replica_local ?q (node ! k, ()) = (Inr ?r, sh', ())" and sh': "shard_ok sh'"
      "bs_config sh' = bs_config (node ! k)" "bs_disk sh' = bs_disk (node ! k)" "logs sh' = (logs (node ! k))(key \<mapsto> log1)"
    using fetch_for_replica_local_ok [OF n(4), of ?q log log1 "Inr ?r" "()"] n(5) l(1) same f unfolding key by auto
  have shard: "fetch_for_replica_shard (Suc (Suc fuel)) (recv address) ?q (node, ()) = Some (Inr ?r, node[k := sh'], ())"
    using loc by (simp add: fetch_for_replica_shard_def dispatch_id [OF n(1-3)] del: dispatch.simps)
  have "0 \<le> b" "b \<le> latest" using tiles_le [OF t(1)] tiles_le [OF t(2)] n(6) l(3) by (auto simp: log_ok_def)
  then have okq: "ok_replica_fetch ?q" using wire l(6) by (simp add: ok_replica_fetch_def int_ranges kReplicaCatchupMaxBytes_def)
  have "length (concat (map snd win)) < 2 ^ 31"
  proof (cases "length win = 1")
    case True
    then obtain w where "win = [w]" by (cases win) auto
    then show ?thesis using wire(3) win(1) by simp
  qed (use small in simp)
  then have okr: "ok_replica_fetch_response ?r" using l(5,6) by (simp add: ok_replica_fetch_response_def ok_bytes_def int_ranges)
  have net: "send_replica_fetch (cluster_net dma (Suc (Suc fuel)) recv) config leader ?q c = (Inr (Inr ?r), c(address \<mapsto> node[k := sh']))"
    by (simp add: send_replica_fetch_def br encode_replica_fetch_eq [OF okq] cluster_net_def c serve_replica_fetch_def
        decode_encode_replica_fetch [OF okq] shard encode_replica_fetch_response_eq [OF okr] decode_encode_replica_fetch_response [OF okr])
  have "replica_at dma (recv address) key (node[k := sh']) k log1"
    by (rule replica_at_update [OF at refl _ sh'(1)]) (use n sh' same_log_ok [OF same] same_log_meta [OF same] in simp_all)
  then have "leader_at dma recv key address earliest (xs @ ys) latest (c(address \<mapsto> node[k := sh']))"
    unfolding leader_at_def using n(2) l sh'(2,3) same_log_ok [OF same] same_log_meta [OF same]
    by (intro exI [of _ "node[k := sh']"] exI [of _ k] exI [of _ log1]) simp
  then show ?thesis using net win(1,2) small l(5) by blast
qed

section \<open>What the follower takes\<close>

text \<open>The record sets are whole batches, so that several of them count as the sum of their counts.\<close>

definition batched :: "bytes \<Rightarrow> bool" where
  "batched records \<longleftrightarrow> (\<exists>bs. bs \<noteq> [] \<and> (\<forall>b\<in>set bs. batch_ok b) \<and> records = concat bs)"

lemma batched_append:
  assumes "batched xs" "batched ys"
  shows "batched (xs @ ys)" "estimate_record_count (xs @ ys) = estimate_record_count xs + estimate_record_count ys"
proof -
  obtain as bs where a: "as \<noteq> []" "\<forall>b\<in>set as. batch_ok b" "xs = concat as" and b: "bs \<noteq> []" "\<forall>b\<in>set bs. batch_ok b" "ys = concat bs"
    using assms by (auto simp: batched_def)
  have c: "\<forall>b\<in>set (as @ bs). batch_ok b" "as @ bs \<noteq> []" "xs @ ys = concat (as @ bs)" using a b by auto
  show "batched (xs @ ys)" using c unfolding batched_def by blast
  show "estimate_record_count (xs @ ys) = estimate_record_count xs + estimate_record_count ys"
    using estimate_record_count_batches [OF c(1,2)] estimate_record_count_batches [OF a(2,1)]
      estimate_record_count_batches [OF b(2,1)] by (simp add: a(3) b(3))
qed

lemma batched_window:
  assumes "win \<noteq> []" "\<forall>x\<in>set win. batched (snd x)" "tiles b win to"
  shows "batched (concat (map snd win)) \<and> b + estimate_record_count (concat (map snd win)) = to"
  using assms
proof (induction win arbitrary: b)
  case (Cons x win)
  show ?case
  proof (cases "win = []")
    case False
    with Cons.prems Cons.IH [OF False, of "b + estimate_record_count (snd x)"]
    have "batched (concat (map snd win)) \<and> b + estimate_record_count (snd x) + estimate_record_count (concat (map snd win)) = to"
      by simp
    with batched_append [of "snd x" "concat (map snd win)"] Cons.prems(2) show ?thesis by simp
  qed (use Cons.prems in simp)
qed simp

lemma batched_nonempty:
  assumes "batched records"
  shows "records \<noteq> []"
proof -
  obtain bs where "bs \<noteq> []" "\<forall>b\<in>set bs. batch_ok b" "records = concat bs" using assms by (auto simp: batched_def)
  then show ?thesis by (cases bs) (auto simp: batch_ok_def)
qed

text \<open>Where the next write goes: at most the segment size, or one frame into a new segment.\<close>

lemma ensure_segment_position_ok:
  assumes "ensure_segment_for_write dma b n (s, d) = (s', d')"
  shows "pl_segment_bytes s' = pl_segment_bytes s" "pl_write_position s' + n \<le> max (pl_segment_bytes s) n"
  using assms
  by (auto simp: ensure_segment_for_write_def rollover_def open_active_segment_def update_dma_alignment_def split: if_splits)

lemma write_record_set_position:
  assumes "write_record_set dma rs (s, d) = (x, s', d')"
  shows "pl_segment_bytes s' = pl_segment_bytes s \<and>
    pl_write_position s' \<le> max (pl_segment_bytes s) (length (log_frame (pl_alignment s) rs))"
proof -
  let ?frame = "log_frame (pl_alignment s) rs"
  obtain s1 d1 where e: "ensure_segment_for_write dma (rs_base_offset rs) (length ?frame) (s, d) = (s1, d1)"
    by (cases "ensure_segment_for_write dma (rs_base_offset rs) (length ?frame) (s, d)")
  obtain r s2 where w: "submit_write rs ?frame s1 = (r, s2)" by (cases "submit_write rs ?frame s1")
  then have s2: "pl_write_position s2 = pl_write_position s1 + length ?frame" "pl_segment_bytes s2 = pl_segment_bytes s1"
    by (auto simp: submit_write_def Let_def split: if_splits)
  have "pl_write_position s' = pl_write_position s2 \<and> pl_segment_bytes s' = pl_segment_bytes s2"
    using assms by (cases r)
      (auto simp: write_record_set_def e w Let_def complete_write_def schedule_index_entry_write_def split: if_splits)
  with s2 ensure_segment_position_ok [OF e] show ?thesis by simp
qed

lemma append_replica_position:
  assumes "append_replica dma r (s, d) = (x, s', d')" "0 < pl_alignment s"
  shows "pl_segment_bytes s' = pl_segment_bytes s \<and> pl_write_position s' \<le>
    max (pl_write_position s) (max (pl_segment_bytes s) (20 + length (rar_records r) + pl_alignment s))"
proof (cases "append_replica_accepts s r")
  case True
  obtain response s0 where adm: "append_replica_admit s r = (response, Some (record_set_of (rar_base_offset r) (rar_records r)), s0)"
    and s0: "pl_alignment s0 = pl_alignment s" "pl_segment_bytes s0 = pl_segment_bytes s"
    using True by (auto simp: append_replica_admit_def append_replica_accepts_def Let_def)
  let ?rs = "record_set_of (rar_base_offset r) (rar_records r)"
  have "length (log_frame (pl_alignment s) ?rs) < 20 + length (rar_records r) + pl_alignment s"
    using assms(2) round_up_less [OF assms(2)] by (simp add: length_log_frame frame_size_of_def record_set_of_def Let_def)
  moreover obtain y s1 d1 where w: "write_record_set dma ?rs (s0, d) = (y, s1, d1)" by (cases "write_record_set dma ?rs (s0, d)")
  moreover have "pl_segment_bytes s' = pl_segment_bytes s1 \<and> pl_write_position s' = pl_write_position s1"
    using assms(1) by (cases y) (auto simp: append_replica_def adm append_write_def w maybe_flush_def split: if_splits)
  ultimately show ?thesis using write_record_set_position [OF w] s0 by auto
next
  case False
  with assms(1) show ?thesis by (auto simp: append_replica_rejects)
qed

lemma catch_up_appended_ok:
  fixes local_end :: int
  assumes ok: "shard_ok sh" and log: "logs sh (partition_tp q) = Some log"
    and res: "ppr_error_code result = 0" "ppr_log_end_offset result \<le> pl_latest log"
  defines "sh' \<equiv> catch_up_appended q local_end (Inr result) sh"
  shows "shard_ok sh'" "logs sh' = (logs sh)(partition_tp q \<mapsto> mark_replicated_through (pl_latest log) log)"
    "bs_config sh' = bs_config sh" "bs_disk sh' = bs_disk sh"
proof -
  let ?sh = "sh\<lparr>bs_catchup_records := bs_catchup_records sh + nat (max 0 (ppr_log_end_offset result - local_end))\<rparr>"
  let ?log = "mark_replicated_through (pl_latest log) log"
  have tok: "table_ok (bs_table ?sh)" "logs ?sh (partition_tp q) = Some log" using ok log by (simp_all add: shard_ok_def)
  obtain sh1 where f: "find_log (pc_topic q) (pc_partition q) ?sh = (Some (partition_tp q), sh1)"
    and s: "logs sh1 = logs ?sh" "table_ok (bs_table sh1)" "sh1 = ?sh\<lparr>bs_table := bs_table sh1\<rparr>" "log_of sh1 (partition_tp q) = log"
    by (rule find_log_Some [OF tok])
  have eq: "sh' = store_log (partition_tp q) ?log sh1"
    using res s(4) by (simp add: sh'_def catch_up_appended_def Let_def f)
  show l: "logs sh' = (logs sh)(partition_tp q \<mapsto> ?log)" and "bs_config sh' = bs_config sh" "bs_disk sh' = bs_disk sh"
    unfolding eq using store_log_spec(2) [OF s(2)] s(1) log by (simp_all add: store_log_def) (subst s(3), simp)+
  have "pl_config ?log = pl_config log" by (simp add: mark_replicated_through_def Let_def)
  then show "shard_ok sh'"
    using ok log store_log_spec(1) [OF s(2)] unfolding shard_ok_def l by (auto simp: eq split: if_splits)
qed

text \<open>Shard \<open>i\<close> of the node follows the partition, with these bytes and this end, and has room for more.\<close>

definition follower_at ::
    "nat \<Rightarrow> nat \<Rightarrow> TopicPartition \<Rightarrow> BrokerConfig \<Rightarrow> PartitionConfig \<Rightarrow> bytes \<Rightarrow> int \<Rightarrow> BrokerShard list \<Rightarrow> bool" where
  "follower_at dma i key config q stored latest node \<longleftrightarrow>
     (\<exists>log. replica_at dma i key node i log \<and> bs_config (node ! i) = config \<and> pl_config log = q \<and>
        concat (map snd (log_contents log (bs_disk (node ! i)))) = stored \<and> pl_latest log = latest \<and>
        pl_queue_depth log < pc_queue_limit q \<and> pl_write_position log < 2 ^ 63 \<and> pl_segment_bytes log < 2 ^ 63)"

lemma follower_appends:
  assumes fol: "follower_at dma i key config q stored b node"
    and rec: "rar_topic r = tp_topic key" "rar_partition r = tp_partition key" "rar_base_offset r = b"
      "rar_records r \<noteq> []" "length (rar_records r) \<le> pc_max_frame_bytes q"
    and b: "i64 b" "i64 (b + estimate_record_count (rar_records r))" "pc_max_frame_bytes q < 2 ^ 31" "dma < 2 ^ 32"
  shows "\<exists>result node1. append_replica_shard dma (Suc (Suc fuel)) i r (node, w) = Some (Inr result, node1, w) \<and>
      follower_at dma i key config q (stored @ rar_records r) (b + estimate_record_count (rar_records r))
        (node1[i := catch_up_appended q b (Inr result) (node1 ! i)])"
proof -
  let ?n = "estimate_record_count (rar_records r)"
  obtain log where at: "replica_at dma i key node i log" and l: "bs_config (node ! i) = config" "pl_config log = q"
      "concat (map snd (log_contents log (bs_disk (node ! i)))) = stored" "pl_latest log = b" "pl_queue_depth log < pc_queue_limit q"
      "pl_write_position log < 2 ^ 63" "pl_segment_bytes log < 2 ^ 63"
    using fol by (auto simp: follower_at_def)
  have lok: "log_ok dma log (bs_disk (node ! i))" and qk: "partition_tp q = key" using at l(2) by (auto simp: replica_at_def shard_ok_def)
  have fits: "write_fits log (pl_latest log) (rar_records r)" and acc: "append_replica_accepts log r"
    using rec b l by (simp_all add: write_fits_def append_replica_accepts_def)
  obtain result log1 d1 where app: "append_replica dma r (log, bs_disk (node ! i)) = (Inr result, log1, d1)"
    and res: "ppr_error_code result = 0" "ppr_log_end_offset result = b + ?n"
    and log1: "log_ok dma log1 d1" "log_contents log1 d1 = log_contents log (bs_disk (node ! i)) @ [(b, rar_records r)]"
      "pl_latest log1 = b + ?n" "pl_queue_depth log1 = pl_queue_depth log" "pl_config log1 = q"
    using append_replica_ok [OF lok fits acc] l(2,4) by auto
  have al: "pl_alignment log = max 1 dma" using lok by (simp add: log_ok_def store_ok_def dma_aligned_def)
  have pos: "pl_segment_bytes log1 < 2 ^ 63" "pl_write_position log1 < 2 ^ 63"
    using append_replica_position [OF app] l(6,7) rec(5) b(3,4) unfolding al by (auto simp: less_max_iff_disj)
  obtain node1 where run: "append_replica_shard dma (Suc (Suc fuel)) i r (node, w) = Some (Inr result, node1, w)"
    and at1: "replica_at dma i key node1 i log1" and n1: "bs_config (node1 ! i) = config" "bs_disk (node1 ! i) = d1"
    using replica_shard_append [OF at rec(1,2) app log1(1), of fuel w] l(1) by auto
  have ok1: "shard_ok (node1 ! i)" "logs (node1 ! i) (partition_tp q) = Some log1" "i < length node1"
    using at1 qk by (auto simp: replica_at_def)
  note fin = catch_up_appended_ok [OF ok1(1,2) res(1), of b] and m = mark_replicated_ok [OF log1(1), of "pl_latest log1"]
  let ?sh1 = "catch_up_appended q b (Inr result) (node1 ! i)" and ?log = "mark_replicated_through (pl_latest log1) log1"
  have f: "pl_config ?log = q" "pl_latest ?log = b + ?n" "pl_queue_depth ?log = pl_queue_depth log"
    "pl_write_position ?log = pl_write_position log1" "pl_segment_bytes ?log = pl_segment_bytes log1"
    using log1 by (simp_all add: mark_replicated_through_def Let_def)
  have "replica_at dma i key (node1[i := ?sh1]) i ?log"
    by (rule replica_at_update [OF at1 refl]) (use fin res log1 n1 m f qk in simp_all)
  then have "follower_at dma i key config q (stored @ rar_records r) (b + ?n) (node1[i := ?sh1])"
    unfolding follower_at_def using fin(3,4) res log1 n1 m(2) f pos l ok1(3) by (intro exI [of _ ?log]) simp
  with run show ?thesis by blast
qed

lemma follower_found:
  assumes "follower_at dma i key config q stored b node"
  shows "\<exists>sh1. find_log (tp_topic key) (tp_partition key) (node ! i) = (Some key, sh1) \<and> pl_latest (log_of sh1 key) = b \<and>
      bs_config sh1 = config \<and> pc_topic q = tp_topic key \<and> pc_partition q = tp_partition key \<and>
      follower_at dma i key config q stored b (node[i := sh1\<lparr>bs_catchup_attempts := bs_catchup_attempts sh1 + 1\<rparr>])"
proof -
  obtain log where at: "replica_at dma i key node i log" and l: "bs_config (node ! i) = config" "pl_config log = q"
      "concat (map snd (log_contents log (bs_disk (node ! i)))) = stored" "pl_latest log = b" "pl_queue_depth log < pc_queue_limit q"
      "pl_write_position log < 2 ^ 63" "pl_segment_bytes log < 2 ^ 63"
    using assms by (auto simp: follower_at_def)
  have n: "i < length node" "shard_ok (node ! i)" using at by (auto simp: replica_at_def)
  have key: "\<lparr>tp_topic = tp_topic key, tp_partition = tp_partition key\<rparr> = key" by simp
  have lk: "logs (node ! i) key = Some log" using at by (simp add: replica_at_def)
  have tok: "table_ok (bs_table (node ! i))" "logs (node ! i) \<lparr>tp_topic = tp_topic key, tp_partition = tp_partition key\<rparr> = Some log"
    and qk: "partition_tp q = key"
    unfolding key using n(2) lk l(2) by (auto simp: shard_ok_def)
  obtain sh1 where f: "find_log (tp_topic key) (tp_partition key) (node ! i) = (Some key, sh1)"
    and s: "logs sh1 = logs (node ! i)" "table_ok (bs_table sh1)" "sh1 = (node ! i)\<lparr>bs_table := bs_table sh1\<rparr>" "log_of sh1 key = log"
    using find_log_Some [OF tok] unfolding key by blast
  have eq: "bs_config sh1 = config" "bs_disk sh1 = bs_disk (node ! i)" using l(1) by (subst s(3), simp)+
  let ?sh2 = "sh1\<lparr>bs_catchup_attempts := bs_catchup_attempts sh1 + 1\<rparr>"
  have "replica_at dma i key (node[i := ?sh2]) i log"
    by (rule replica_at_update [OF at refl]) (use n(2) s(1,2) lk eq l(1) at in \<open>simp_all add: shard_ok_def replica_at_def\<close>)
  then have "follower_at dma i key config q stored b (node[i := ?sh2])"
    unfolding follower_at_def using l n(1) eq by (intro exI [of _ log]) simp
  then show ?thesis using f s(4) l(4) eq(1) qk by (intro exI [of _ sh1]) auto
qed

lemma leader_at_range:
  "leader_at dma recv key address earliest contents latest c \<Longrightarrow> earliest \<le> x \<Longrightarrow> x \<le> latest \<Longrightarrow> i64 x"
  by (auto simp: leader_at_def replica_at_def log_ok_def i64_def)

lemma window_length:
  assumes "length (concat (map snd win)) \<le> n \<or> length win = 1" "\<forall>x\<in>set win. length (snd x) \<le> m" "n \<le> m"
  shows "length (concat (map snd win)) \<le> m"
proof (cases "length win = 1")
  case True
  then obtain x where "win = [x]" by (cases win) auto
  with assms(2) show ?thesis by simp
qed (use assms(1,3) in simp)

lemma catch_up_step:
  assumes fol: "follower_at dma i key config q stored b node"
    and lead: "leader_at dma recv key address earliest (xs @ ys) latest c"
    and t: "tiles earliest xs b" "tiles b ys latest"
    and wire: "ok_string (tp_topic key)" "i32 (tp_partition key)"
    and br: "find_broker config (pc_leader q) = Some broker" "be_mercury_address broker = address"
    and sets: "\<forall>y\<in>set ys. batched (snd y) \<and> length (snd y) \<le> pc_max_frame_bytes q"
    and lim: "1048576 \<le> pc_max_frame_bytes q" "pc_max_frame_bytes q < 2 ^ 31" "dma < 2 ^ 32"
  shows "\<exists>node' c' win rest mid.
      catch_up_follower_partition dma (cluster_net dma (Suc (Suc fuel)) recv) (Suc (Suc fuel)) i q (node, c) = Some (Inr (), node', c') \<and>
      ys = win @ rest \<and> (ys \<noteq> [] \<longrightarrow> win \<noteq> []) \<and> tiles b win mid \<and> tiles mid rest latest \<and>
      follower_at dma i key config q (stored @ concat (map snd win)) mid node' \<and>
      leader_at dma recv key address earliest (xs @ ys) latest c'"
proof -
  let ?net = "cluster_net dma (Suc (Suc fuel)) recv"
  obtain sh1 where f: "find_log (tp_topic key) (tp_partition key) (node ! i) = (Some key, sh1)" "pl_latest (log_of sh1 key) = b"
      "bs_config sh1 = config" and q: "pc_topic q = tp_topic key" "pc_partition q = tp_partition key"
    and fol2: "follower_at dma i key config q stored b (node[i := sh1\<lparr>bs_catchup_attempts := bs_catchup_attempts sh1 + 1\<rparr>])"
    using follower_found [OF fol] by blast
  let ?node2 = "node[i := sh1\<lparr>bs_catchup_attempts := bs_catchup_attempts sh1 + 1\<rparr>]"
  have sizes: "\<forall>y\<in>set ys. length (snd y) < 2 ^ 31" using sets lim(2) by fastforce
  obtain c1 win rest hw where send: "send_replica_fetch ?net config (pc_leader q) \<lparr>rfq_topic = tp_topic key,
        rfq_partition = tp_partition key, rfq_offset = b, rfq_max_bytes = kReplicaCatchupMaxBytes\<rparr> c =
        (Inr (Inr \<lparr>rfr_error_code = 0, rfr_leader_high_watermark = hw, rfr_log_end_offset = latest,
                   rfr_records = concat (map snd win)\<rparr>), c1)"
    and lead1: "leader_at dma recv key address earliest (xs @ ys) latest c1"
    and win: "ys = win @ rest" "ys \<noteq> [] \<longrightarrow> win \<noteq> []" "length (concat (map snd win)) \<le> 1048576 \<or> length win = 1"
    using leader_answers [OF lead t wire sizes br, of fuel] by blast
  obtain mid where mid: "tiles b win mid" "tiles mid rest latest" using t(2) win(1) by (auto simp: tiles_append)
  show ?thesis
  proof (cases "win = []")
    case True
    then have "catch_up_follower_partition dma ?net (Suc (Suc fuel)) i q (node, c) = Some (Inr (), ?node2, c1)"
      using send by (simp add: catch_up_follower_partition_def q f)
    moreover have "follower_at dma i key config q (stored @ concat (map snd win)) mid ?node2" using fol2 True mid(1) by simp
    ultimately show ?thesis using win(1,2) mid lead1 by blast
  next
    case False
    let ?records = "concat (map snd win)" and ?r = "catch_up_append_request q b \<lparr>rfr_error_code = 0, rfr_leader_high_watermark = hw,
        rfr_log_end_offset = latest, rfr_records = concat (map snd win)\<rparr>"
    have bt: "\<forall>x\<in>set win. batched (snd x)" "\<forall>x\<in>set win. length (snd x) \<le> pc_max_frame_bytes q"
      using sets win(1) by simp_all
    have whole: "batched ?records" "b + estimate_record_count ?records = mid"
      using batched_window [OF False bt(1) mid(1)] by simp_all
    have r: "rar_topic ?r = tp_topic key" "rar_partition ?r = tp_partition key" "rar_base_offset ?r = b" "rar_records ?r = ?records"
      by (simp_all add: catch_up_append_request_def q)
    have r': "rar_records ?r \<noteq> []" "length (rar_records ?r) \<le> pc_max_frame_bytes q"
      unfolding r(4) by (rule batched_nonempty [OF whole(1)]) (rule window_length [OF win(3) bt(2) lim(1)])
    have "earliest \<le> b" "b \<le> mid" "mid \<le> latest" using tiles_le t(1) mid by blast+
    then have range: "i64 b" "i64 (b + estimate_record_count (rar_records ?r))"
      unfolding r(4) whole(2) by (auto intro!: leader_at_range [OF lead])
    obtain result node1 where app: "append_replica_shard dma (Suc (Suc fuel)) i ?r (?node2, c1) = Some (Inr result, node1, c1)"
      and fol3: "follower_at dma i key config q (stored @ ?records) mid (node1[i := catch_up_appended q b (Inr result) (node1 ! i)])"
      using follower_appends [OF fol2 r(1-3) r' range lim(2,3), of fuel c1] unfolding r(4) whole(2) by blast
    have "catch_up_follower_partition dma ?net (Suc (Suc fuel)) i q (node, c) =
        Some (Inr (), node1[i := catch_up_appended q b (Inr result) (node1 ! i)], c1)"
      using send app r'(1) unfolding r(4) by (auto simp: catch_up_follower_partition_def q f Let_def)
    with fol3 lead1 win mid show ?thesis by blast
  qed
qed

section \<open>Convergence\<close>

fun catch_up_rounds :: "nat \<Rightarrow> ('s \<Rightarrow> (unit result \<times> 's) option) \<Rightarrow> 's \<Rightarrow> 's option" where
  "catch_up_rounds 0 round st = Some st"
| "catch_up_rounds (Suc n) round st =
     (case round st of None \<Rightarrow> None | Some (_, st1) \<Rightarrow> catch_up_rounds n round st1)"

text \<open>
  C4: a follower whose log is a prefix of the leader's catches up: as many rounds of catch-up as
  record sets are missing, and any larger number, all return and leave it with the bytes of the
  whole log and the same end, provided the record sets are whole batches, the limit of the
  partition on record sets is at least the mebibyte that catch-up asks for, and nothing is
  produced meanwhile. The log of the leader stays as it is.
\<close>

theorem follower_catches_up:
  assumes "follower_at dma i key config q (concat (map snd xs)) b node"
    and "leader_at dma recv key address earliest (xs @ ys) latest c"
    and "tiles earliest xs b" "tiles b ys latest"
    and wire: "ok_string (tp_topic key)" "i32 (tp_partition key)"
    and br: "find_broker config (pc_leader q) = Some broker" "be_mercury_address broker = address"
    and "\<forall>y\<in>set ys. batched (snd y) \<and> length (snd y) \<le> pc_max_frame_bytes q"
    and lim: "1048576 \<le> pc_max_frame_bytes q" "pc_max_frame_bytes q < 2 ^ 31" "dma < 2 ^ 32"
    and "length ys \<le> n"
  shows "\<exists>node' c'. catch_up_rounds n (catch_up_follower_partition dma (cluster_net dma (Suc (Suc fuel)) recv) (Suc (Suc fuel)) i q)
        (node, c) = Some (node', c') \<and>
      follower_at dma i key config q (concat (map snd (xs @ ys))) latest node' \<and>
      leader_at dma recv key address earliest (xs @ ys) latest c'"
  using assms(1-4,9,13)
proof (induction n arbitrary: xs ys b node c)
  case 0
  then show ?case by simp
next
  case (Suc n)
  from catch_up_step [OF Suc.prems(1-4) wire br Suc.prems(5) lim, of fuel] obtain node1 c1 win rest mid where
    step: "catch_up_follower_partition dma (cluster_net dma (Suc (Suc fuel)) recv) (Suc (Suc fuel)) i q (node, c) = Some (Inr (), node1, c1)"
    and ys: "ys = win @ rest" "ys \<noteq> [] \<longrightarrow> win \<noteq> []" and t: "tiles b win mid" "tiles mid rest latest"
    and fol: "follower_at dma i key config q (concat (map snd xs) @ concat (map snd win)) mid node1"
    and lead: "leader_at dma recv key address earliest (xs @ ys) latest c1"
    by blast
  have fol': "follower_at dma i key config q (concat (map snd (xs @ win))) mid node1" using fol by simp
  have lead': "leader_at dma recv key address earliest ((xs @ win) @ rest) latest c1" using lead ys(1) by simp
  have t': "tiles earliest (xs @ win) mid" using Suc.prems(3) t(1) by (auto simp: tiles_append)
  have rest: "\<forall>y\<in>set rest. batched (snd y) \<and> length (snd y) \<le> pc_max_frame_bytes q" "length rest \<le> n"
    using Suc.prems(5,6) ys by (simp, cases win) auto
  have all: "(xs @ win) @ rest = xs @ ys" using ys(1) by simp
  show ?case using Suc.IH [OF fol' lead' t' t(2) rest] step unfolding all by simp
qed

section \<open>A sample\<close>

definition wide_partition :: PartitionConfig where
  "wide_partition = pair_partition\<lparr>pc_max_frame_bytes := 1048576\<rparr>"

definition wide_config :: "int \<Rightarrow> BrokerConfig" where
  "wide_config node_id = (pair_config node_id)\<lparr>bc_topics := [\<lparr>tc_name = ''t'', tc_partitions = [wide_partition]\<rparr>]\<rparr>"

abbreviation wide_log :: PartitionLog where
  "wide_log \<equiv> fresh_log 4096 wide_partition 1048576"

abbreviation t0 :: TopicPartition where
  "t0 \<equiv> \<lparr>tp_topic = ''t'', tp_partition = 0\<rparr>"

lemma wide_fields:
  "partition_tp wide_partition = t0" "pc_leader wide_partition = 0" "pc_replicas wide_partition = [0, 1]"
  "pc_queue_limit wide_partition = 8" "pc_max_frame_bytes wide_partition = 1048576"
  "bc_node_id (wide_config i) = i" "owner_shard (wide_config i) ''t'' 0 = Some 0"
  "find_broker (wide_config i) 0 = Some sample_broker" "be_mercury_address sample_broker = ''m''"
  by (simp_all add: wide_partition_def wide_config_def pair_partition_def pair_config_def sample_partition_def sample_broker_def
      owner_shard_def find_broker_def)

lemma wide_log_fields:
  "log_ok 4096 wide_log (fresh_disk wide_log)" "pl_config wide_log = wide_partition" "pl_latest wide_log = 0" "pl_earliest wide_log = 0"
  "pl_high_watermark wide_log = 0" "pl_queue_depth wide_log = 0" "pl_write_position wide_log = 0" "pl_segment_bytes wide_log = 1048576"
  "log_contents wide_log d = []"
  by (rule fresh_log_ok) (simp_all add: fresh_log_def log_contents_def)

lemma wide_replica_at:
  assumes "log_ok 4096 log d" "pl_config log = wide_partition" "i = 0 \<or> i = 1"
  shows "replica_at 4096 0 t0 [one_log_shard (wide_config i) log d] 0 log"
  using assms one_log_shard_ok [of "wide_config i" log d] wide_fields
  by (auto simp: replica_at_def local_is_replica_def)

lemma wide_leader_log:
  "\<exists>log d. log_ok 4096 log d \<and> pl_config log = wide_partition \<and> log_contents log d = [(0, sample_batch 0)] \<and>
     pl_latest log = 1 \<and> pl_earliest log = 0 \<and> i64 (pl_high_watermark log)"
proof -
  have fits: "write_fits wide_log (pl_latest wide_log) (sample_batch 0)" and acc: "append_accepts wide_log (sample_batch 0) 1"
    by (simp_all add: write_fits_def append_accepts_def wide_log_fields wide_fields sample_batch_estimate sample_batch_nonempty int_ranges)
  obtain log d where "log_ok 4096 log d" "pl_config log = wide_partition" "log_contents log d = [(0, sample_batch 0)]"
    "pl_latest log = 1" "pl_earliest log = 0" "pl_high_watermark log = (if length (pc_isr wide_partition) \<le> 1 then 1 else 0)"
    using append_log_ok [OF wide_log_fields(1) fits acc] by (auto simp: wide_log_fields sample_batch_estimate)
  then show ?thesis by (intro exI [of _ log] exI [of _ d]) (simp add: int_ranges)
qed

theorem follower_catches_up_witness:
  "\<exists>log d node' c'. log_contents log d = [(0, sample_batch 0)] \<and>
     catch_up_rounds 1 (catch_up_follower_partition 4096 (cluster_net 4096 2 (\<lambda>_. 0)) 2 0 wide_partition)
       ([one_log_shard (wide_config 1) wide_log (fresh_disk wide_log)], [''m'' \<mapsto> [one_log_shard (wide_config 0) log d]]) =
       Some (node', c') \<and>
     follower_at 4096 0 t0 (wide_config 1) wide_partition (sample_batch 0) 1 node'"
proof -
  obtain log d where l: "log_ok 4096 log d" "pl_config log = wide_partition" "log_contents log d = [(0, sample_batch 0)]"
    "pl_latest log = 1" "pl_earliest log = 0" "i64 (pl_high_watermark log)"
    using wide_leader_log by blast
  let ?node = "[one_log_shard (wide_config 1) wide_log (fresh_disk wide_log)]" and ?lead = "[one_log_shard (wide_config 0) log d]"
  have fol: "follower_at 4096 0 t0 (wide_config 1) wide_partition (concat (map snd [])) 0 ?node"
    unfolding follower_at_def using wide_replica_at [OF wide_log_fields(1,2), of 1]
    by (intro exI [of _ wide_log]) (simp add: wide_log_fields wide_fields)
  have lead: "leader_at 4096 (\<lambda>_. 0) t0 ''m'' 0 ([] @ [(0, sample_batch 0)]) 1 [''m'' \<mapsto> ?lead]"
    unfolding leader_at_def using wide_replica_at [OF l(1,2), of 0] l
    by (intro exI [of _ ?lead] exI [of _ 0] exI [of _ log]) (simp add: wide_fields int_ranges)
  have t: "tiles 0 [] 0" "tiles 0 [(0, sample_batch 0)] 1" by (simp_all add: sample_batch_estimate)
  have wire: "ok_string (tp_topic t0)" "i32 (tp_partition t0)" by (simp_all add: ok_string_def i32_def)
  have br: "find_broker (wide_config 1) (pc_leader wide_partition) = Some sample_broker" using wide_fields by simp
  have sets: "\<forall>y\<in>set [(0 :: int, sample_batch 0)]. batched (snd y) \<and> length (snd y) \<le> pc_max_frame_bytes wide_partition"
    using sample_batch_ok [of 0] by (auto simp: batched_def wide_fields i32_def intro: exI [of _ "[sample_batch 0]"])
  have lim: "1048576 \<le> pc_max_frame_bytes wide_partition" "pc_max_frame_bytes wide_partition < 2 ^ 31" "(4096 :: nat) < 2 ^ 32"
    "length [(0 :: int, sample_batch 0)] \<le> 1" by (simp_all add: wide_fields)
  have two: "2 = Suc (Suc 0)" by simp
  show ?thesis
    using follower_catches_up [OF fol lead t wire br wide_fields(9) sets lim, of 0] l(3) unfolding two by auto
qed

section \<open>A limit below the catch-up size\<close>

lemma oversized_append:
  assumes fol: "follower_at dma i key config q stored b node"
    and rec: "rar_topic r = tp_topic key" "rar_partition r = tp_partition key" "pc_max_frame_bytes q < length (rar_records r)"
  shows "\<exists>response node1. append_replica_shard dma (Suc (Suc fuel)) i r (node, w) = Some (Inr response, node1, w) \<and>
      ppr_error_code response \<noteq> 0 \<and>
      follower_at dma i key config q stored b (node1[i := count_catchup_error (node1 ! i)])"
proof -
  obtain log where at: "replica_at dma i key node i log" and l: "bs_config (node ! i) = config" "pl_config log = q"
      "concat (map snd (log_contents log (bs_disk (node ! i)))) = stored" "pl_latest log = b" "pl_queue_depth log < pc_queue_limit q"
      "pl_write_position log < 2 ^ 63" "pl_segment_bytes log < 2 ^ 63"
    using fol by (auto simp: follower_at_def)
  have lok: "log_ok dma log (bs_disk (node ! i))" using at by (simp add: replica_at_def)
  obtain response where app: "append_replica dma r (log, bs_disk (node ! i)) = (Inr response, log, bs_disk (node ! i))"
    and err: "ppr_error_code response \<noteq> 0"
    using append_replica_rejects [of log r dma "bs_disk (node ! i)"] rec(3) l(2) by (auto simp: append_replica_accepts_def)
  obtain node1 where run: "append_replica_shard dma (Suc (Suc fuel)) i r (node, w) = Some (Inr response, node1, w)"
    and at1: "replica_at dma i key node1 i log" and n1: "bs_config (node1 ! i) = config" "bs_disk (node1 ! i) = bs_disk (node ! i)"
    using replica_shard_append [OF at rec(1,2) app lok, of fuel w] l(1) by auto
  have ok1: "shard_ok (node1 ! i)" "logs (node1 ! i) key = Some log" "i < length node1" using at1 by (auto simp: replica_at_def)
  have "replica_at dma i key (node1[i := count_catchup_error (node1 ! i)]) i log"
    by (rule replica_at_update [OF at1 refl]) (use ok1 lok n1 in \<open>simp_all add: shard_ok_def\<close>)
  then have "follower_at dma i key config q stored b (node1[i := count_catchup_error (node1 ! i)])"
    unfolding follower_at_def using l n1 ok1(3) by (intro exI [of _ log]) simp
  with run err show ?thesis by blast
qed

text \<open>
  Catch-up asks for up to a mebibyte whatever the limit of the partition is. When what it gets
  exceeds that limit, its own append is refused: the follower stays where it is, and the next
  round asks for the same again.
\<close>

theorem oversized_catch_up_stalls:
  assumes fol: "follower_at dma i key config q stored b node"
    and send: "send_replica_fetch net config (pc_leader q) \<lparr>rfq_topic = tp_topic key, rfq_partition = tp_partition key,
        rfq_offset = b, rfq_max_bytes = kReplicaCatchupMaxBytes\<rparr> w = (Inr (Inr result), w1)"
    and big: "rfr_error_code result = 0" "pc_max_frame_bytes q < length (rfr_records result)"
  shows "\<exists>node'. catch_up_follower_partition dma net (Suc (Suc fuel)) i q (node, w) = Some (Inr (), node', w1) \<and>
      follower_at dma i key config q stored b node'"
proof -
  obtain sh1 where f: "find_log (tp_topic key) (tp_partition key) (node ! i) = (Some key, sh1)" "pl_latest (log_of sh1 key) = b"
      "bs_config sh1 = config" and q: "pc_topic q = tp_topic key" "pc_partition q = tp_partition key"
    and fol2: "follower_at dma i key config q stored b (node[i := sh1\<lparr>bs_catchup_attempts := bs_catchup_attempts sh1 + 1\<rparr>])"
    using follower_found [OF fol] by blast
  let ?node2 = "node[i := sh1\<lparr>bs_catchup_attempts := bs_catchup_attempts sh1 + 1\<rparr>]" and ?r = "catch_up_append_request q b result"
  have r: "rar_topic ?r = tp_topic key" "rar_partition ?r = tp_partition key" "rar_records ?r = rfr_records result"
    by (simp_all add: catch_up_append_request_def q)
  obtain response node1 where app: "append_replica_shard dma (Suc (Suc fuel)) i ?r (?node2, w1) = Some (Inr response, node1, w1)"
    and err: "ppr_error_code response \<noteq> 0"
    and fol3: "follower_at dma i key config q stored b (node1[i := count_catchup_error (node1 ! i)])"
    using oversized_append [OF fol2 r(1,2), of fuel w1] big(2) unfolding r(3) by blast
  have "rfr_records result \<noteq> []" using big(2) by auto
  then have "catch_up_follower_partition dma net (Suc (Suc fuel)) i q (node, w) =
      Some (Inr (), node1[i := count_catchup_error (node1 ! i)], w1)"
    using send app big(1) err by (auto simp: catch_up_follower_partition_def q f Let_def catch_up_appended_def)
  with fol3 show ?thesis by blast
qed

end
