(* ===== verification/Log_Image.thy ===== *)
theory Log_Image
  imports Log_Recovery
begin

text \<open>
  The segment files of a partition as a value: per segment its base offset, the record sets in
  it, and the bytes behind the last complete frame. The two recovery scans are computed on
  such images: the walk over a segment file stops exactly at the bytes that are not a complete
  frame, the scan over the index file at the first entry that does not decode.
\<close>

section \<open>Images of segment files\<close>

definition frame_of :: "nat \<Rightarrow> int \<times> bytes \<Rightarrow> bytes" where
  "frame_of a x = log_frame a \<lparr>rs_base_offset = fst x, rs_last_offset = fst x, rs_bytes = snd x\<rparr>"

definition segment_image :: "nat \<Rightarrow> (int \<times> bytes) list \<Rightarrow> bytes" where
  "segment_image a rs = concat (map (frame_of a) rs)"

definition entry_of :: "int \<Rightarrow> nat \<Rightarrow> int \<times> bytes \<Rightarrow> IndexEntry" where
  "entry_of b pos x =
     \<lparr>ie_base_offset = fst x, ie_last_offset = fst x + estimate_record_count (snd x) - 1,
      ie_segment_base = b, ie_segment_position = pos, ie_record_bytes = int (length (snd x))\<rparr>"

fun segment_entries :: "nat \<Rightarrow> int \<Rightarrow> nat \<Rightarrow> (int \<times> bytes) list \<Rightarrow> IndexEntry list" where
  "segment_entries a b pos [] = []"
| "segment_entries a b pos (x # rs) = entry_of b pos x # segment_entries a b (pos + length (frame_of a x)) rs"

definition image_entries :: "nat \<Rightarrow> (int \<times> (int \<times> bytes) list) list \<Rightarrow> IndexEntry list" where
  "image_entries a img = concat (map (\<lambda>(b, rs). segment_entries a b 0 rs) img)"

definition record_ok :: "int \<times> bytes \<Rightarrow> bool" where
  "record_ok x \<longleftrightarrow> snd x \<noteq> [] \<and> length (snd x) < 2 ^ 31 \<and> i64 (fst x) \<and> i64 (fst x + estimate_record_count (snd x))"

text \<open>Bytes that do not start with a complete frame.\<close>

definition torn :: "nat \<Rightarrow> bytes \<Rightarrow> bool" where
  "torn a tail \<longleftrightarrow>
     length tail < a \<or> take 8 tail \<noteq> kLogMagic \<or> get_i32 (drop 16 tail) \<le> 0 \<or>
     length tail < frame_size_of a (nat (get_i32 (drop 16 tail)))"

lemma torn_Nil [simp]: "0 < a \<Longrightarrow> torn a []"
  by (simp add: torn_def)

lemma length_frame_of: "0 < a \<Longrightarrow> length (frame_of a x) = frame_size_of a (length (snd x))"
  by (simp add: frame_of_def length_log_frame)

lemma frame_of_header: "record_ok x \<Longrightarrow> frame_header_is (frame_of a x @ rest) (fst x) (int (length (snd x)))"
  using log_frame_header [of "\<lparr>rs_base_offset = fst x, rs_last_offset = fst x, rs_bytes = snd x\<rparr>" a rest]
  by (simp add: record_ok_def frame_of_def i32_def)

lemma frame_of_payload: "chunk (frame_of a x @ rest) 20 (length (snd x)) = snd x"
  using log_frame_payload [of a "\<lparr>rs_base_offset = fst x, rs_last_offset = fst x, rs_bytes = snd x\<rparr>" rest]
  by (simp add: frame_of_def)

text \<open>A write of a frame that did not get to its end leaves bytes that are torn.\<close>

lemma get_take: "get_i32 (take 4 ys) = get_i32 ys" "get_i64 (take 8 ys) = get_i64 ys"
  by (simp_all add: get_i32_def get_i64_def)

lemma header_take:
  assumes "20 \<le> n"
  shows "take 8 (take n ys) = take 8 ys" "get_i64 (drop 8 (take n ys)) = get_i64 (drop 8 ys)"
    "get_i32 (drop 16 (take n ys)) = get_i32 (drop 16 ys)"
proof -
  have "take 4 (drop 16 (take n ys)) = take 4 (drop 16 ys)" "take 8 (drop 8 (take n ys)) = take 8 (drop 8 ys)"
    using assms by (simp_all add: drop_take min_def)
  then show "get_i64 (drop 8 (take n ys)) = get_i64 (drop 8 ys)"
    "get_i32 (drop 16 (take n ys)) = get_i32 (drop 16 ys)" by (metis get_take)+
  show "take 8 (take n ys) = take 8 ys" using assms by (simp add: min_def)
qed

lemma take_log_frame_header:
  "record_ok x \<Longrightarrow> 20 \<le> n \<Longrightarrow> frame_header_is (take n (frame_of a x @ rest)) (fst x) (int (length (snd x)))"
  using frame_of_header [of x a rest] by (simp add: frame_header_is_def header_take del: take_append)

lemma torn_prefix:
  assumes "20 \<le> a" "record_ok x" "n < length (frame_of a x)"
  shows "torn a (take n (frame_of a x))"
proof (cases "n < a")
  case True
  then have "length (take n (frame_of a x)) < a" by simp
  then show ?thesis unfolding torn_def by blast
next
  case False
  with assms have "frame_header_is (take n (frame_of a x)) (fst x) (int (length (snd x)))"
    using take_log_frame_header [of x n a "[]"] by simp
  then have "get_i32 (drop 16 (take n (frame_of a x))) = int (length (snd x))"
    by (simp add: frame_header_is_def)
  with assms show ?thesis by (simp add: torn_def length_frame_of)
qed

lemma length_segment_entries [simp]: "length (segment_entries a b pos rs) = length rs"
  by (induction rs arbitrary: pos) auto

lemma take_segment_entries: "take k (segment_entries a b pos rs) = segment_entries a b pos (take k rs)"
proof (induction rs arbitrary: pos k)
  case (Cons x rs)
  then show ?case by (cases k) auto
qed simp

lemma segment_entries_append:
  "segment_entries a b pos (rs @ rs') =
     segment_entries a b pos rs @ segment_entries a b (pos + length (segment_image a rs)) rs'"
  by (induction rs arbitrary: pos) (auto simp: segment_image_def add.assoc)

section \<open>The walk over a segment file\<close>

fun note_frames ::
    "nat \<Rightarrow> int \<Rightarrow> nat \<Rightarrow> (int \<times> bytes) list \<Rightarrow> nat \<times> PartitionLog \<times> disk \<Rightarrow> nat \<times> PartitionLog \<times> disk" where
  "note_frames a b pos [] r = r"
| "note_frames a b pos (x # rs) r =
     note_frames a b (pos + length (frame_of a x)) rs
       (note_recovered_frame b pos (fst x) (int (length (snd x))) (snd x) r)"

lemma segment_scan_torn:
  assumes "pl_alignment s = a" "20 \<le> a" "torn a tail"
  shows "segment_scan b (pre @ tail) (length pre) (rebuilt, s, d) = (Inr (), rebuilt, s, d)"
proof (cases "length tail < a")
  case True
  with assms show ?thesis by (subst segment_scan.simps) (simp add: Let_def)
next
  case False
  have hd: "dma_read (pre @ tail) (length pre) a = take a tail"
    by (simp add: dma_read_def chunk_def)
  have cut: "take 8 (take a tail) = take 8 tail" "get_i32 (drop 16 (take a tail)) = get_i32 (drop 16 tail)"
    using assms(2) by (rule header_take)+
  show ?thesis
    using assms False
    by (subst segment_scan.simps) (auto simp: Let_def hd cut torn_def frame_size_of_def)
qed

lemma note_recovered_alignment:
  "note_recovered_frame b pos off n x (rebuilt, s, d) = (rebuilt', s', d') \<Longrightarrow> pl_alignment s' = pl_alignment s"
  by (auto simp: note_recovered_frame_def Let_def)

lemma segment_scan_step:
  assumes a: "pl_alignment s = a" "20 \<le> a" and x: "record_ok x"
  shows "segment_scan b (pre @ frame_of a x @ rest) (length pre) (rebuilt, s, d) =
    segment_scan b (pre @ frame_of a x @ rest) (length pre + length (frame_of a x))
      (note_recovered_frame b (length pre) (fst x) (int (length (snd x))) (snd x) (rebuilt, s, d))"
proof -
  let ?f = "pre @ frame_of a x @ rest"
  have len: "length (frame_of a x) = frame_size_of a (length (snd x))"
    using a by (simp add: length_frame_of)
  have ge: "a \<le> length (frame_of a x)" "20 + length (snd x) \<le> length (frame_of a x)"
    using a frame_size_alignment frame_size_ge by (simp_all add: len)
  have hd: "dma_read ?f (length pre) a = take a (frame_of a x @ rest)"
    by (simp add: dma_read_def chunk_def)
  have fr: "dma_read ?f (length pre) (length (frame_of a x)) = frame_of a x"
    by (simp add: dma_read_def chunk_def)
  have header: "frame_header_is (take a (frame_of a x @ rest)) (fst x) (int (length (snd x)))"
    using take_log_frame_header [OF x a(2)] .
  have pay: "chunk (frame_of a x) 20 (length (snd x)) = snd x" using frame_of_payload [of a x "[]"] by simp
  have pos: "0 < length (snd x)" using x by (simp add: record_ok_def)
  have ru: "round_up (20 + length (snd x)) a = length (frame_of a x)" by (simp add: len frame_size_of_def)
  have full: "take a (frame_of a x @ rest) = frame_of a x" if "length (frame_of a x) = a"
    using that by simp
  have header': "frame_header_is (frame_of a x) (fst x) (int (length (snd x)))"
    using frame_of_header [OF x, of a "[]"] by simp
  show ?thesis
    using a pos ge header header'
    by (subst segment_scan.simps)
      (auto simp: Let_def hd fr ru pay full frame_header_is_def simp del: append_take_drop_id)
qed

lemma segment_scan_image:
  assumes "pl_alignment s = a" "20 \<le> a" "list_all record_ok rs" "torn a tail"
  shows "segment_scan b (pre @ segment_image a rs @ tail) (length pre) (rebuilt, s, d) =
    (Inr (), note_frames a b (length pre) rs (rebuilt, s, d))"
  using assms
proof (induction rs arbitrary: pre rebuilt s d)
  case Nil
  then show ?case using segment_scan_torn [of s a tail b pre] by (simp add: segment_image_def)
next
  case (Cons x rs)
  obtain rebuilt' s' d' where n: "note_recovered_frame b (length pre) (fst x) (int (length (snd x))) (snd x) (rebuilt, s, d) =
      (rebuilt', s', d')" by (cases "note_recovered_frame b (length pre) (fst x) (int (length (snd x))) (snd x) (rebuilt, s, d)")
  have "pl_alignment s' = a" using note_recovered_alignment [OF n] Cons.prems(1) by simp
  then have "segment_scan b ((pre @ frame_of a x) @ segment_image a rs @ tail) (length (pre @ frame_of a x)) (rebuilt', s', d') =
      (Inr (), note_frames a b (length (pre @ frame_of a x)) rs (rebuilt', s', d'))"
    by (rule Cons.IH) (use Cons.prems in simp_all)
  with segment_scan_step [OF Cons.prems(1,2), of x b pre "segment_image a rs @ tail"] Cons.prems n
  show ?case by (simp add: segment_image_def)
qed

section \<open>What the scans leave in memory\<close>

definition note_segment :: "nat \<Rightarrow> IndexEntry \<Rightarrow> SegmentInfo list \<Rightarrow> SegmentInfo list" where
  "note_segment a e segs =
     (let next_position = ie_segment_position e + entry_frame_size a e
      in if segs = [] \<or> si_base_offset (last segs) \<noteq> ie_segment_base e
         then segs @ [\<lparr>si_base_offset = ie_segment_base e, si_last_offset = ie_last_offset e,
                       si_write_position = next_position\<rparr>]
         else butlast segs @ [(last segs)\<lparr>si_last_offset := max (si_last_offset (last segs)) (ie_last_offset e),
                               si_write_position := max (si_write_position (last segs)) next_position\<rparr>])"

lemma note_index_entry_eq:
  "note_index_entry e s =
     s\<lparr>pl_index_entries := pl_index_entries s @ [e], pl_segments := note_segment (pl_alignment s) e (pl_segments s)\<rparr>"
  by (simp add: note_index_entry_def note_segment_def entry_frame_size_def Let_def)

definition note_entry :: "nat \<Rightarrow> IndexEntry \<Rightarrow> PartitionLog \<Rightarrow> PartitionLog" where
  "note_entry n e s = (note_index_entry e s)
     \<lparr>pl_offsets := (pl_offsets s)\<lparr>po_latest := ie_last_offset e + 1, po_high_watermark := ie_last_offset e + 1\<rparr>,
      pl_index_position := pl_index_position s + n\<rparr>"

lemma note_entry_fields [simp]:
  "pl_index_entries (note_entry n e s) = pl_index_entries s @ [e]"
  "pl_segments (note_entry n e s) = note_segment (pl_alignment s) e (pl_segments s)"
  "pl_index_position (note_entry n e s) = pl_index_position s + n"
  "pl_earliest (note_entry n e s) = pl_earliest s" "pl_latest (note_entry n e s) = ie_last_offset e + 1"
  "pl_high_watermark (note_entry n e s) = ie_last_offset e + 1"
  "pl_config (note_entry n e s) = pl_config s" "pl_segment_bytes (note_entry n e s) = pl_segment_bytes s" "pl_index_gate_closed (note_entry n e s) = pl_index_gate_closed s"
  "pl_alignment (note_entry n e s) = pl_alignment s" "pl_index_entry_size (note_entry n e s) = pl_index_entry_size s"
  "pl_active_base (note_entry n e s) = pl_active_base s" "pl_write_position (note_entry n e s) = pl_write_position s"
  by (simp_all add: note_entry_def note_index_entry_eq)

lemma fold_note_entry_fields [simp]:
  "pl_index_entries (fold (note_entry n) es s) = pl_index_entries s @ es"
  "pl_segments (fold (note_entry n) es s) = fold (note_segment (pl_alignment s)) es (pl_segments s)"
  "pl_index_position (fold (note_entry n) es s) = pl_index_position s + n * length es"
  "pl_earliest (fold (note_entry n) es s) = pl_earliest s"
  "pl_config (fold (note_entry n) es s) = pl_config s" "pl_segment_bytes (fold (note_entry n) es s) = pl_segment_bytes s" "pl_index_gate_closed (fold (note_entry n) es s) = pl_index_gate_closed s"
  "pl_alignment (fold (note_entry n) es s) = pl_alignment s"
  "pl_index_entry_size (fold (note_entry n) es s) = pl_index_entry_size s"
  "pl_active_base (fold (note_entry n) es s) = pl_active_base s"
  "pl_write_position (fold (note_entry n) es s) = pl_write_position s"
  by (induction es arbitrary: s) auto

lemma fold_note_entry_offsets:
  "covers (pl_latest s) es to \<Longrightarrow> pl_latest (fold (note_entry n) es s) = to"
  "covers (pl_latest s) es to \<Longrightarrow> es = [] \<longrightarrow> pl_high_watermark s = pl_latest s \<Longrightarrow>
     pl_high_watermark (fold (note_entry n) es s) = to"
  by (induction es arbitrary: s) auto

lemma note_recovered_entry:
  assumes "pl_index_entry_size s = n" "44 \<le> n"
    and "file_contents d (index_path s) = idx" "length idx = rebuilt"
    and "note_recovered_frame b pos (fst x) (int (length (snd x))) (snd x) (rebuilt, s, d) = (rebuilt', s', d')"
  shows "rebuilt' = rebuilt + n \<and> s' = note_entry n (entry_of b pos x) s \<and>
    file_contents d' (index_path s) = idx @ encode_index_entry n (entry_of b pos x) \<and>
    (\<forall>m. m \<noteq> index_path s \<longrightarrow> map_of d' m = map_of d m)"
  using assms
  by (auto simp: note_recovered_frame_def Let_def entry_of_def note_entry_def note_index_entry_eq
      write_rebuilt_index_entry_def file_contents_write_file map_of_write_file dma_write_end)

lemma note_frames_eq:
  assumes "pl_index_entry_size s = n" "44 \<le> n" "file_contents d (index_path s) = idx" "length idx = rebuilt"
  shows "\<exists>d'. note_frames a b pos rs (rebuilt, s, d) =
      (rebuilt + n * length rs, fold (note_entry n) (segment_entries a b pos rs) s, d') \<and>
    file_contents d' (index_path s) = idx @ concat (map (encode_index_entry n) (segment_entries a b pos rs)) \<and>
    (\<forall>m. m \<noteq> index_path s \<longrightarrow> map_of d' m = map_of d m)"
  using assms
proof (induction rs arbitrary: pos rebuilt s d idx)
  case Nil
  then show ?case by simp
next
  case (Cons x rs)
  let ?e = "entry_of b pos x"
  obtain rebuilt' s' d' where n: "note_recovered_frame b pos (fst x) (int (length (snd x))) (snd x) (rebuilt, s, d) =
      (rebuilt', s', d')"
    by (cases "note_recovered_frame b pos (fst x) (int (length (snd x))) (snd x) (rebuilt, s, d)")
  note st = note_recovered_entry [OF Cons.prems n]
  have path: "index_path s' = index_path s" by (rule index_path_cong) (simp add: st)
  have "length (idx @ encode_index_entry n ?e) = rebuilt'"
    using st Cons.prems by (simp add: length_encode_index_entry)
  from Cons.IH [of s' d' "idx @ encode_index_entry n ?e" rebuilt' "pos + length (frame_of a x)"] this
  show ?case using st path Cons.prems n by (auto simp: add.commute add.left_commute)
qed

section \<open>The scan over the index file\<close>

definition undecodable :: "nat \<Rightarrow> bytes \<Rightarrow> bool" where
  "undecodable n rest \<longleftrightarrow> length rest < n \<or> decode_index_entry (take n rest) = None"

lemma undecodable_Nil [simp]: "0 < n \<Longrightarrow> undecodable n []"
  by (simp add: undecodable_def)

lemma index_scan_entries:
  assumes "pl_index_entry_size s = n" "44 \<le> n" "list_all index_entry_ok es" "undecodable n rest"
    and "covers (pl_latest s) es to"
  shows "index_scan (pre @ concat (map (encode_index_entry n) es) @ rest) (length pre) recovered s =
    (Inr (recovered \<or> es \<noteq> []), fold (note_entry n) es s)"
  using assms
proof (induction es arbitrary: pre recovered s)
  case Nil
  have "dma_read (pre @ rest) (length pre) n = take n rest" by (simp add: dma_read_def chunk_def)
  with Nil show ?case by (subst index_scan.simps) (auto simp: Let_def undecodable_def)
next
  case (Cons e es)
  define f where "f = pre @ concat (map (encode_index_entry n) (e # es)) @ rest"
  have len: "length (encode_index_entry n e) = n" using Cons.prems(2) by (rule length_encode_index_entry)
  then have rd: "dma_read f (length pre) n = encode_index_entry n e" "length pre + n \<le> length f"
    by (simp_all add: f_def dma_read_def chunk_def)
  have dec: "decode_index_entry (encode_index_entry n e) = Some e"
    using index_entry_round_trip [of e n "[]"] Cons.prems(3) by simp
  have mx: "max (pl_latest s) (ie_last_offset e + 1) = ie_last_offset e + 1" using Cons.prems(5) by auto
  have "index_scan f (length pre) recovered s = index_scan f (length pre + n) True (note_entry n e s)"
    using Cons.prems(1,2) rd(2) by (subst index_scan.simps) (simp add: Let_def rd(1) dec len mx note_entry_def)
  also have "\<dots> = index_scan ((pre @ encode_index_entry n e) @ concat (map (encode_index_entry n) es) @ rest)
      (length (pre @ encode_index_entry n e)) True (note_entry n e s)"
    by (simp add: len f_def)
  also have "\<dots> = (Inr (True \<or> es \<noteq> []), fold (note_entry n) es (note_entry n e s))"
    by (rule Cons.IH) (use Cons.prems in simp_all)
  finally show ?case by (simp add: f_def)
qed

end
