(* ===== verification/Log_Restart.thy ===== *)
theory Log_Restart
  imports Log_Image
begin

text \<open>
  Recovery on a directory that holds the segment files of a partition: whatever part of the
  index reached the disk, the recovered log has exactly the complete frames of the segment
  files, in offset order.
\<close>

section \<open>The directory\<close>

type_synonym file_image = "int \<times> (int \<times> bytes) list \<times> bytes"

definition image_of :: "file_image list \<Rightarrow> (int \<times> (int \<times> bytes) list) list" where
  "image_of files = map (\<lambda>(b, rs, tail). (b, rs)) files"

definition file_on_disk :: "nat \<Rightarrow> PartitionConfig \<Rightarrow> disk \<Rightarrow> file_image \<Rightarrow> bool" where
  "file_on_disk a c d = (\<lambda>(b, rs, tail).
     0 \<le> b \<and> i64 b \<and> list_all record_ok rs \<and> torn a tail \<and>
     list_all index_entry_ok (segment_entries a b 0 rs) \<and>
     map_of d (segment_name c b) = Some (segment_image a rs @ tail))"

definition on_disk :: "nat \<Rightarrow> PartitionConfig \<Rightarrow> file_image list \<Rightarrow> disk \<Rightarrow> bool" where
  "on_disk a c files d \<longleftrightarrow>
     sorted_wrt (<) (map fst files) \<and> distinct (map fst d) \<and>
     (\<forall>x\<in>set files. file_on_disk a c d x) \<and>
     (\<forall>name\<in>fst ` set d. segment_base_offset_from_name c name = Inr None \<or>
        name \<in> segment_name c ` fst ` set files)"

lemma on_disk_file:
  assumes "on_disk a c files d" "(b, rs, tail) \<in> set files"
  shows "0 \<le> b \<and> i64 b \<and> list_all record_ok rs \<and> torn a tail \<and>
    list_all index_entry_ok (segment_entries a b 0 rs) \<and>
    map_of d (segment_name c b) = Some (segment_image a rs @ tail)"
proof -
  have "file_on_disk a c d (b, rs, tail)" using assms unfolding on_disk_def by blast
  then show ?thesis by (simp add: file_on_disk_def)
qed

lemma on_disk_name:
  assumes "on_disk a c files d" "name \<in> set (map fst d)"
  shows "segment_base_offset_from_name c name = Inr None \<or> name \<in> segment_name c ` fst ` set files"
  using assms unfolding on_disk_def set_map by blast

lemma on_disk_distinct:
  assumes "on_disk a c files d"
  shows "sorted_wrt (<) (map fst files)" "distinct (map fst d)"
  using assms by (simp_all add: on_disk_def)

text \<open>The listing that the scan of the directory produces.\<close>

definition segment_files :: "PartitionConfig \<Rightarrow> file_image list \<Rightarrow> (int \<times> string) list" where
  "segment_files c files = map (\<lambda>(b, rs, tail). (b, segment_name c b)) files"

lemma segment_files_eq: "segment_files c files = map (\<lambda>b. (b, segment_name c b)) (map fst files)"
  by (simp add: segment_files_def case_prod_beta)

lemma map_filter_names:
  "map snd (List.map_filter (\<lambda>x. x) (map (\<lambda>name. map_option (\<lambda>b. (b, name)) (h name)) names)) =
   filter (\<lambda>name. h name \<noteq> None) names"
  by (induction names) (auto simp: List.map_filter_simps split: option.splits)

lemma set_map_filter_names:
  "set (List.map_filter (\<lambda>x. x) (map (\<lambda>name. map_option (\<lambda>b. (b, name)) (h name)) names)) =
   {(b, name) |b name. name \<in> set names \<and> h name = Some b}"
  by (force simp: List.map_filter_def image_iff)

lemma list_segment_files_image:
  assumes disk: "on_disk a (pl_config s) files d"
  shows "list_segment_files (s, d) = Inr (segment_files (pl_config s) files)"
proof -
  let ?c = "pl_config s"
  define h where "h name = (case segment_base_offset_from_name ?c name of Inr v \<Rightarrow> v | Inl _ \<Rightarrow> None)" for name
  define L where "L = List.map_filter (\<lambda>x. x) (map (\<lambda>name. map_option (\<lambda>b. (b, name)) (h name)) (map fst d))"
  have base: "segment_base_offset_from_name ?c (segment_name ?c b) = Inr (Some b) \<and> segment_name ?c b \<in> set (map fst d)"
    if "b \<in> fst ` set files" for b
  proof -
    from that obtain rs tail where "(b, rs, tail) \<in> set files" by auto
    from on_disk_file [OF disk this] show ?thesis
      using segment_name_round_trip [of b ?c] by (force dest: map_of_SomeD)
  qed
  have names: "segment_base_offset_from_name ?c name = Inr (h name) \<and>
      (\<forall>b. h name = Some b \<longrightarrow> b \<in> fst ` set files \<and> name = segment_name ?c b)" if "name \<in> set (map fst d)" for name
  proof -
    from on_disk_name [OF disk that] consider "segment_base_offset_from_name ?c name = Inr None"
      | b where "b \<in> fst ` set files" "name = segment_name ?c b" by blast
    then show ?thesis by cases (simp_all add: h_def base)
  qed
  have "mapR (\<lambda>name. rbind (segment_base_offset_from_name ?c name) (\<lambda>b. Inr (map_option (\<lambda>base. (base, name)) b)))
      names = Inr (map (\<lambda>name. map_option (\<lambda>b. (b, name)) (h name)) names)" if "set names \<subseteq> set (map fst d)" for names
    using that by (induction names) (simp_all add: names)
  then have eq: "list_segment_files (s, d) = Inr (sort_key fst L)"
    by (simp add: list_segment_files_def L_def)
  have setL: "set L = (\<lambda>b. (b, segment_name ?c b)) ` fst ` set files"
  proof (intro equalityI subsetI)
    fix x assume "x \<in> set L"
    then obtain b name where "x = (b, name)" "name \<in> set (map fst d)" "h name = Some b"
      unfolding L_def set_map_filter_names by blast
    with names show "x \<in> (\<lambda>b. (b, segment_name ?c b)) ` fst ` set files" by blast
  next
    fix x assume "x \<in> (\<lambda>b. (b, segment_name ?c b)) ` fst ` set files"
    then obtain b where "x = (b, segment_name ?c b)" "b \<in> fst ` set files" by blast
    with base show "x \<in> set L" unfolding L_def set_map_filter_names by (simp add: h_def)
  qed
  have "distinct (map snd L)"
    using on_disk_distinct(2) [OF disk] unfolding L_def map_filter_names by simp
  then have "distinct L" by (simp add: distinct_map)
  moreover have "inj_on fst (set L)" by (auto simp: setL inj_on_def)
  ultimately have "distinct (map fst (sort_key fst L))" by (simp add: distinct_map)
  moreover have "sorted (map fst files)" "distinct (map fst files)"
    using on_disk_distinct(1) [OF disk] by (simp_all add: strict_sorted_iff)
  moreover have "fst ` set L = fst ` set files" by (auto simp: setL image_image)
  ultimately have "map fst (sort_key fst L) = map fst files"
    by (intro sorted_distinct_set_unique) simp_all
  moreover have "map (\<lambda>b. (b, segment_name ?c b)) (map fst (sort_key fst L)) = sort_key fst L"
    unfolding map_map by (rule map_idI) (auto simp: setL)
  ultimately show ?thesis by (simp only: eq segment_files_eq)
qed

section \<open>Segments in memory\<close>

definition seg_shape :: "SegmentInfo list \<Rightarrow> (int \<times> nat) list" where
  "seg_shape segs = map (\<lambda>i. (si_base_offset i, si_write_position i)) segs"

lemma entry_of_frame_size:
  "0 < a \<Longrightarrow> record_ok x \<Longrightarrow> entry_frame_size a (entry_of b pos x) = length (frame_of a x)"
  by (simp add: entry_frame_size_eq entry_of_def entry_bytes_def cast_u64_def record_ok_def length_frame_of)

lemma note_segment_same:
  assumes "seg_shape segs = xs @ [(ie_segment_base e, p)]" "p = ie_segment_position e"
  shows "seg_shape (note_segment a e segs) = xs @ [(ie_segment_base e, p + entry_frame_size a e)]"
proof -
  obtain ys i where "segs = ys @ [i]" "seg_shape ys = xs" "si_base_offset i = ie_segment_base e" "si_write_position i = p"
    using assms(1) by (auto simp: seg_shape_def map_eq_append_conv)
  with assms(2) show ?thesis by (simp add: note_segment_def seg_shape_def)
qed

lemma note_segment_new:
  assumes "ie_segment_base e \<notin> fst ` set (seg_shape segs)"
  shows "seg_shape (note_segment a e segs) =
    seg_shape segs @ [(ie_segment_base e, ie_segment_position e + entry_frame_size a e)]"
proof -
  have "segs = [] \<or> si_base_offset (last segs) \<noteq> ie_segment_base e"
    using assms by (cases segs rule: rev_cases) (auto simp: seg_shape_def)
  then show ?thesis by (simp add: note_segment_def seg_shape_def)
qed

lemma fold_note_same:
  assumes "0 < a" "seg_shape segs = xs @ [(b, p)]" "list_all record_ok rs"
  shows "seg_shape (fold (note_segment a) (segment_entries a b p rs) segs) = xs @ [(b, p + length (segment_image a rs))]"
  using assms
proof (induction rs arbitrary: p segs)
  case Nil
  then show ?case by (simp add: segment_image_def)
next
  case (Cons x rs)
  have "seg_shape (note_segment a (entry_of b p x) segs) = xs @ [(b, p + length (frame_of a x))]"
    using note_segment_same [of segs xs "entry_of b p x" p a] Cons.prems
    by (simp add: entry_of_frame_size) (simp add: entry_of_def)
  from Cons.IH [OF Cons.prems(1) this] Cons.prems(3) show ?case
    by (simp add: segment_image_def add.assoc)
qed

lemma fold_note_segment:
  assumes "0 < a" "b \<notin> fst ` set (seg_shape segs)" "list_all record_ok rs"
  shows "seg_shape (fold (note_segment a) (segment_entries a b 0 rs) segs) =
    seg_shape segs @ (if rs = [] then [] else [(b, length (segment_image a rs))])"
proof (cases rs)
  case (Cons x rs')
  have "seg_shape (note_segment a (entry_of b 0 x) segs) = seg_shape segs @ [(b, length (frame_of a x))]"
    using note_segment_new [of "entry_of b 0 x" segs a] assms Cons
    by (simp add: entry_of_frame_size) (simp add: entry_of_def)
  from fold_note_same [OF assms(1) this, of rs'] assms(3) Cons show ?thesis
    by (simp add: segment_image_def)
qed simp

definition used_segments :: "nat \<Rightarrow> (int \<times> (int \<times> bytes) list) list \<Rightarrow> (int \<times> nat) list" where
  "used_segments a img = map (\<lambda>(b, rs). (b, length (segment_image a rs))) (filter (\<lambda>(b, rs). rs \<noteq> []) img)"

lemma fold_note_image:
  assumes "0 < a" "distinct (map fst img)" "fst ` set img \<inter> fst ` set (seg_shape segs) = {}"
    and "\<forall>(b, rs)\<in>set img. list_all record_ok rs"
  shows "seg_shape (fold (note_segment a) (image_entries a img) segs) = seg_shape segs @ used_segments a img"
  using assms
proof (induction img arbitrary: segs)
  case Nil
  then show ?case by (simp add: image_entries_def used_segments_def)
next
  case (Cons y img)
  obtain b rs where y: "y = (b, rs)" by (cases y)
  let ?segs = "fold (note_segment a) (segment_entries a b 0 rs) segs"
  have s: "seg_shape ?segs = seg_shape segs @ (if rs = [] then [] else [(b, length (segment_image a rs))])"
    using Cons.prems by (intro fold_note_segment) (auto simp: y)
  have "seg_shape (fold (note_segment a) (image_entries a img) ?segs) = seg_shape ?segs @ used_segments a img"
    using Cons.prems by (intro Cons.IH) (auto simp: y s split: if_splits)
  then show ?case by (simp add: image_entries_def used_segments_def y s)
qed

section \<open>Recovery from the segment files\<close>

lemma update_dma_alignment_id: "dma_aligned dma s \<Longrightarrow> update_dma_alignment dma s = s"
  by (simp add: dma_aligned_def update_dma_alignment_def)

lemma dma_aligned_update: "dma_aligned dma (update_dma_alignment dma s)"
  by (simp add: dma_aligned_def update_dma_alignment_def)

lemma dma_aligned_fold: "dma_aligned dma s \<Longrightarrow> dma_aligned dma (fold (note_entry n) es s)"
  by (simp add: dma_aligned_def)

lemma index_entry_size_44: "0 < a \<Longrightarrow> 44 \<le> round_up kIndexEntryPayloadSize a"
  using round_up_ge [of a kIndexEntryPayloadSize] by (simp add: kIndexEntryPayloadSize_def)

lemma file_contents_cong: "map_of d' m = map_of d m \<Longrightarrow> file_contents d' m = file_contents d m"
  by (simp add: file_contents_def)

lemma segment_name_not_index: "segment_name (pl_config s) b \<noteq> index_path s"
  using segment_path_not_index [of s b] by (simp add: segment_path_def)

lemma recover_segment_files_image:
  assumes "20 \<le> dma" "dma_aligned dma s" "n = round_up kIndexEntryPayloadSize dma"
    and "\<forall>(b, rs, tail)\<in>set files. list_all record_ok rs \<and> torn dma tail \<and>
      file_contents d (segment_name (pl_config s) b) = segment_image dma rs @ tail"
    and "file_contents d (index_path s) = idx" "length idx = rebuilt"
  shows "\<exists>d'. recover_segment_files dma (segment_files (pl_config s) files) (rebuilt, s, d) =
      (Inr (), rebuilt + n * length (image_entries dma (image_of files)),
       fold (note_entry n) (image_entries dma (image_of files)) s, d') \<and>
    file_contents d' (index_path s) = idx @ concat (map (encode_index_entry n) (image_entries dma (image_of files))) \<and>
    (\<forall>m. m \<noteq> index_path s \<longrightarrow> map_of d' m = map_of d m)"
  using assms(2,4-)
proof (induction files arbitrary: rebuilt s d idx)
  case Nil
  then show ?case by (simp add: segment_files_def image_of_def image_entries_def)
next
  case (Cons x files)
  obtain b rs tail where x: "x = (b, rs, tail)" by (cases x)
  let ?es = "segment_entries dma b 0 rs"
  have sz: "pl_index_entry_size s = n" "pl_alignment s = dma" "44 \<le> n"
    using Cons.prems(1) assms(1,3) index_entry_size_44 [of dma] by (simp_all add: dma_aligned_def)
  obtain d1 where nf: "note_frames dma b 0 rs (rebuilt, s, d) = (rebuilt + n * length rs, fold (note_entry n) ?es s, d1)"
    and d1: "file_contents d1 (index_path s) = idx @ concat (map (encode_index_entry n) ?es)"
      "\<forall>m. m \<noteq> index_path s \<longrightarrow> map_of d1 m = map_of d m"
    using note_frames_eq [OF sz(1,3) Cons.prems(3,4), of dma b 0 rs] by blast
  have scan: "recover_segment_file dma (b, segment_name (pl_config s) b) (rebuilt, s, d) =
      (Inr (), rebuilt + n * length rs, fold (note_entry n) ?es s, d1)"
    using segment_scan_image [OF sz(2) assms(1), of rs tail b "[]"] Cons.prems(1,2) nf
    by (simp add: recover_segment_file_def x update_dma_alignment_id)
  define s1 where "s1 = fold (note_entry n) ?es s"
  have s1: "pl_config s1 = pl_config s" "index_path s1 = index_path s" "dma_aligned dma s1"
    using Cons.prems(1) index_path_cong [of s1 s] by (simp_all add: s1_def dma_aligned_fold)
  have "\<forall>(b, rs, tail)\<in>set files. list_all record_ok rs \<and> torn dma tail \<and>
      file_contents d1 (segment_name (pl_config s1) b) = segment_image dma rs @ tail"
  proof -
    have "file_contents d1 (segment_name (pl_config s) b) = file_contents d (segment_name (pl_config s) b)" for b
      by (rule file_contents_cong) (simp add: d1(2) segment_name_not_index)
    with Cons.prems(2) show ?thesis by (simp add: s1(1))
  qed
  moreover have "length (idx @ concat (map (encode_index_entry n) ?es)) = rebuilt + n * length rs"
    using Cons.prems(4) sz(3) by (simp add: length_concat length_encode_index_entry comp_def sum_list_triv)
  ultimately obtain d2 where d2: "recover_segment_files dma (segment_files (pl_config s1) files) (rebuilt + n * length rs, s1, d1) =
      (Inr (), rebuilt + n * length rs + n * length (image_entries dma (image_of files)),
       fold (note_entry n) (image_entries dma (image_of files)) s1, d2)"
    "file_contents d2 (index_path s1) = (idx @ concat (map (encode_index_entry n) ?es)) @
       concat (map (encode_index_entry n) (image_entries dma (image_of files)))"
    "\<forall>m. m \<noteq> index_path s1 \<longrightarrow> map_of d2 m = map_of d1 m"
    using Cons.IH [OF s1(3), of d1 "idx @ concat (map (encode_index_entry n) ?es)" "rebuilt + n * length rs"] d1(1) s1(2)
    by auto
  have es: "image_entries dma (image_of (x # files)) = ?es @ image_entries dma (image_of files)"
    by (simp add: x image_of_def image_entries_def)
  have files: "segment_files (pl_config s) (x # files) =
      (b, segment_name (pl_config s) b) # segment_files (pl_config s1) files"
    by (simp add: x segment_files_def s1(1))
  show ?case
    using d1(2) d2(2,3) s1(2)
    by (intro exI [of _ d2]) (simp add: es files scan d2(1) s1_def [symmetric] algebra_simps)
qed

text \<open>Where appends continue: after the last segment that has a frame.\<close>

definition resume_point :: "nat \<Rightarrow> (int \<times> (int \<times> bytes) list) list \<Rightarrow> int \<times> nat" where
  "resume_point a img = (if used_segments a img = [] then (0, 0) else last (used_segments a img))"

text \<open>What recovery establishes.\<close>

definition restored :: "nat \<Rightarrow> PartitionLog \<Rightarrow> file_image list \<Rightarrow> disk \<Rightarrow> int \<Rightarrow> PartitionLog \<times> disk \<Rightarrow> bool" where
  "restored dma s files d to = (\<lambda>(s', d').
     let es = image_entries dma (image_of files); n = round_up kIndexEntryPayloadSize dma
     in pl_index_entries s' = es \<and> pl_earliest s' = 0 \<and> pl_latest s' = to \<and> pl_high_watermark s' = to \<and>
        pl_config s' = pl_config s \<and> pl_segment_bytes s' = pl_segment_bytes s \<and>
        pl_index_gate_closed s' = pl_index_gate_closed s \<and>
        (files \<noteq> [] \<longrightarrow> dma_aligned dma s') \<and>
        (pl_active_base s', pl_write_position s') = resume_point dma (image_of files) \<and>
        pl_index_position s' = n * length es \<and>
        (d' = d \<or> file_contents d' (index_path s) = concat (map (encode_index_entry n) es)) \<and>
        (\<forall>m. m \<noteq> index_path s \<longrightarrow> map_of d' m = map_of d m))"

lemma covers_segment_entries:
  "list_all record_ok rs \<Longrightarrow> tiles from rs mid \<Longrightarrow> covers from (segment_entries a b pos rs) mid"
proof (induction rs arbitrary: "from" pos)
  case (Cons x rs)
  have "1 \<le> estimate_record_count (snd x)"
    using Cons.prems(1) estimate_record_count_nonneg [of "snd x"] estimate_record_count_zero [of "snd x"]
    by (simp add: record_ok_def)
  with Cons show ?case by (auto simp: entry_of_def)
qed simp

lemma covers_append: "covers from (xs @ ys) to \<longleftrightarrow> (\<exists>mid. covers from xs mid \<and> covers mid ys to)"
  by (induction xs arbitrary: "from") auto

lemma covers_image:
  "\<forall>(b, rs)\<in>set img. list_all record_ok rs \<Longrightarrow> tiles from (concat (map snd img)) to \<Longrightarrow>
   covers from (image_entries a img) to"
proof (induction img arbitrary: "from")
  case (Cons x img)
  obtain b rs where x: "x = (b, rs)" by (cases x)
  then obtain mid where "tiles from rs mid" "tiles mid (concat (map snd img)) to"
    using Cons.prems(2) by (auto simp: tiles_append)
  with Cons.IH [of mid] Cons.prems(1) covers_segment_entries [of rs "from" mid a b 0] show ?case
    by (auto simp: x image_entries_def covers_append)
qed (simp add: image_entries_def)

lemma resume_last_segment_shape:
  assumes "seg_shape (pl_segments s) = xs" "xs \<noteq> []"
  shows "resume_last_segment s = s\<lparr>pl_active_base := fst (last xs), pl_write_position := snd (last xs)\<rparr>"
  using assms by (cases "pl_segments s" rule: rev_cases) (auto simp: resume_last_segment_def Let_def seg_shape_def)

lemma on_disk_image:
  assumes "on_disk a c files d"
  shows "\<forall>(b, rs)\<in>set (image_of files). list_all record_ok rs" "distinct (map fst (image_of files))"
proof -
  show "\<forall>(b, rs)\<in>set (image_of files). list_all record_ok rs"
    using on_disk_file [OF assms] by (auto simp: image_of_def)
  have "map fst (image_of files) = map fst files" by (simp add: image_of_def case_prod_beta)
  then show "distinct (map fst (image_of files))"
    using on_disk_distinct(1) [OF assms] by (simp add: strict_sorted_iff)
qed

lemma clear_recovered_fields [simp]:
  "pl_config (clear_recovered s) = pl_config s" "pl_segment_bytes (clear_recovered s) = pl_segment_bytes s" "pl_index_gate_closed (clear_recovered s) = pl_index_gate_closed s"
  "pl_index_entries (clear_recovered s) = []" "pl_segments (clear_recovered s) = []"
  "pl_earliest (clear_recovered s) = 0" "pl_latest (clear_recovered s) = 0" "pl_high_watermark (clear_recovered s) = 0"
  "pl_active_base (clear_recovered s) = 0" "pl_write_position (clear_recovered s) = 0"
  "pl_index_position (clear_recovered s) = 0" "index_path (clear_recovered s) = index_path s"
  by (simp_all add: clear_recovered_def index_path_def)

lemma update_dma_fields [simp]:
  "pl_config (update_dma_alignment dma s) = pl_config s" "pl_segment_bytes (update_dma_alignment dma s) = pl_segment_bytes s" "pl_index_gate_closed (update_dma_alignment dma s) = pl_index_gate_closed s"
  "pl_index_entries (update_dma_alignment dma s) = pl_index_entries s"
  "pl_segments (update_dma_alignment dma s) = pl_segments s" "pl_offsets (update_dma_alignment dma s) = pl_offsets s"
  "pl_active_base (update_dma_alignment dma s) = pl_active_base s"
  "pl_write_position (update_dma_alignment dma s) = pl_write_position s"
  "pl_index_position (update_dma_alignment dma s) = pl_index_position s"
  "index_path (update_dma_alignment dma s) = index_path s"
  by (simp_all add: update_dma_alignment_def index_path_def)

lemma recover_segment_files_align:
  "files \<noteq> [] \<Longrightarrow> recover_segment_files dma files (r, s, d) =
     recover_segment_files dma files (r, update_dma_alignment dma s, d)"
  by (cases files)
    (auto simp: recover_segment_file_def update_dma_alignment_id [OF dma_aligned_update] split: prod.splits)

text \<open>The state that both recoveries end in, once every frame has been noted.\<close>

lemma restored_noted:
  fixes dma :: nat and s0 :: PartitionLog
  defines "n \<equiv> round_up kIndexEntryPayloadSize dma"
  assumes disk: "on_disk dma (pl_config s0) files d" and a: "20 \<le> dma" and al: "dma_aligned dma s0"
    and fresh: "pl_index_entries s0 = []" "pl_segments s0 = []" "pl_earliest s0 = 0" "pl_latest s0 = 0"
      "pl_high_watermark s0 = 0" "pl_active_base s0 = 0" "pl_write_position s0 = 0" "pl_index_position s0 = 0"
    and s1: "s1 = fold (note_entry n) (image_entries dma (image_of files)) s0"
    and to: "tiles 0 (concat (map snd (image_of files))) to"
    and idx: "d' = d \<or> file_contents d' (index_path s0) = concat (map (encode_index_entry n) (image_entries dma (image_of files)))"
      "\<forall>m. m \<noteq> index_path s0 \<longrightarrow> map_of d' m = map_of d m"
  shows "seg_shape (pl_segments s1) = used_segments dma (image_of files)"
    and "restored dma s0 files d to (if pl_segments s1 \<noteq> [] then resume_last_segment s1 else s1, d')"
proof -
  let ?es = "image_entries dma (image_of files)"
  have "seg_shape (fold (note_segment dma) ?es []) = used_segments dma (image_of files)"
    using fold_note_image [of dma "image_of files" "[]"] on_disk_image [OF disk] a by (simp add: seg_shape_def)
  then show shape: "seg_shape (pl_segments s1) = used_segments dma (image_of files)"
    using al a fresh by (simp add: s1 dma_aligned_def)
  have cov: "covers (pl_latest s0) ?es to"
    using covers_image [OF on_disk_image(1) [OF disk] to] fresh(4) by simp
  have offs: "pl_latest s1 = to" "pl_high_watermark s1 = to" "pl_earliest s1 = 0"
    using fold_note_entry_offsets [OF cov] fresh by (simp_all add: s1)
  have empty: "pl_segments s1 = [] \<longleftrightarrow> used_segments dma (image_of files) = []"
    using shape by (auto simp: seg_shape_def)
  have al1: "dma_aligned dma s1" using al by (simp add: s1 dma_aligned_fold)
  show "restored dma s0 files d to (if pl_segments s1 \<noteq> [] then resume_last_segment s1 else s1, d')"
  proof (cases "pl_segments s1 = []")
    case True
    with empty offs al1 idx fresh show ?thesis
      by (auto simp: restored_def Let_def resume_point_def n_def s1)
  next
    case False
    with resume_last_segment_shape [OF shape] empty offs al1 idx fresh show ?thesis
      by (auto simp: restored_def Let_def resume_point_def n_def s1 dma_aligned_def)
  qed
qed

lemma recover_from_segments_image:
  assumes disk: "on_disk dma (pl_config s) files d" and a: "20 \<le> dma"
    and fresh: "pl_index_entries s = []" "pl_segments s = []" "pl_earliest s = 0" "pl_latest s = 0"
      "pl_high_watermark s = 0" "pl_active_base s = 0" "pl_write_position s = 0" "pl_index_position s = 0"
    and to: "tiles 0 (concat (map snd (image_of files))) to"
  shows "\<exists>s' d'. recover_from_segments dma (s, d) = (Inr (), s', d') \<and> restored dma s files d to (s', d')"
proof -
  let ?n = "round_up kIndexEntryPayloadSize dma"
  let ?d = "truncate_file (index_path s) d"
  have mt: "map_of ?d m = (if m = index_path s then Some [] else map_of d m)" for m
    by (simp add: truncate_file_def update_conv')
  have files: "\<forall>(b, rs, tail)\<in>set files. list_all record_ok rs \<and> torn dma tail \<and>
      file_contents ?d (segment_name (pl_config s) b) = segment_image dma rs @ tail"
    using on_disk_file [OF disk] segment_name_not_index [of s] by (auto simp: file_contents_def mt)
  have ls: "list_segment_files (s, d) = Inr (segment_files (pl_config s) files)"
    by (rule list_segment_files_image [OF disk])
  show ?thesis
  proof (cases "files = []")
    case True
    then show ?thesis
      using to fresh by (simp add: recover_from_segments_def ls segment_files_def restored_def Let_def image_of_def
          image_entries_def resume_point_def used_segments_def file_contents_def mt)
  next
    case False
    let ?s = "update_dma_alignment dma s"
    let ?s1 = "fold (note_entry ?n) (image_entries dma (image_of files)) ?s"
    from recover_segment_files_image [OF a dma_aligned_update refl, of files ?d s "[]" 0] files
    obtain d' where r: "recover_segment_files dma (segment_files (pl_config s) files) (0, ?s, ?d) =
        (Inr (), ?n * length (image_entries dma (image_of files)), ?s1, d')"
      and d': "file_contents d' (index_path s) = concat (map (encode_index_entry ?n) (image_entries dma (image_of files)))"
        "\<forall>m. m \<noteq> index_path s \<longrightarrow> map_of d' m = map_of ?d m"
      by (auto simp: file_contents_def mt)
    have ne: "segment_files (pl_config s) files \<noteq> []" using False by (simp add: segment_files_def)
    let ?s2 = "if pl_segments ?s1 \<noteq> [] then resume_last_segment ?s1 else ?s1"
    have "recover_from_segments dma (s, d) = (Inr (), ?s2, d')"
      using r recover_segment_files_align [OF ne, of dma 0 s ?d] ne by (simp add: recover_from_segments_def ls)
    moreover have "restored dma ?s files d to (?s2, d')"
      by (rule restored_noted(2)) (use disk a fresh to d' in \<open>simp_all add: dma_aligned_update mt\<close>)
    then have "restored dma s files d to (?s2, d')" by (simp add: restored_def)
    ultimately show ?thesis by blast
  qed
qed

section \<open>Recovery from the index\<close>

fun cut :: "nat \<Rightarrow> (int \<times> (int \<times> bytes) list) list \<Rightarrow> (int \<times> (int \<times> bytes) list) list" where
  "cut k [] = []"
| "cut k ((b, rs) # img) = (b, take k rs) # cut (k - length rs) img"

definition image_size :: "nat \<Rightarrow> (int \<times> (int \<times> bytes) list) list \<Rightarrow> nat" where
  "image_size a img = sum_list (map (\<lambda>(b, rs). length (segment_image a rs)) img)"

lemma take_image_entries: "take k (image_entries a img) = image_entries a (cut k img)"
  by (induction k img rule: cut.induct) (simp_all add: image_entries_def take_segment_entries)

lemma used_segments_size: "sum_list (map snd (used_segments a img)) = image_size a img"
  by (induction img) (auto simp: used_segments_def image_size_def segment_image_def)

lemma segment_image_take:
  "length (segment_image a rs) = length (segment_image a (take k rs)) + length (segment_image a (drop k rs))"
  by (metis append_take_drop_id concat_append length_append map_append segment_image_def)

lemma segment_image_Nil: "0 < a \<Longrightarrow> length (segment_image a rs) = 0 \<Longrightarrow> rs = []"
proof (cases rs)
  case (Cons x rs')
  assume "0 < a" "length (segment_image a rs) = 0"
  with Cons frame_size_pos [of a "length (snd x)"] show ?thesis by (simp add: segment_image_def length_frame_of)
qed

lemma image_size_cut: "image_size a (cut k img) \<le> image_size a img"
proof (induction k img rule: cut.induct)
  case (2 k b rs img)
  then show ?case using segment_image_take [of a rs k] by (simp add: image_size_def)
qed simp

lemma cut_complete: "0 < a \<Longrightarrow> image_size a (cut k img) = image_size a img \<Longrightarrow> cut k img = img"
proof (induction k img rule: cut.induct)
  case (2 k b rs img)
  have "length (segment_image a (drop k rs)) = 0 \<and> image_size a (cut (k - length rs) img) = image_size a img"
    using 2(3) segment_image_take [of a rs k] image_size_cut [of a "k - length rs" img] by (simp add: image_size_def)
  with 2(1,2) segment_image_Nil [of a "drop k rs"] show ?case by simp
qed simp

lemma segment_entries_ok:
  assumes "0 < a" "list_all record_ok rs" "0 \<le> b" "i64 b" "pos + length (segment_image a rs) < 2 ^ 63"
  shows "list_all index_entry_ok (segment_entries a b pos rs)"
  using assms(2,5)
proof (induction rs arbitrary: pos)
  case (Cons x rs)
  have "1 \<le> estimate_record_count (snd x)"
    using Cons.prems(1) estimate_record_count_nonneg [of "snd x"] estimate_record_count_zero [of "snd x"]
    by (simp add: record_ok_def)
  then have "index_entry_ok (entry_of b pos x)"
    using Cons.prems assms by (auto simp: index_entry_ok_def entry_of_def record_ok_def i64_def i32_def)
  moreover have "pos + length (frame_of a x) + length (segment_image a rs) < 2 ^ 63"
    using Cons.prems(2) by (simp add: segment_image_def)
  ultimately show ?case using Cons.IH Cons.prems(1) by simp
qed simp

lemma image_entries_ok: "on_disk a c files d \<Longrightarrow> list_all index_entry_ok (image_entries a (image_of files))"
  using on_disk_file [of a c files d] by (fastforce simp: image_entries_def image_of_def list_all_iff)

lemma covers_complete:
  assumes disk: "on_disk dma c files d" and a: "0 < dma"
    and segs: "seg_shape segs = used_segments dma (cut k (image_of files))"
    and len: "length (segment_files c files) = length segs"
    and all: "list_all (covers_file d) (zip (segment_files c files) segs)"
  shows "cut k (image_of files) = image_of files"
proof -
  have sizes: "map (\<lambda>(b, name). length (file_contents d name)) fs = map si_write_position ss"
    if "length fs = length ss" "list_all (covers_file d) (zip fs ss)" for fs ss
    using that by (induction fs ss rule: list_induct2) (auto simp: covers_file_def)
  have "map snd (seg_shape segs) = map si_write_position segs" by (simp add: seg_shape_def)
  with sizes [OF len all] segs
  have "sum_list (map (\<lambda>(b, name). length (file_contents d name)) (segment_files c files)) =
      image_size dma (cut k (image_of files))"
    by (metis used_segments_size)
  moreover have "sum_list (map (\<lambda>(b, name). length (file_contents d name)) (segment_files c files)) =
      sum_list (map (\<lambda>(b, rs, tail). length (segment_image dma rs) + length tail) files)"
    unfolding segment_files_def map_map
    by (rule arg_cong [of _ _ sum_list], rule map_cong [OF refl])
      (use on_disk_file [OF disk] in \<open>auto simp: file_contents_def\<close>)
  moreover have "\<dots> \<ge> image_size dma (image_of files)"
    unfolding image_size_def image_of_def map_map by (rule sum_list_mono) auto
  ultimately show ?thesis
    using cut_complete [OF a] image_size_cut [of dma k "image_of files"] by simp
qed

text \<open>What a crash may leave of the index: nothing, or some leading entries and then bytes that do not decode.\<close>

definition index_left :: "nat \<Rightarrow> IndexEntry list \<Rightarrow> bytes option \<Rightarrow> bool" where
  "index_left n es f \<longleftrightarrow>
     f = None \<or> (\<exists>k rest. f = Some (concat (map (encode_index_entry n) (take k es)) @ rest) \<and> undecodable n rest)"

lemma resume_last_segment_segments [simp]: "pl_segments (resume_last_segment s) = pl_segments s"
  "pl_config (resume_last_segment s) = pl_config s"
  by (simp_all add: resume_last_segment_def Let_def)

lemma covers_take: "covers from es to \<Longrightarrow> \<exists>mid. covers from (take k es) mid"
  by (metis append_take_drop_id covers_append)

lemma restored_cong:
  "pl_config s1 = pl_config s \<Longrightarrow> pl_segment_bytes s1 = pl_segment_bytes s \<Longrightarrow>
   pl_index_gate_closed s1 = pl_index_gate_closed s \<Longrightarrow> restored dma s1 files d to r \<Longrightarrow> restored dma s files d to r"
  by (simp add: restored_def index_path_def)

lemma recover_segments_cleared:
  assumes "on_disk dma (pl_config s) files d" "20 \<le> dma" "tiles 0 (concat (map snd (image_of files))) to"
    and "pl_config s1 = pl_config s" "pl_segment_bytes s1 = pl_segment_bytes s" "pl_index_gate_closed s1 = pl_index_gate_closed s"
    and "s2 = clear_recovered s1 \<or> s2 = update_dma_alignment dma (clear_recovered s1)"
  shows "\<exists>s' d'. recover_from_segments dma (s2, d) = (Inr (), s', d') \<and> restored dma s files d to (s', d')"
proof -
  have c: "pl_config s2 = pl_config s" "pl_segment_bytes s2 = pl_segment_bytes s" "pl_index_gate_closed s2 = pl_index_gate_closed s" using assms(4-7) by auto
  have "\<exists>s' d'. recover_from_segments dma (s2, d) = (Inr (), s', d') \<and> restored dma s2 files d to (s', d')"
    by (rule recover_from_segments_image) (use assms c in auto)
  then show ?thesis using restored_cong [OF c] by blast
qed

lemma fst_cut [simp]: "map fst (cut k img) = map fst img"
  by (induction k img rule: cut.induct) auto

lemma cut_records: "\<forall>(b, rs)\<in>set img. list_all record_ok rs \<Longrightarrow> \<forall>(b, rs)\<in>set (cut k img). list_all record_ok rs"
  by (induction k img rule: cut.induct) (auto simp: list_all_iff dest: in_set_takeD)

lemma used_segments_Nil: "used_segments a img = [] \<Longrightarrow> image_entries a img = []"
  by (induction img) (auto simp: used_segments_def image_entries_def split: if_splits)

text \<open>An index that decodes to some entries: either it describes the segment files completely, or they are walked.\<close>

lemma recover_index_image:
  fixes dma :: nat
  defines "n \<equiv> round_up kIndexEntryPayloadSize dma"
  assumes disk: "on_disk dma (pl_config s) files d" and a: "20 \<le> dma"
    and to: "tiles 0 (concat (map snd (image_of files))) to"
    and s0: "s0 = update_dma_alignment dma (clear_recovered s)"
    and ne: "take k (image_entries dma (image_of files)) \<noteq> []"
    and s1: "s1 = fold (note_entry n) (take k (image_entries dma (image_of files))) s0"
    and idx: "recover_from_index dma (clear_recovered s, d) = (Inr True, resume_last_segment s1)"
  shows "\<exists>s' d'. recover dma (s, d) = (Inr (), s', d') \<and> restored dma s files d to (s', d')"
proof -
  let ?s2 = "resume_last_segment s1"
  let ?img = "image_of files"
  have c2: "pl_config ?s2 = pl_config s" "pl_segment_bytes ?s2 = pl_segment_bytes s" "pl_index_gate_closed ?s2 = pl_index_gate_closed s"
    by (simp_all add: s1 s0 resume_last_segment_def Let_def)
  have al: "dma_aligned dma s0" by (simp add: s0 dma_aligned_update)
  then have "pl_segments s1 = fold (note_segment dma) (image_entries dma (cut k ?img)) []"
    using a by (simp add: s1 take_image_entries dma_aligned_def) (simp add: s0)
  then have shape: "seg_shape (pl_segments ?s2) = used_segments dma (cut k ?img)"
    using fold_note_image [of dma "cut k ?img" "[]"] on_disk_image(2) [OF disk]
      cut_records [OF on_disk_image(1) [OF disk], of k] a by (simp add: seg_shape_def)
  then have segs: "pl_segments ?s2 \<noteq> []"
    using ne used_segments_Nil [of dma "cut k ?img"] by (auto simp: take_image_entries seg_shape_def)
  have ls: "list_segment_files (?s2, d) = Inr (segment_files (pl_config s) files)"
    using list_segment_files_image [of dma ?s2 files d] disk c2(1) by simp
  let ?complete = "length (segment_files (pl_config s) files) = length (pl_segments ?s2) \<and>
      list_all (covers_file d) (zip (segment_files (pl_config s) files) (pl_segments ?s2))"
  have cov: "recovered_index_covers_segments (?s2, d) = Inr ?complete"
    using segs by (simp add: recovered_index_covers_segments_def ls)
  show ?thesis
  proof (cases ?complete)
    case True
    then have "cut k ?img = ?img" using covers_complete [OF disk _ shape] a by simp
    then have all: "take k (image_entries dma ?img) = image_entries dma ?img" by (simp add: take_image_entries)
    have "restored dma s0 files d to (if pl_segments s1 \<noteq> [] then ?s2 else s1, d)"
      by (rule restored_noted(2)) (use disk a al to s1 all in \<open>simp_all add: s0 n_def\<close>)
    then have "restored dma s files d to (?s2, d)" using segs by (simp add: s0 restored_def)
    moreover have "recover dma (s, d) = (Inr (), ?s2, d)" using True cov by (simp add: recover_def idx)
    ultimately show ?thesis by blast
  next
    case False
    then have "recover dma (s, d) = recover_from_segments dma (clear_recovered ?s2, d)"
      using cov by (auto simp: recover_def idx)
    then show ?thesis using recover_segments_cleared [OF disk a to c2] by simp
  qed
qed

lemma recover_image:
  assumes disk: "on_disk dma (pl_config s) files d" and a: "20 \<le> dma"
    and to: "tiles 0 (concat (map snd (image_of files))) to"
    and left: "index_left (round_up kIndexEntryPayloadSize dma) (image_entries dma (image_of files)) (map_of d (index_path s))"
  shows "\<exists>s' d'. recover dma (s, d) = (Inr (), s', d') \<and> restored dma s files d to (s', d')"
proof (cases "map_of d (index_path s)")
  case None
  then have "recover dma (s, d) = recover_from_segments dma (clear_recovered s, d)"
    by (simp add: recover_def recover_from_index_def)
  then show ?thesis using recover_segments_cleared [OF disk a to refl refl refl] by simp
next
  case (Some f)
  let ?es = "image_entries dma (image_of files)" and ?n = "round_up kIndexEntryPayloadSize dma"
  define s0 where "s0 = update_dma_alignment dma (clear_recovered s)"
  from left Some obtain k rest where f: "f = concat (map (encode_index_entry ?n) (take k ?es)) @ rest"
    and rest: "undecodable ?n rest" by (auto simp: index_left_def)
  have n: "pl_index_entry_size s0 = ?n" "44 \<le> ?n"
    using a index_entry_size_44 [of dma] by (simp_all add: s0_def update_dma_alignment_def)
  have cov: "covers 0 ?es to" by (rule covers_image [OF on_disk_image(1) [OF disk] to])
  then obtain mid where "covers (pl_latest s0) (take k ?es) mid" using covers_take by (fastforce simp: s0_def)
  moreover have "list_all index_entry_ok (take k ?es)"
    using image_entries_ok [OF disk] by (auto simp: list_all_iff dest: in_set_takeD)
  ultimately have scan: "index_scan f 0 False s0 = (Inr (take k ?es \<noteq> []), fold (note_entry ?n) (take k ?es) s0)"
    using index_scan_entries [OF n _ rest, of "take k ?es" mid "[]" False] by (simp add: f)
  show ?thesis
  proof (cases "take k ?es = []")
    case True
    then have "index_scan f 0 False s0 = (Inr False, s0)" using scan by (simp only: fold.simps id_apply simp_thms)
    then have "recover dma (s, d) = recover_from_segments dma (s0, d)"
      using Some by (simp add: recover_def recover_from_index_def s0_def)
    then show ?thesis using recover_segments_cleared [OF disk a to refl refl refl] by (simp add: s0_def)
  next
    case False
    then have "recover_from_index dma (clear_recovered s, d) =
        (Inr True, resume_last_segment (fold (note_entry ?n) (take k ?es) s0))"
      using scan Some by (simp add: recover_from_index_def s0_def)
    with recover_index_image [OF disk a to s0_def False refl] show ?thesis by simp
  qed
qed

section \<open>The recovered log\<close>

lemma segment_entries_stored:
  assumes "pl_alignment s = a" "0 < a" "map_of d (segment_path s b) = Some (pre @ segment_image a rs @ tail)"
    and "length pre = pos" "list_all record_ok rs" "list_all index_entry_ok (segment_entries a b pos rs)"
  shows "list_all (entry_stored s d) (segment_entries a b pos rs) \<and>
    map (\<lambda>e. (ie_base_offset e, entry_payload s d e)) (segment_entries a b pos rs) = rs"
  using assms(3-)
proof (induction rs arbitrary: pos pre)
  case (Cons x rs)
  let ?e = "entry_of b pos x"
  have stored: "entry_file s d ?e = pre @ frame_of a x @ segment_image a rs @ tail"
    using Cons.prems(1) by (simp add: entry_file_def file_contents_def entry_of_def segment_image_def)
  have bytes: "entry_bytes ?e = length (snd x)" "ie_segment_position ?e = pos" "ie_base_offset ?e = fst x"
    using Cons.prems(3) by (simp_all add: entry_bytes_def entry_of_def cast_u64_def record_ok_def)
  have len: "20 + length (snd x) \<le> length (frame_of a x)"
    using frame_size_ge [OF assms(2)] by (simp add: length_frame_of assms(2))
  have pay: "entry_payload s d ?e = snd x"
    using frame_of_payload [of a x "segment_image a rs @ tail"] Cons.prems(2)
    by (simp add: entry_payload_def stored bytes chunk_def)
  have "chunk (entry_file s d ?e) (ie_segment_position ?e) (entry_frame_size a ?e) = frame_of a x"
    using Cons.prems(2,3) by (simp add: stored bytes entry_of_frame_size assms(2) chunk_def)
  moreover have "frame_of a x = log_frame a \<lparr>rs_base_offset = ie_base_offset ?e, rs_last_offset = ie_last_offset ?e,
      rs_bytes = entry_payload s d ?e\<rparr>"
    by (simp add: frame_of_def log_frame_def Let_def pay bytes)
  moreover have "map_of d (segment_path s (ie_segment_base ?e)) \<noteq> None" using Cons.prems(1) by (simp add: entry_of_def)
  ultimately have "entry_stored s d ?e"
    using Cons.prems(4) pay bytes assms(1) by (simp add: entry_stored_def)
  moreover have "map_of d (segment_path s b) = Some ((pre @ frame_of a x) @ segment_image a rs @ tail)"
    using Cons.prems(1) by (simp add: segment_image_def)
  ultimately show ?case
    using Cons.IH [of "pre @ frame_of a x" "pos + length (frame_of a x)"] Cons.prems(2-4) pay bytes(3) by simp
qed simp

lemma image_entries_stored:
  assumes disk: "on_disk a (pl_config s) files d" and a: "pl_alignment s = a" "0 < a"
  shows "list_all (entry_stored s d) (image_entries a (image_of files)) \<and>
    map (\<lambda>e. (ie_base_offset e, entry_payload s d e)) (image_entries a (image_of files)) = concat (map snd (image_of files))"
proof -
  have seg: "list_all (entry_stored s d) (segment_entries a b 0 rs) \<and>
      map (\<lambda>e. (ie_base_offset e, entry_payload s d e)) (segment_entries a b 0 rs) = rs"
    if "(b, rs, tail) \<in> set files" for b rs tail
    using segment_entries_stored [OF a, of d b "[]" rs tail 0] on_disk_file [OF disk that]
    by (simp add: segment_path_def)
  have "list_all (entry_stored s d) (image_entries a (image_of fs)) \<and>
      map (\<lambda>e. (ie_base_offset e, entry_payload s d e)) (image_entries a (image_of fs)) = concat (map snd (image_of fs))"
    if "set fs \<subseteq> set files" for fs
    using that
  proof (induction fs)
    case (Cons x fs)
    obtain b rs tail where x: "x = (b, rs, tail)" by (cases x)
    with Cons seg [of b rs tail] show ?case by (simp add: image_entries_def image_of_def)
  qed (simp add: image_entries_def image_of_def)
  then show ?thesis by blast
qed

lemma covers_sorted: "covers from es to \<Longrightarrow> sorted_wrt (\<lambda>x y. ie_last_offset x < ie_base_offset y) es"
proof (induction es arbitrary: "from")
  case (Cons e es)
  then show ?case using covers_last [of "ie_last_offset e + 1" es to] by fastforce
qed simp

definition packed :: "nat \<Rightarrow> IndexEntry \<Rightarrow> IndexEntry \<Rightarrow> bool" where
  "packed a x y \<longleftrightarrow> (ie_segment_base x = ie_segment_base y \<longrightarrow>
     ie_segment_position x + entry_frame_size a x \<le> ie_segment_position y)"

lemma segment_entries_base: "e \<in> set (segment_entries a b pos rs) \<Longrightarrow> ie_segment_base e = b \<and> pos \<le> ie_segment_position e"
  by (induction rs arbitrary: pos) (auto simp: entry_of_def dest: order_trans [rotated] add_leD1)

lemma segment_entries_packed:
  "0 < a \<Longrightarrow> list_all record_ok rs \<Longrightarrow> sorted_wrt (packed a) (segment_entries a b pos rs)"
proof (induction rs arbitrary: pos)
  case (Cons x rs)
  have "packed a (entry_of b pos x) e" if "e \<in> set (segment_entries a b (pos + length (frame_of a x)) rs)" for e
    using segment_entries_base [OF that] Cons.prems
    by (simp add: packed_def entry_of_frame_size) (simp add: entry_of_def)
  with Cons show ?case by simp
qed simp

lemma image_entries_base: "e \<in> set (image_entries a img) \<Longrightarrow> ie_segment_base e \<in> fst ` set img"
  by (auto simp: image_entries_def dest!: segment_entries_base intro: rev_image_eqI)

lemma image_entries_packed:
  "0 < a \<Longrightarrow> distinct (map fst img) \<Longrightarrow> \<forall>(b, rs)\<in>set img. list_all record_ok rs \<Longrightarrow>
   sorted_wrt (packed a) (image_entries a img)"
proof (induction img)
  case (Cons x img)
  obtain b rs where x: "x = (b, rs)" by (cases x)
  have "packed a y z" if "y \<in> set (segment_entries a b 0 rs)" "z \<in> set (image_entries a img)" for y z
    using segment_entries_base [OF that(1)] image_entries_base [OF that(2)] Cons.prems(2)
    by (force simp: packed_def x)
  moreover have "image_entries a (x # img) = segment_entries a b 0 rs @ image_entries a img"
    by (simp add: image_entries_def x)
  ultimately show ?case
    using Cons segment_entries_packed [of a rs b 0] by (auto simp: sorted_wrt_append x)
qed (simp add: image_entries_def)

lemma index_ok_image:
  assumes disk: "on_disk a (pl_config s) files d" and a: "pl_alignment s = a" "0 < a"
    and to: "tiles 0 (concat (map snd (image_of files))) to" and es: "pl_index_entries s = image_entries a (image_of files)"
  shows "index_ok s d \<and> log_contents s d = concat (map snd (image_of files)) \<and> covers 0 (pl_index_entries s) to"
proof -
  have cov: "covers 0 (image_entries a (image_of files)) to"
    by (rule covers_image [OF on_disk_image(1) [OF disk] to])
  have "sorted_wrt (entry_before a) (image_entries a (image_of files))"
    using covers_sorted [OF cov] image_entries_packed [OF a(2) on_disk_image(2,1) [OF disk]]
    by (simp add: sorted_wrt_iff_nth_less entry_before_def packed_def)
  with image_entries_stored [OF disk a] cov a es show ?thesis
    by (simp add: index_ok_def log_contents_def)
qed

end
