(* ===== verification/Log_Durable.thy ===== *)
theory Log_Durable
  imports Log_Restart
begin

text \<open>
  Appends keep the files in the shape that recovery reads: the segment files are the frames of
  the record sets one after the other, the index file the entries one after the other. So a log
  that is stopped and started again is the log it was, and one whose last write was torn is
  the log without that write.
\<close>

section \<open>The durable state\<close>

text \<open>The files of a running log: complete segments, and the active one.\<close>

definition log_files :: "PartitionLog \<Rightarrow> file_image list \<Rightarrow> (int \<times> bytes) list \<Rightarrow> file_image list" where
  "log_files s fs rs = fs @ [(pl_active_base s, rs, [])]"

definition sealed :: "file_image list \<Rightarrow> bool" where
  "sealed fs \<longleftrightarrow> (\<forall>(b, rs, tail)\<in>set fs. tail = [] \<and> rs \<noteq> [] \<and> fst (hd rs) = b)"

definition durable_at ::
    "nat \<Rightarrow> PartitionLog \<Rightarrow> disk \<Rightarrow> int \<Rightarrow> file_image list \<Rightarrow> (int \<times> bytes) list \<Rightarrow> bool" where
  "durable_at dma s d nxt fs rs \<longleftrightarrow>
     (let img = image_of (log_files s fs rs); n = round_up kIndexEntryPayloadSize dma
      in sealed fs \<and> (if rs = [] then pl_active_base s = nxt else fst (hd rs) = pl_active_base s) \<and>
         on_disk dma (pl_config s) (log_files s fs rs) d \<and> tiles 0 (concat (map snd img)) nxt \<and>
         pl_index_entries s = image_entries dma img \<and> \<not> pl_index_gate_closed s \<and>
         pl_index_position s = n * length (pl_index_entries s) \<and>
         file_contents d (index_path s) = concat (map (encode_index_entry n) (pl_index_entries s)))"

definition durable :: "nat \<Rightarrow> PartitionLog \<Rightarrow> disk \<Rightarrow> bool" where
  "durable dma s d \<longleftrightarrow> log_ok dma s d \<and> 20 \<le> dma \<and> pl_earliest s = 0 \<and>
     (\<exists>fs rs. durable_at dma s d (pl_latest s) fs rs \<and> (rs = [] \<longrightarrow> fs = [] \<and> pl_latest s = 0))"

section \<open>Appends keep it\<close>

lemma index_path_not_segment: "segment_base_offset_from_name (pl_config s) (index_path s) = Inr None"
proof -
  have x: "last (drop (length (index_path s) - length ''.segment'') (index_path s)) = CHR ''x''"
    by (subst last_drop) (simp_all add: index_path_def)
  have "drop (length (index_path s) - length ''.segment'') (index_path s) \<noteq> ''.segment''"
  proof
    assume eq: "drop (length (index_path s) - length ''.segment'') (index_path s) = ''.segment''"
    from x show False unfolding eq by simp
  qed
  then show ?thesis by (simp only: segment_base_offset_from_name_def Let_def simp_thms if_True)
qed

lemma set_update_names: "fst ` set (AList.update k v d) = insert k (fst ` set d)"
  by (induction d) auto

lemma names_write_file: "fst ` set (write_file m pos bs d) = insert m (fst ` set d)"
  by (simp add: write_file_def set_update_names)

lemma names_create_file: "fst ` set (create_file m d) = insert m (fst ` set d)"
  by (auto simp: create_file_def set_update_names split: option.splits) (metis fst_conv image_eqI map_of_SomeD)

lemma distinct_names:
  "distinct (map fst d) \<Longrightarrow> distinct (map fst (write_file m pos bs d))"
  "distinct (map fst d) \<Longrightarrow> distinct (map fst (create_file m d))"
  by (auto simp: write_file_def create_file_def distinct_update split: option.splits)

lemma file_on_disk_cong:
  "map_of d' (segment_name c (fst x)) = map_of d (segment_name c (fst x)) \<Longrightarrow> file_on_disk a c d' x = file_on_disk a c d x"
  by (cases x) (simp add: file_on_disk_def)

lemma on_disk_all: "on_disk a c files d \<Longrightarrow> \<forall>x\<in>set files. file_on_disk a c d x"
  unfolding on_disk_def by blast

lemma disj_in_mono: "P \<or> m \<in> A \<Longrightarrow> A \<subseteq> B \<Longrightarrow> P \<or> m \<in> B"
  by blast

lemma on_disk_change:
  assumes disk: "on_disk a c (fs @ old) d" and srt: "sorted_wrt (<) (map fst (fs @ new))"
    and names: "distinct (map fst d')" "fst ` set d' \<subseteq> fst ` set d \<union> extra"
      "\<forall>m\<in>extra. segment_base_offset_from_name c m = Inr None \<or> m \<in> segment_name c ` fst ` set new"
      "fst ` set old \<subseteq> fst ` set new"
    and kept: "\<forall>x\<in>set fs. map_of d' (segment_name c (fst x)) = map_of d (segment_name c (fst x))"
    and new: "\<forall>x\<in>set new. file_on_disk a c d' x"
  shows "on_disk a c (fs @ new) d'"
  unfolding on_disk_def
proof (intro conjI ballI)
  fix x assume "x \<in> set (fs @ new)"
  then consider "x \<in> set fs" | "x \<in> set new" by auto
  then show "file_on_disk a c d' x"
  proof cases
    case 1
    then have "file_on_disk a c d x" using on_disk_all [OF disk] by simp
    with file_on_disk_cong [OF bspec [OF kept 1]] show ?thesis by blast
  next
    case 2
    with new show ?thesis by blast
  qed
next
  fix m assume "m \<in> fst ` set d'"
  with names(2) consider "m \<in> set (map fst d)" | "m \<in> extra" by auto
  then show "segment_base_offset_from_name c m = Inr None \<or> m \<in> segment_name c ` fst ` set (fs @ new)"
  proof cases
    case 1
    have "fst ` set (fs @ old) \<subseteq> fst ` set (fs @ new)" using names(4) by (auto simp: image_Un)
    from disj_in_mono [OF on_disk_name [OF disk 1] image_mono [OF this]] show ?thesis .
  next
    case 2
    have "fst ` set new \<subseteq> fst ` set (fs @ new)" by auto
    from disj_in_mono [OF bspec [OF names(3) 2] image_mono [OF this]] show ?thesis .
  qed
qed (use srt names(1) in simp_all)

lemma next_frame_frame_of: "pl_alignment s = a \<Longrightarrow> next_frame s nxt records = frame_of a (nxt, records)"
  by (simp add: frame_of_def log_frame_def record_set_of_def Let_def)

lemma log_files_image: "image_of (log_files s fs rs) = image_of fs @ [(pl_active_base s, rs)]"
  by (simp add: image_of_def log_files_def)

lemma image_entries_snoc: "image_entries a (img @ [(b, rs)]) = image_entries a img @ segment_entries a b 0 rs"
  by (simp add: image_entries_def)

lemma durable_active:
  assumes "store_ok dma s d nxt" "durable_at dma s d nxt fs rs"
  shows "file_contents d (active_path s) = segment_image dma rs" "pl_write_position s = length (segment_image dma rs)"
proof -
  have "(pl_active_base s, rs, []) \<in> set (log_files s fs rs)" by (simp add: log_files_def)
  with assms(2) have "map_of d (segment_name (pl_config s) (pl_active_base s)) = Some (segment_image dma rs @ [])"
    using on_disk_file by (fastforce simp: durable_at_def Let_def)
  then show c: "file_contents d (active_path s) = segment_image dma rs"
    by (simp add: file_contents_def segment_path_def)
  with assms(1) show "pl_write_position s = length (segment_image dma rs)" by (simp add: store_ok_def)
qed

lemma next_entry_ok: "store_ok dma s d nxt \<Longrightarrow> write_fits s nxt records \<Longrightarrow> index_entry_ok (next_entry s nxt records)"
  using estimate_pos [of records]
  by (auto simp: index_entry_ok_def write_fits_def store_ok_def i64_def i32_def)

lemma files_below_active:
  assumes "on_disk a c (log_files s fs rs) d"
  shows "\<forall>x\<in>set fs. 0 \<le> fst x \<and> fst x < pl_active_base s" "0 \<le> pl_active_base s" "i64 (pl_active_base s)"
proof -
  have "\<forall>x\<in>set (log_files s fs rs). file_on_disk a c d x"
    by (rule on_disk_all [OF assms])
  then have "\<forall>x\<in>set (log_files s fs rs). 0 \<le> fst x \<and> i64 (fst x)"
    by (simp add: file_on_disk_def case_prod_beta)
  moreover have "\<forall>x\<in>set fs. fst x < pl_active_base s"
    using on_disk_distinct(1) [OF assms] by (simp add: log_files_def sorted_wrt_append)
  ultimately show "\<forall>x\<in>set fs. 0 \<le> fst x \<and> fst x < pl_active_base s" "0 \<le> pl_active_base s" "i64 (pl_active_base s)"
    by (auto simp: log_files_def)
qed

lemma segment_names_apart:
  "\<forall>x\<in>set fs. 0 \<le> fst x \<and> fst x < b \<Longrightarrow> \<forall>x\<in>set fs. segment_name c (fst x) \<noteq> segment_name c b"
  using segment_name_inject [of c _ b] by force

text \<open>A disk in which only the active segment file and the index file differ.\<close>

lemma on_disk_extended:
  assumes disk: "on_disk a c (fs @ [(b, rs, [])]) d" and dist: "distinct (map fst d')"
    and same: "\<forall>m. m \<noteq> segment_name c b \<and> m \<noteq> i \<longrightarrow> map_of d' m = map_of d m"
    and i: "segment_base_offset_from_name c i = Inr None" "\<forall>b. segment_name c b \<noteq> i"
    and new: "file_on_disk a c d' (b, rs', tail)"
  shows "on_disk a c (fs @ [(b, rs', tail)]) d'"
proof (rule on_disk_change [OF disk, where extra = "{i, segment_name c b}"])
  have low: "\<forall>x\<in>set fs. 0 \<le> fst x \<and> fst x < b"
    using on_disk_all [OF disk] on_disk_distinct(1) [OF disk]
    by (simp add: file_on_disk_def case_prod_beta sorted_wrt_append)
  show "\<forall>x\<in>set fs. map_of d' (segment_name c (fst x)) = map_of d (segment_name c (fst x))"
    using segment_names_apart [OF low, of c] same i(2) by simp
  show "fst ` set d' \<subseteq> fst ` set d \<union> {i, segment_name c b}"
    using same by (metis (no_types, lifting) Un_iff domIff dom_map_of_conv_image_fst insertCI subsetI)
qed (use dist i new on_disk_distinct(1) [OF disk] in simp_all)

lemma durable_complete_write:
  assumes ok: "store_ok dma s d nxt" and fits: "write_fits s nxt records" and a: "20 \<le> dma"
    and dur: "durable_at dma s d nxt fs rs"
    and sub: "submit_write (record_set_of nxt records) (next_frame s nxt records) s = (Inr w, s1)"
    and com: "complete_write w (s1, d) = (s2, d2)"
  shows "durable_at dma s2 d2 (nxt + estimate_record_count records) fs (rs @ [(nxt, records)])"
proof -
  let ?x = "(nxt, records)" and ?n = "round_up kIndexEntryPayloadSize dma"
  let ?c = "pl_config s" and ?b = "pl_active_base s"
  note eff = complete_write_effect [OF ok fits sub com]
  note act = durable_active [OF ok dur]
  have al: "pl_alignment s = dma" "pl_index_entry_size s = ?n" and n: "44 \<le> ?n"
    using ok a index_entry_size_44 [of dma] by (simp_all add: store_ok_def dma_aligned_def)
  have disk: "on_disk dma ?c (fs @ [(?b, rs, [])]) d" and gate: "\<not> pl_index_gate_closed s"
    using dur by (simp_all add: durable_at_def Let_def log_files_def)
  have frame: "next_frame s nxt records = frame_of dma ?x" by (rule next_frame_frame_of [OF al(1)])
  have ent: "next_entry s nxt records = entry_of ?b (length (segment_image dma rs)) ?x"
    by (simp add: next_entry_def entry_of_def act(2))
  have img: "segment_image dma (rs @ [?x]) = segment_image dma rs @ frame_of dma ?x"
    by (simp add: segment_image_def)
  have d2: "d2 = write_file (index_path s) (pl_index_position s) (encode_index_entry ?n (next_entry s nxt records))
      (write_file (active_path s) (pl_write_position s) (frame_of dma ?x) d)"
    using eff(12) gate al frame by simp
  have mp: "map_of d2 (segment_name ?c b) = (if segment_name ?c b = segment_name ?c ?b
      then Some (segment_image dma (rs @ [?x])) else map_of d (segment_name ?c b))" for b
    using complete_write_files(1) [OF ok eff(12), of b] act(1) frame img by (simp add: segment_path_def)
  have "record_ok ?x" using fits by (simp add: record_ok_def write_fits_def)
  moreover have "index_entry_ok (entry_of ?b (length (segment_image dma rs)) ?x)"
    using next_entry_ok [OF ok fits] ent by simp
  moreover have "file_on_disk dma ?c d (?b, rs, [])" using on_disk_all [OF disk] by simp
  ultimately have new: "file_on_disk dma ?c d2 (?b, rs @ [?x], [])"
    using mp [of ?b] by (simp add: file_on_disk_def segment_entries_append)
  have disk2: "on_disk dma ?c (fs @ [(?b, rs @ [?x], [])]) d2"
  proof (rule on_disk_extended [OF disk _ _ index_path_not_segment _ new])
    show "distinct (map fst d2)"
      using on_disk_distinct(2) [OF disk] by (simp add: d2 distinct_names)
    show "\<forall>m. m \<noteq> segment_name ?c ?b \<and> m \<noteq> index_path s \<longrightarrow> map_of d2 m = map_of d m"
      by (simp add: d2 map_of_write_file segment_path_def)
  qed (use segment_name_not_index [of s] in simp)
  have old: "sealed fs" "if rs = [] then ?b = nxt else fst (hd rs) = ?b"
    "tiles 0 (concat (map snd (image_of fs)) @ rs) nxt"
    "pl_index_entries s = image_entries dma (image_of fs) @ segment_entries dma ?b 0 rs"
    "pl_index_position s = ?n * length (pl_index_entries s)"
    "file_contents d (index_path s) = concat (map (encode_index_entry ?n) (pl_index_entries s))"
    using dur by (simp_all add: durable_at_def Let_def log_files_image image_entries_snoc)
  have lf: "log_files s2 fs (rs @ [?x]) = fs @ [(?b, rs @ [?x], [])]" by (simp add: log_files_def eff(8))
  have "length (file_contents d (index_path s)) = pl_index_position s"
    using n by (simp add: old(5,6) length_concat comp_def length_encode_index_entry sum_list_triv)
  then have idx: "file_contents d2 (index_path s2) =
      concat (map (encode_index_entry ?n) (pl_index_entries s2))"
    using index_path_cong [OF eff(3)] segment_path_not_index [of s ?b]
    by (simp add: d2 file_contents_write_file dma_write_end eff(2) old(6))
  have ents: "pl_index_entries s2 = image_entries dma (image_of fs) @ segment_entries dma ?b 0 (rs @ [?x])"
    by (simp add: eff(2) old(4) ent segment_entries_append)
  have hd: "fst (hd (rs @ [?x])) = ?b" using old(2) by (cases rs) auto
  have tl: "tiles 0 (concat (map snd (image_of fs)) @ rs @ [?x]) (nxt + estimate_record_count records)"
    using old(3) by (auto simp: tiles_append)
  have len: "length (pl_index_entries s2) = Suc (length (pl_index_entries s))" by (simp add: eff(2))
  have pos: "pl_index_position s2 = ?n * length (pl_index_entries s2)"
    by (simp add: eff(10) al(2) len old(5))
  show ?thesis
    unfolding durable_at_def Let_def log_files_image image_entries_snoc
    unfolding lf eff(3,8)
    using old(1) disk2 hd tl ents gate idx pos eff(11) by (intro conjI) simp_all
qed

lemma durable_rollover:
  assumes ok: "store_ok dma s d nxt" and nxt: "i64 nxt" and a: "20 \<le> dma"
    and dur: "durable_at dma s d nxt fs rs" and wp: "0 < pl_write_position s"
    and roll: "rollover dma nxt (s, d) = (s1, d1)"
  shows "durable_at dma s1 d1 nxt (log_files s fs rs) []"
proof -
  let ?c = "pl_config s"
  have s1: "pl_config s1 = ?c" "pl_active_base s1 = nxt" "pl_index_entries s1 = pl_index_entries s"
    "pl_index_gate_closed s1 = pl_index_gate_closed s" "pl_index_position s1 = pl_index_position s"
    and d1: "d1 = create_file (segment_name ?c nxt) d"
    using roll ok wp
    by (auto simp: rollover_def store_ok_def open_active_segment_def update_dma_alignment_def segment_path_def)
  have lt: "pl_active_base s < nxt" and absent: "map_of d (segment_name ?c nxt) = None"
    using ok wp by (simp_all add: store_ok_def segment_path_def)
  have disk: "on_disk dma ?c (log_files s fs rs) d" and rs: "rs \<noteq> []"
    using dur durable_active(2) [OF ok dur] wp by (auto simp: durable_at_def Let_def segment_image_def)
  note below = files_below_active [OF disk]
  have low: "\<forall>x\<in>set (log_files s fs rs). 0 \<le> fst x \<and> fst x < nxt"
    using below lt by (simp add: log_files_def) (meson less_trans)
  have mp: "map_of d1 m = (if m = segment_name ?c nxt then Some [] else map_of d m)" for m
    using absent by (simp add: d1 map_of_create_file)
  have "on_disk dma ?c (log_files s fs rs @ [(nxt, [], [])]) d1"
  proof (rule on_disk_change [where old = "[]" and extra = "{segment_name ?c nxt}"])
    show "sorted_wrt (<) (map fst (log_files s fs rs @ [(nxt, [], [])]))"
      using on_disk_distinct(1) [OF disk] low by (simp add: sorted_wrt_append)
    show "\<forall>x\<in>set (log_files s fs rs). map_of d1 (segment_name ?c (fst x)) = map_of d (segment_name ?c (fst x))"
      using segment_names_apart [OF low, of ?c] by (simp add: mp)
    show "\<forall>x\<in>set [(nxt, [], [])]. file_on_disk dma ?c d1 x"
      using mp [of "segment_name ?c nxt"] below(2) lt nxt a by (simp add: file_on_disk_def segment_image_def)
    show "distinct (map fst d1)" "fst ` set d1 \<subseteq> fst ` set d \<union> {segment_name ?c nxt}"
      using on_disk_distinct(2) [OF disk] by (simp_all add: d1 distinct_names names_create_file)
  qed (use disk in simp_all)
  moreover have "sealed (log_files s fs rs)"
    using dur rs by (auto simp: durable_at_def Let_def sealed_def log_files_def)
  moreover have "file_contents d1 (index_path s) = file_contents d (index_path s)"
    by (simp add: d1)
  moreover have "image_of (log_files s1 (log_files s fs rs) []) = image_of (log_files s fs rs) @ [(nxt, [])]"
    by (simp add: log_files_image s1)
  moreover have "log_files s1 (log_files s fs rs) [] = log_files s fs rs @ [(nxt, [], [])]"
    by (simp add: log_files_def s1)
  moreover note index_path_cong [OF s1(1)]
  ultimately show ?thesis
    using dur unfolding durable_at_def Let_def s1 by (simp add: image_entries_snoc)
qed

lemma durable_ensure_segment:
  assumes ok: "store_ok dma s d nxt" and nxt: "i64 nxt" and a: "20 \<le> dma" and dur: "durable_at dma s d nxt fs rs"
    and ens: "ensure_segment_for_write dma nxt frame_size (s, d) = (s1, d1)"
  shows "\<exists>fs rs. durable_at dma s1 d1 nxt fs rs"
proof (cases "pl_write_position s = 0 \<or> pl_write_position s + frame_size \<le> pl_segment_bytes s")
  case True
  with ens ok have "s1 = s" "d1 = d" by (auto simp: ensure_segment_for_write_def store_ok_def)
  with dur show ?thesis by blast
next
  case False
  with ok ens have "rollover dma nxt (s, d) = (s1, d1)"
    by (simp add: ensure_segment_for_write_def store_ok_def split: if_splits)
  from durable_rollover [OF ok nxt a dur _ this] False show ?thesis by blast
qed

lemma durable_write_record_set:
  assumes ok: "store_ok dma s d nxt" and fits: "write_fits s nxt records" and a: "20 \<le> dma"
    and dur: "durable_at dma s d nxt fs rs"
    and w: "write_record_set dma (record_set_of nxt records) (s, d) = (Inr (), s', d')"
  shows "\<exists>fs rs. durable_at dma s' d' (nxt + estimate_record_count records) fs rs \<and> rs \<noteq> []"
proof -
  let ?rs = "record_set_of nxt records"
  have base: "rs_base_offset ?rs = nxt" by (simp add: record_set_of_def Let_def)
  obtain s1 d1 where ens: "ensure_segment_for_write dma nxt (length (next_frame s nxt records)) (s, d) = (s1, d1)"
    by (cases "ensure_segment_for_write dma nxt (length (next_frame s nxt records)) (s, d)")
  note ok1 = ensure_segment_ok [OF ok ens]
  have align: "pl_alignment s1 = pl_alignment s"
    using ok ok1 by (simp add: store_ok_def dma_aligned_def)
  have fits1: "write_fits s1 nxt records"
    by (rule write_fits_smaller [OF fits ensure_segment_position [OF ok ens]])
  obtain fs1 rs1 where dur1: "durable_at dma s1 d1 nxt fs1 rs1"
    using durable_ensure_segment [OF ok _ a dur ens] fits by (auto simp: write_fits_def)
  obtain w s2 where sub: "submit_write ?rs (next_frame s1 nxt records) s1 = (Inr w, s2)"
    using ok1 by (auto simp: submit_write_def Let_def store_ok_def)
  have com: "complete_write w (s2, d1) = (s', d')"
    using w sub by (simp add: write_record_set_def base ens align)
  from durable_complete_write [OF _ fits1 a dur1 sub com] ok1 show ?thesis by blast
qed

lemma durable_at_meta:
  assumes "durable_at dma s d nxt fs rs"
    and "s' = s\<lparr>pl_offsets := po, pl_queue_depth := q, pl_replica_lag := l, pl_disk_fsyncs := f\<rparr>"
  shows "durable_at dma s' d nxt fs rs"
  using assms by (simp add: durable_at_def Let_def log_files_def index_path_def)

text \<open>An admitted append writes its record set behind the others.\<close>

lemma append_write_durable:
  assumes ok: "store_ok dma s d nxt" and fits: "write_fits s nxt records" and a: "20 \<le> dma"
    and dur: "durable_at dma s d nxt fs rs"
    and app: "append_write dma (response, Some (record_set_of nxt records), s) d = (Inr response, s', d')"
  shows "\<exists>fs rs. durable_at dma s' d' (nxt + estimate_record_count records) fs rs \<and> rs \<noteq> []"
proof -
  obtain s1 d1 where w: "write_record_set dma (record_set_of nxt records) (s, d) = (Inr (), s1, d1)"
    and ok1: "store_ok dma s1 d1 (nxt + estimate_record_count records)"
    using write_record_set_ok [OF ok fits] by blast
  obtain f where flush: "maybe_flush s1 = (Inr (), s1\<lparr>pl_disk_fsyncs := f\<rparr>)"
    using maybe_flush_open [of s1] ok1 by (auto simp: store_ok_def)
  have "s' = s1\<lparr>pl_offsets := pl_offsets s1, pl_queue_depth := pl_queue_depth s1 - 1,
      pl_replica_lag := pl_replica_lag s1, pl_disk_fsyncs := f\<rparr>" "d' = d1"
    using app by (auto simp: append_write_def w flush)
  with durable_write_record_set [OF ok fits a dur w] durable_at_meta show ?thesis by blast
qed

lemma durable_appended:
  assumes "store_ok dma s0 d nxt" "write_fits s0 nxt records" "20 \<le> dma" "durable_at dma s0 d nxt fs rs"
    and "append_write dma (response, Some (record_set_of nxt records), s0) d = (Inr response, s', d')"
    and "log_ok dma s' d'" "pl_latest s' = nxt + estimate_record_count records" "pl_earliest s' = 0"
  shows "durable dma s' d'"
proof -
  obtain fs' rs' where "durable_at dma s' d' (pl_latest s') fs' rs'" "rs' \<noteq> []"
    using append_write_durable [OF assms(1-5)] assms(7) by auto
  then show ?thesis
    unfolding durable_def using assms(3,6,8) by (intro conjI exI [of _ fs'] exI [of _ rs']) simp_all
qed

lemma append_log_durable:
  assumes dur: "durable dma s d" and fits: "write_fits s (pl_latest s) records"
    and acc: "append_accepts s records acks" and app: "append_log dma records acks (s, d) = (r, s', d')"
  shows "durable dma s' d'"
proof -
  from dur obtain fs rs where ok: "log_ok dma s d" and a: "20 \<le> dma" and e: "pl_earliest s = 0"
    and at: "durable_at dma s d (pl_latest s) fs rs" by (auto simp: durable_def)
  obtain response s0 where adm: "append_admit s records acks = (response, Some (record_set_of (pl_latest s) records), s0)"
    and s0: "s0 = s\<lparr>pl_offsets := pl_offsets s0, pl_queue_depth := pl_queue_depth s0,
        pl_replica_lag := pl_replica_lag s, pl_disk_fsyncs := pl_disk_fsyncs s\<rparr>" "pl_earliest s0 = pl_earliest s"
    using acc by (auto simp: append_admit_def append_accepts_def Let_def)
  have ok0: "store_ok dma s0 d (pl_latest s)"
    using store_ok_meta [OF _ s0(2,1)] ok by (simp add: log_ok_def)
  have "pl_write_position s0 = pl_write_position s" by (subst s0(1)) simp
  with fits have fits0: "write_fits s0 (pl_latest s) records" by (simp add: write_fits_def)
  obtain s1 d1 where w: "append_write dma (response, Some (record_set_of (pl_latest s) records), s0) d = (Inr response, s1, d1)"
    using append_write_ok [OF ok0 fits0] by blast
  then have "s1 = s'" "d1 = d'" using app by (simp_all add: append_log_def adm)
  moreover have "log_ok dma s' d' \<and> pl_latest s' = pl_latest s + estimate_record_count records \<and> pl_earliest s' = 0"
    using append_log_ok [OF ok fits acc] app e by auto
  ultimately show ?thesis
    using durable_appended [OF ok0 fits0 a durable_at_meta [OF at s0(1)] w] by blast
qed

lemma append_replica_durable:
  assumes dur: "durable dma s d" and fits: "write_fits s (pl_latest s) (rar_records request)"
    and acc: "append_replica_accepts s request" and app: "append_replica dma request (s, d) = (r, s', d')"
  shows "durable dma s' d'"
proof -
  let ?records = "rar_records request"
  from dur obtain fs rs where ok: "log_ok dma s d" and a: "20 \<le> dma" and e: "pl_earliest s = 0"
    and at: "durable_at dma s d (pl_latest s) fs rs" by (auto simp: durable_def)
  obtain response s0 where adm: "append_replica_admit s request =
        (response, Some (record_set_of (pl_latest s) ?records), s0)"
    and s0: "s0 = s\<lparr>pl_offsets := pl_offsets s0, pl_queue_depth := pl_queue_depth s0,
        pl_replica_lag := pl_replica_lag s0, pl_disk_fsyncs := pl_disk_fsyncs s\<rparr>" "pl_earliest s0 = pl_earliest s"
    using acc by (auto simp: append_replica_admit_def append_replica_accepts_def Let_def)
  have ok0: "store_ok dma s0 d (pl_latest s)"
    using store_ok_meta [OF _ s0(2,1)] ok by (simp add: log_ok_def)
  have "pl_write_position s0 = pl_write_position s" by (subst s0(1)) simp
  with fits have fits0: "write_fits s0 (pl_latest s) ?records" by (simp add: write_fits_def)
  obtain s1 d1 where w: "append_write dma (response, Some (record_set_of (pl_latest s) ?records), s0) d = (Inr response, s1, d1)"
    using append_write_ok [OF ok0 fits0] by blast
  then have "s1 = s'" "d1 = d'" using app by (simp_all add: append_replica_def adm)
  moreover have "log_ok dma s' d' \<and> pl_latest s' = pl_latest s + estimate_record_count ?records \<and> pl_earliest s' = 0"
    using append_replica_ok [OF ok fits acc] app e by auto
  ultimately show ?thesis
    using durable_appended [OF ok0 fits0 a durable_at_meta [OF at s0(1)] w] by blast
qed

end
