(* ===== verification/Log_Crash.thy ===== *)
theory Log_Crash
  imports Log_Durable Log_Properties
begin

text \<open>
  Starting a partition log on the files that a stopped or a crashed process left: every complete
  record set is there again, a torn one is not, and after a clean stop the log is the one it was.
\<close>

section \<open>Start on an image\<close>

lemma log_cong:
  assumes "pl_config s' = pl_config s" "pl_alignment s' = pl_alignment s" "pl_index_entries s' = pl_index_entries s"
    and "\<forall>e\<in>set (pl_index_entries s). map_of d' (segment_path s (ie_segment_base e)) = map_of d (segment_path s (ie_segment_base e))"
  shows "index_ok s' d' = index_ok s d" "log_contents s' d' = log_contents s d"
proof -
  have "segment_path s' = segment_path s" using assms(1) by (simp add: fun_eq_iff segment_path_def)
  then have "\<forall>e\<in>set (pl_index_entries s). entry_file s' d' e = entry_file s d e \<and>
      (map_of d' (segment_path s' (ie_segment_base e)) = map_of d (segment_path s (ie_segment_base e)))"
    using assms(4) by (simp add: entry_file_def file_contents_def)
  then have "\<forall>e\<in>set (pl_index_entries s). entry_stored s' d' e = entry_stored s d e \<and> entry_payload s' d' e = entry_payload s d e"
    using assms(2) by (simp add: entry_stored_def entry_payload_def)
  then show "index_ok s' d' = index_ok s d" "log_contents s' d' = log_contents s d"
    using assms(2,3) by (auto simp: index_ok_def log_contents_def list_all_iff)
qed

text \<open>The last two steps of \<^verbatim>\<open>start\<close>.\<close>

lemma open_files:
  assumes "open_index dma (open_active_segment dma (s, d)) = (s', d')"
  shows "s' = (update_dma_alignment dma s)\<lparr>pl_file_open := True, pl_index_open := True\<rparr>"
    and "d' = create_file (index_path s) (create_file (segment_path s (pl_active_base s)) d)"
  using assms by (auto simp: open_index_def open_active_segment_def update_dma_alignment_def index_path_def)

abbreviation boot :: "PartitionConfig \<Rightarrow> nat \<Rightarrow> PartitionLog \<Rightarrow> PartitionLog" where
  "boot config n s \<equiv> s\<lparr>pl_config := config, pl_segment_bytes := n, pl_index_entries := [], pl_index_write_error := False\<rparr>"

text \<open>Recovery never lists a file twice.\<close>

abbreviation disk_of :: "'x \<times> nat \<times> PartitionLog \<times> disk \<Rightarrow> disk" where
  "disk_of r \<equiv> snd (snd (snd r))"

lemma segment_scan_distinct:
  "distinct (map fst (snd (snd r))) \<Longrightarrow> distinct (map fst (disk_of (segment_scan b f p r)))"
proof (induction b f p r rule: segment_scan.induct)
  case (1 b f p rebuilt s d)
  show ?case
    by (subst segment_scan.simps)
      (use 1 in \<open>simp add: Let_def note_recovered_frame_def write_rebuilt_index_entry_def distinct_names\<close>)
qed

lemma recover_segment_files_distinct:
  "distinct (map fst (snd (snd r))) \<Longrightarrow> distinct (map fst (disk_of (recover_segment_files dma files r)))"
proof (induction files arbitrary: r)
  case (Cons x files)
  obtain b name rebuilt s d where [simp]: "x = (b, name)" "r = (rebuilt, s, d)" by (cases x; cases r)
  obtain e r1 where scan: "recover_segment_file dma x r = (e, r1)"
    by (cases "recover_segment_file dma x r")
  with Cons.prems segment_scan_distinct [of "(rebuilt, update_dma_alignment dma s, d)" b "file_contents d name" 0]
  have "distinct (map fst (snd (snd r1)))" by (simp add: recover_segment_file_def)
  with Cons.IH [of r1] scan show ?case by (cases e) simp_all
qed simp

lemma recover_distinct:
  assumes "distinct (map fst d)" "recover dma (s, d) = (r, s', d')"
  shows "distinct (map fst d')"
proof -
  have "distinct (map fst d')" if "recover_from_segments dma (s0, d) = (r, s', d')" for s0
  proof (cases "list_segment_files (s0, d)")
    case (Inl e)
    with that assms(1) show ?thesis by (simp add: recover_from_segments_def)
  next
    case (Inr files)
    have "distinct (map fst (truncate_file (index_path s0) d))"
      using assms(1) by (simp add: truncate_file_def distinct_update)
    with recover_segment_files_distinct [of "(0, s0, truncate_file (index_path s0) d)" dma files] that Inr show ?thesis
      by (auto simp: recover_from_segments_def split: prod.splits sum.splits)
  qed
  with assms show ?thesis
    by (auto simp: recover_def split: prod.splits sum.splits if_splits)
qed

lemma start_log_image:
  assumes disk: "on_disk dma config files d" and a: "20 \<le> dma"
    and to: "tiles 0 (concat (map snd (image_of files))) to"
    and left: "index_left (round_up kIndexEntryPayloadSize dma) (image_entries dma (image_of files))
                 (map_of d (index_path (boot config n s)))"
  shows "\<exists>s1 d1 s' d'. start_log dma config n (s, d) = (Inr (), s', d') \<and>
      restored dma (boot config n s) files d to (s1, d1) \<and>
      open_index dma (open_active_segment dma (s1, d1)) = (s', d') \<and>
      log_contents s' d' = concat (map snd (image_of files)) \<and> index_ok s' d' \<and>
      covers 0 (pl_index_entries s') to \<and> distinct (map fst d')"
proof -
  obtain s1 d1 where rec: "recover dma (boot config n s, d) = (Inr (), s1, d1)"
    and res: "restored dma (boot config n s) files d to (s1, d1)"
    using recover_image [of dma "boot config n s" files d to] disk a to left by auto
  obtain s' d' where op: "open_index dma (open_active_segment dma (s1, d1)) = (s', d')"
    by (cases "open_index dma (open_active_segment dma (s1, d1))")
  note s' = open_files(1) [OF op] and d' = open_files(2) [OF op]
  have c: "pl_config s' = config" "pl_alignment s' = dma" "pl_index_entries s' = image_entries dma (image_of files)"
    using res a by (simp_all add: s' restored_def Let_def update_dma_alignment_def)
  have ok: "index_ok s' d \<and> log_contents s' d = concat (map snd (image_of files)) \<and> covers 0 (pl_index_entries s') to"
    by (rule index_ok_image) (use disk c a to in auto)
  have "map_of d' (segment_path s' (ie_segment_base e)) = map_of d (segment_path s' (ie_segment_base e))"
    if "e \<in> set (pl_index_entries s')" for e
  proof -
    let ?p = "segment_path s' (ie_segment_base e)"
    have idx: "?p \<noteq> index_path (boot config n s)" "?p \<noteq> index_path s1"
      using segment_name_not_index [of "boot config n s"] segment_name_not_index [of s1] c(1) res
      by (auto simp: segment_path_def restored_def Let_def)
    have "map_of d ?p \<noteq> None"
      using ok that by (auto simp: index_ok_def list_all_iff entry_stored_def)
    moreover have "map_of d1 ?p = map_of d ?p" using res idx by (simp add: restored_def Let_def)
    ultimately show ?thesis using idx by (auto simp: d' map_of_create_file)
  qed
  then have "index_ok s' d' = index_ok s' d" "log_contents s' d' = log_contents s' d"
    using log_cong [of s' s' d' d] by simp_all
  moreover have "distinct (map fst d')"
    using recover_distinct [OF on_disk_distinct(2) [OF disk] rec] by (simp add: d' distinct_names)
  ultimately show ?thesis using rec res op ok by (auto simp: start_log_def)
qed

section \<open>A clean restart\<close>

lemma durable_index_left:
  assumes "durable_at dma s d nxt fs rs" "20 \<le> dma"
  shows "index_left (round_up kIndexEntryPayloadSize dma) (image_entries dma (image_of (log_files s fs rs)))
           (map_of d (index_path s))"
proof (cases "map_of d (index_path s)")
  case (Some f)
  let ?es = "image_entries dma (image_of (log_files s fs rs))"
  have "f = concat (map (encode_index_entry (round_up kIndexEntryPayloadSize dma)) (take (length ?es) ?es)) @ []"
    using assms(1) Some by (simp add: durable_at_def Let_def file_contents_def)
  moreover have "undecodable (round_up kIndexEntryPayloadSize dma) []"
    using assms(2) index_entry_size_44 [of dma] by simp
  ultimately show ?thesis using Some unfolding index_left_def by blast
qed (simp add: index_left_def)

lemma durable_resume:
  assumes "sealed fs" "rs \<noteq> [] \<or> fs = [] \<and> pl_active_base s = 0"
  shows "resume_point dma (image_of (log_files s fs rs)) = (pl_active_base s, length (segment_image dma rs))"
  unfolding log_files_image using assms
  by (auto simp: resume_point_def used_segments_def segment_image_def image_of_def)

text \<open>Files that keep their contents stay the image they were.\<close>

lemma on_disk_same:
  assumes disk: "on_disk a c files d" and d: "distinct (map fst d')"
    and same: "\<forall>m. m \<noteq> i \<longrightarrow> map_of d' m = map_of d m" and i: "segment_base_offset_from_name c i = Inr None"
    and seg: "\<forall>b. segment_name c b \<noteq> i"
  shows "on_disk a c files d'"
proof -
  have "fst ` set d' \<subseteq> fst ` set d \<union> {i}"
    using same by (metis (no_types, lifting) Un_iff domIff dom_map_of_conv_image_fst insertCI subsetI)
  then show ?thesis
    using on_disk_change [of a c files "[]" d "[]" d' "{i}"] disk d same i seg on_disk_distinct(1) [OF disk] by simp
qed

lemma reopened_durable:
  assumes ok: "log_ok dma s d" and a: "20 \<le> dma" and e: "pl_earliest s = 0"
    and at: "durable_at dma s d (pl_latest s) fs rs" and empty: "rs = [] \<longrightarrow> fs = [] \<and> pl_latest s = 0"
    and f: "pl_config s' = pl_config s" "pl_index_entries s' = pl_index_entries s" "pl_earliest s' = 0"
      "pl_latest s' = pl_latest s" "pl_high_watermark s' = pl_latest s" "\<not> pl_index_gate_closed s'"
      "pl_index_position s' = pl_index_position s" "pl_active_base s' = pl_active_base s"
      "pl_write_position s' = pl_write_position s" "pl_file_open s'" "pl_index_open s'" "dma_aligned dma s'"
    and fc: "\<forall>m. file_contents d' m = file_contents d m"
    and same: "\<forall>m. m \<noteq> index_path s \<longrightarrow> map_of d' m = map_of d m"
    and con: "distinct (map fst d')" "index_ok s' d'"
  shows "durable dma s' d'"
proof -
  have st: "store_ok dma s d (pl_latest s)" using ok by (simp add: log_ok_def)
  have path: "segment_path s' = segment_path s" "index_path s' = index_path s"
    using f(1) index_path_cong [of s' s] by (simp_all add: fun_eq_iff segment_path_def)
  have "\<forall>b. map_of d' (segment_path s b) = map_of d (segment_path s b)"
    using same segment_path_not_index [of s] by simp
  then have "store_ok dma s' d' (pl_latest s)"
    using st con(2) e fc by (simp add: store_ok_def f path)
  then have "log_ok dma s' d'" by (simp add: log_ok_def f)
  moreover have "on_disk dma (pl_config s) (log_files s fs rs) d'"
    by (rule on_disk_same [OF _ con(1) same index_path_not_segment])
      (use at segment_name_not_index [of s] in \<open>simp_all add: durable_at_def Let_def\<close>)
  moreover have "log_files s' fs rs = log_files s fs rs" by (simp add: log_files_def f)
  ultimately have "log_ok dma s' d' \<and> durable_at dma s' d' (pl_latest s') fs rs"
    using at fc by (simp add: durable_at_def Let_def f path)
  then show ?thesis unfolding durable_def using a empty f by auto
qed

lemma restart_durable:
  assumes dur: "durable dma s d"
  shows "\<exists>s' d'. start_log dma (pl_config s) n (new_log c, d) = (Inr (), s', d') \<and> durable dma s' d' \<and>
      log_contents s' d' = log_contents s d \<and> pl_latest s' = pl_latest s \<and> pl_high_watermark s' = pl_latest s \<and>
      (\<forall>m. file_contents d' m = file_contents d m)"
proof -
  from dur obtain fs rs where ok: "log_ok dma s d" and a: "20 \<le> dma" and e: "pl_earliest s = 0"
    and at: "durable_at dma s d (pl_latest s) fs rs" and empty: "rs = [] \<longrightarrow> fs = [] \<and> pl_latest s = 0"
    by (auto simp: durable_def)
  let ?files = "log_files s fs rs" and ?s = "boot (pl_config s) n (new_log c)"
  let ?es = "pl_index_entries s" and ?n = "round_up kIndexEntryPayloadSize dma"
  have st: "store_ok dma s d (pl_latest s)" using ok by (simp add: log_ok_def)
  have disk: "on_disk dma (pl_config s) ?files d" and to: "tiles 0 (concat (map snd (image_of ?files))) (pl_latest s)"
    and es: "?es = image_entries dma (image_of ?files)" and fs: "sealed fs" and i: "index_path ?s = index_path s"
    and act: "if rs = [] then pl_active_base s = pl_latest s else fst (hd rs) = pl_active_base s"
    and idx: "pl_index_position s = ?n * length ?es" "file_contents d (index_path s) = concat (map (encode_index_entry ?n) ?es)"
    using at by (simp_all add: durable_at_def Let_def index_path_def)
  obtain s1 d1 s' d' where start: "start_log dma (pl_config s) n (new_log c, d) = (Inr (), s', d')"
    and res: "restored dma ?s ?files d (pl_latest s) (s1, d1)"
    and op: "open_index dma (open_active_segment dma (s1, d1)) = (s', d')"
    and con: "log_contents s' d' = concat (map snd (image_of ?files))" "index_ok s' d'" "distinct (map fst d')"
    using start_log_image [OF disk a to, of n "new_log c"] durable_index_left [OF at a] i by metis
  have pos: "(pl_active_base s1, pl_write_position s1) = (pl_active_base s, pl_write_position s)"
    using res durable_resume [OF fs, of rs s dma] durable_active(2) [OF st at] empty act
    by (auto simp: restored_def Let_def)
  have s1: "pl_config s1 = pl_config s" "pl_index_entries s1 = ?es" "pl_earliest s1 = 0" "pl_latest s1 = pl_latest s"
    "pl_high_watermark s1 = pl_latest s" "\<not> pl_index_gate_closed s1" "pl_index_position s1 = pl_index_position s"
    and d1: "\<forall>m. m \<noteq> index_path s \<longrightarrow> map_of d1 m = map_of d m" "file_contents d1 (index_path s) = file_contents d (index_path s)"
    using res i idx es by (auto simp: restored_def Let_def new_log_def)
  have seg: "segment_path s1 (pl_active_base s1) = active_path s" "index_path s1 = index_path s"
    using pos s1(1) index_path_cong [of s1 s] by (simp_all add: segment_path_def)
  have "map_of d1 (active_path s) \<noteq> None"
    using st d1(1) segment_path_not_index [of s] by (simp add: store_ok_def)
  then have "create_file (active_path s) d1 = d1" by (auto simp: create_file_def)
  then have d': "d' = create_file (index_path s) d1" unfolding open_files(2) [OF op] seg by simp
  have same: "\<forall>m. m \<noteq> index_path s \<longrightarrow> map_of d' m = map_of d m"
    using d1(1) by (simp add: d' map_of_create_file)
  have fc: "\<forall>m. file_contents d' m = file_contents d m"
    using d1 file_contents_cong [of d1 _ d] by (metis d' file_contents_create_file)
  have "durable dma s' d'"
    by (rule reopened_durable [OF ok a e at empty _ _ _ _ _ _ _ _ _ _ _ _ fc same con(3,2)])
      (use s1 pos in \<open>simp_all add: open_files(1) [OF op] dma_aligned_def update_dma_alignment_def\<close>)
  moreover have "log_contents s d = concat (map snd (image_of ?files))"
    using index_ok_image [OF disk _ _ to es] st a by (simp add: store_ok_def dma_aligned_def)
  moreover have "pl_latest s' = pl_latest s" "pl_high_watermark s' = pl_latest s"
    using s1 by (simp_all add: open_files(1) [OF op] update_dma_alignment_def)
  ultimately show ?thesis using start con(1) fc by auto
qed

section \<open>A crash during an append\<close>

text \<open>
  The disk of a process that stopped during the write of a record set: \<open>k\<close> bytes of the frame have
  reached the segment file and, once the frame is complete, \<open>j\<close> bytes of the entry the index file.
\<close>

definition crash_disk :: "PartitionLog \<Rightarrow> int \<Rightarrow> bytes \<Rightarrow> nat \<Rightarrow> nat \<Rightarrow> disk \<Rightarrow> disk" where
  "crash_disk s nxt records k j d =
     (let frame = next_frame s nxt records;
          d1 = write_file (active_path s) (pl_write_position s) (take k frame) d
      in if k < length frame then d1
         else write_file (index_path s) (pl_index_position s)
                (take j (encode_index_entry (pl_index_entry_size s) (next_entry s nxt records))) d1)"

lemma crash_disk_contents:
  assumes "store_ok dma s d nxt" "durable_at dma s d nxt fs rs"
  shows "map_of (crash_disk s nxt records k j d) (active_path s) =
      Some (segment_image dma rs @ take k (next_frame s nxt records))"
    and "m \<noteq> active_path s \<and> m \<noteq> index_path s \<longrightarrow> map_of (crash_disk s nxt records k j d) m = map_of d m"
  using durable_active [OF assms] segment_path_not_index [of s "pl_active_base s"]
  by (simp_all add: crash_disk_def Let_def map_of_write_file dma_write_end)

lemma crash_disk_index:
  assumes ok: "store_ok dma s d nxt" and dur: "durable_at dma s d nxt fs rs" and a: "20 \<le> dma"
    and es: "es = pl_index_entries s @ (if k < length (next_frame s nxt records) then [] else [next_entry s nxt records])"
  shows "index_left (round_up kIndexEntryPayloadSize dma) es (map_of (crash_disk s nxt records k j d) (index_path s))"
proof -
  let ?n = "round_up kIndexEntryPayloadSize dma" and ?c = "crash_disk s nxt records k j d"
  have n: "44 \<le> ?n" "pl_index_entry_size s = ?n"
    using a ok index_entry_size_44 [of dma] by (simp_all add: store_ok_def dma_aligned_def)
  have old: "file_contents d (index_path s) = concat (map (encode_index_entry ?n) (pl_index_entries s))"
    "pl_index_position s = ?n * length (pl_index_entries s)"
    using dur by (simp_all add: durable_at_def Let_def)
  then have len: "length (file_contents d (index_path s)) = pl_index_position s"
    using n(1) by (simp add: length_concat comp_def length_encode_index_entry sum_list_triv)
  have neq: "index_path s \<noteq> active_path s" using segment_path_not_index [of s "pl_active_base s"] by simp
  show ?thesis
  proof (cases "k < length (next_frame s nxt records)")
    case True
    with neq have "map_of ?c (index_path s) = map_of d (index_path s)"
      by (simp add: crash_disk_def Let_def map_of_write_file)
    with durable_index_left [OF dur a] dur True es show ?thesis by (simp add: durable_at_def Let_def)
  next
    case False
    let ?e = "next_entry s nxt records"
    have c: "map_of ?c (index_path s) =
        Some (concat (map (encode_index_entry ?n) (pl_index_entries s)) @ take j (encode_index_entry ?n ?e))"
      using False neq old(1) n(2) len by (simp add: crash_disk_def Let_def map_of_write_file file_contents_write_file dma_write_end)
    show ?thesis
    proof (cases "j < ?n")
      case True
      then have "undecodable ?n (take j (encode_index_entry ?n ?e))"
        using n(1) by (simp add: undecodable_def length_encode_index_entry)
      then show ?thesis using False es
        unfolding index_left_def c by (intro disjI2 exI [of _ "length (pl_index_entries s)"] exI) simp
    next
      case full: False
      have "take j (encode_index_entry ?n ?e) = encode_index_entry ?n ?e"
        using full n(1) by (simp add: length_encode_index_entry)
      then show ?thesis using False es n(1)
        unfolding index_left_def c by (intro disjI2 exI [of _ "length es"] exI [of _ "[]"]) simp
    qed
  qed
qed

lemma crash_disk_image:
  assumes ok: "store_ok dma s d nxt" and dur: "durable_at dma s d nxt fs rs" and a: "20 \<le> dma"
    and fits: "write_fits s nxt records" and f: "frame = next_frame s nxt records"
    and r: "(rs', tail) = (if k < length frame then (rs, take k frame) else (rs @ [(nxt, records)], []))"
  shows "on_disk dma (pl_config s) (fs @ [(pl_active_base s, rs', tail)]) (crash_disk s nxt records k j d)"
proof (rule on_disk_extended [OF _ _ _ index_path_not_segment])
  let ?x = "(nxt, records)"
  show disk: "on_disk dma (pl_config s) (fs @ [(pl_active_base s, rs, [])]) d"
    using dur by (simp add: durable_at_def Let_def log_files_def)
  show "distinct (map fst (crash_disk s nxt records k j d))"
    using on_disk_distinct(2) [OF disk] by (simp add: crash_disk_def Let_def distinct_names)
  show "\<forall>m. m \<noteq> segment_name (pl_config s) (pl_active_base s) \<and> m \<noteq> index_path s \<longrightarrow>
      map_of (crash_disk s nxt records k j d) m = map_of d m"
    using crash_disk_contents(2) [OF ok dur] by (simp add: segment_path_def)
  have frame: "frame = frame_of dma ?x"
    using ok a next_frame_frame_of [of s dma] by (simp add: f store_ok_def dma_aligned_def)
  have old: "file_on_disk dma (pl_config s) d (pl_active_base s, rs, [])" using on_disk_all [OF disk] by simp
  have rec: "record_ok ?x" using fits by (simp add: record_ok_def write_fits_def)
  have ent: "index_entry_ok (entry_of (pl_active_base s) (length (segment_image dma rs)) ?x)"
    using next_entry_ok [OF ok fits] durable_active(2) [OF ok dur] by (simp add: next_entry_def entry_of_def)
  have con: "map_of (crash_disk s nxt records k j d) (segment_name (pl_config s) (pl_active_base s)) =
      Some (segment_image dma rs @ take k frame)"
    using crash_disk_contents(1) [OF ok dur] by (simp add: segment_path_def f)
  show "file_on_disk dma (pl_config s) (crash_disk s nxt records k j d) (pl_active_base s, rs', tail)"
  proof (cases "k < length frame")
    case True
    then show ?thesis using r con old torn_prefix [OF a rec] by (simp add: file_on_disk_def frame)
  next
    case False
    then show ?thesis using r con old rec ent a
      by (simp add: file_on_disk_def frame segment_entries_append) (simp add: segment_image_def)
  qed
qed (use segment_name_not_index [of s] in simp)

lemma crash_recovers:
  assumes ok: "store_ok dma s d nxt" and dur: "durable_at dma s d nxt fs rs" and a: "20 \<le> dma"
    and fits: "write_fits s nxt records"
  shows "\<exists>s' d'. start_log dma (pl_config s) n (new_log c, crash_disk s nxt records k j d) = (Inr (), s', d') \<and>
      log_contents s' d' = log_contents s d @ (if k < length (next_frame s nxt records) then [] else [(nxt, records)]) \<and>
      pl_latest s' = nxt + (if k < length (next_frame s nxt records) then 0 else estimate_record_count records)"
proof -
  let ?f = "next_frame s nxt records" and ?x = "(nxt, records)" and ?b = "pl_active_base s"
  obtain rs' tail where r: "(rs', tail) = (if k < length ?f then (rs, take k ?f) else (rs @ [?x], []))"
    by (metis (full_types))
  let ?files = "fs @ [(?b, rs', tail)]"
  define to where "to = nxt + (if k < length ?f then 0 else estimate_record_count records)"
  note disk = crash_disk_image [OF ok dur a fits refl r, of j]
  have dat: "tiles 0 (concat (map snd (image_of fs)) @ rs) nxt"
    "pl_index_entries s = image_entries dma (image_of fs) @ segment_entries dma ?b 0 rs"
    "on_disk dma (pl_config s) (log_files s fs rs) d"
    using dur by (simp_all add: durable_at_def Let_def log_files_image image_entries_snoc)
  have img: "image_of ?files = image_of fs @ [(?b, rs')]" by (simp add: image_of_def)
  have recs: "concat (map snd (image_of ?files)) =
      concat (map snd (image_of fs)) @ rs @ (if k < length ?f then [] else [?x])"
    unfolding img using r by (simp split: if_splits)
  have to: "tiles 0 (concat (map snd (image_of ?files))) to"
    unfolding recs to_def using dat(1) by (auto simp: tiles_append)
  have ent: "next_entry s nxt records = entry_of ?b (length (segment_image dma rs)) ?x"
    using durable_active(2) [OF ok dur] by (simp add: next_entry_def entry_of_def)
  have es: "image_entries dma (image_of ?files) =
      pl_index_entries s @ (if k < length ?f then [] else [next_entry s nxt records])"
    unfolding img image_entries_snoc using r by (simp add: dat(2) segment_entries_append ent split: if_splits)
  have i: "index_path (boot (pl_config s) n (new_log c)) = index_path s" by (simp add: index_path_def)
  have "log_contents s d = concat (map snd (image_of fs)) @ rs"
    using index_ok_image [OF dat(3), of nxt] dur ok a by (simp add: durable_at_def Let_def store_ok_def dma_aligned_def log_files_image)
  moreover have "index_left (round_up kIndexEntryPayloadSize dma) (image_entries dma (image_of ?files))
      (map_of (crash_disk s nxt records k j d) (index_path (boot (pl_config s) n (new_log c))))"
    unfolding i by (rule crash_disk_index [OF ok dur a es])
  from start_log_image [OF disk a to this] obtain s1 d1 s' d'
    where start: "start_log dma (pl_config s) n (new_log c, crash_disk s nxt records k j d) = (Inr (), s', d')"
      and res: "restored dma (boot (pl_config s) n (new_log c)) ?files (crash_disk s nxt records k j d) to (s1, d1)"
      and op: "open_index dma (open_active_segment dma (s1, d1)) = (s', d')"
      and con: "log_contents s' d' = concat (map snd (image_of ?files))" by blast
  moreover have "pl_latest s' = to"
    using res open_files(1) [OF op] by (simp add: restored_def Let_def update_dma_alignment_def)
  ultimately show ?thesis by (simp add: recs to_def)
qed

section \<open>Properties\<close>

lemma empty_durable:
  assumes a: "20 \<le> dma" and s: "pl_config s = config" "pl_index_entries s = []" "pl_earliest s = 0" "pl_latest s = 0"
      "pl_high_watermark s = 0" "pl_active_base s = 0" "pl_write_position s = 0" "pl_index_position s = 0"
      "pl_file_open s" "pl_index_open s" "\<not> pl_index_gate_closed s" "dma_aligned dma s"
    and d: "d = [(index_path s, []), (segment_path s 0, [])]"
  shows "durable dma s d"
proof -
  have ne: "segment_path s b \<noteq> index_path s" for b by (rule segment_path_not_index)
  have seg: "\<forall>b>0. segment_path s b \<noteq> segment_path s 0" using segment_path_inject [of _ 0 s] by force
  have mp: "map_of d (segment_path s 0) = Some []" "map_of d (index_path s) = Some []"
    "\<forall>b>0. map_of d (segment_path s b) = None"
    using ne [of 0] ne seg by (simp_all add: d)
  have "log_ok dma s d"
    using a s mp by (simp add: log_ok_def store_ok_def index_ok_def file_contents_def dma_aligned_def)
  moreover have "on_disk dma config [(0, [], [])] d"
    unfolding on_disk_def using mp(1) ne [of 0] index_path_not_segment [of s] a s(1)
    by (auto simp: file_on_disk_def segment_image_def segment_path_def i64_def d)
  then have "durable_at dma s d (pl_latest s) [] []"
    using s mp(2) by (simp add: durable_at_def Let_def log_files_def sealed_def image_of_def image_entries_def file_contents_def)
  ultimately show ?thesis using a s unfolding durable_def by blast
qed

lemma start_log_empty:
  assumes "20 \<le> dma"
  shows "\<exists>s d. start_log dma config n (new_log c, []) = (Inr (), s, d) \<and> durable dma s d \<and>
      log_contents s d = [] \<and> pl_latest s = 0 \<and> pl_config s = config \<and>
      pl_write_position s = 0 \<and> pl_queue_depth s = 0 \<and> pl_file_open s"
proof -
  let ?s = "(update_dma_alignment dma (clear_recovered (boot config n (new_log c))))\<lparr>pl_file_open := True, pl_index_open := True\<rparr>"
  let ?d = "[(index_path ?s, []), (segment_path ?s 0, [])]"
  have path: "index_path (boot config n (new_log c)) = index_path ?s" "segment_path (clear_recovered (boot config n (new_log c))) 0 = segment_path ?s 0"
    by (simp_all add: index_path_def segment_path_def)
  have "recover dma (boot config n (new_log c), []) = (Inr (), clear_recovered (boot config n (new_log c)), [(index_path ?s, [])])"
    by (simp add: recover_def recover_from_index_def recover_from_segments_def list_segment_files_def truncate_file_def path)
  then have "start_log dma config n (new_log c, []) = (Inr (), ?s, ?d)"
    using segment_path_not_index [of ?s 0]
    by (simp add: start_log_def open_index_def open_active_segment_def create_file_def path)
      (simp add: update_dma_alignment_def index_path_def)
  moreover have "durable dma ?s ?d"
    by (rule empty_durable [OF assms]) (simp_all add: new_log_def clear_recovered_def update_dma_alignment_def dma_aligned_def)
  moreover have "pl_queue_depth ?s = 0"
    by (simp add: new_log_def clear_recovered_def update_dma_alignment_def)
  ultimately show ?thesis by (simp add: log_contents_def)
qed

interpretation durable_leader: append_only_log
  "\<lambda>(s, d). durable dma s d" "\<lambda>(s, d). log_contents s d" "\<lambda>(s, d). pl_latest s"
  "\<lambda>r (s, d). write_fits s (pl_latest s) (fst r)" "\<lambda>r (s, d). append_accepts s (fst r) (snd r)"
  "leader_step dma" fst
  for dma
proof unfold_locales
  fix sd :: "PartitionLog \<times> disk" and r :: "bytes \<times> int"
  assume h: "case sd of (s, d) \<Rightarrow> durable dma s d" "case sd of (s, d) \<Rightarrow> write_fits s (pl_latest s) (fst r)"
    "case sd of (s, d) \<Rightarrow> append_accepts s (fst r) (snd r)"
  then show "case leader_step dma r sd of (s, d) \<Rightarrow> durable dma s d"
    using append_log_durable [of dma "fst sd" "snd sd" "fst r" "snd r"]
    by (cases sd; cases "append_log dma (fst r) (snd r) sd") (auto simp: leader_step_def)
  have "case sd of (s, d) \<Rightarrow> log_ok dma s d" using h(1) by (auto simp: durable_def)
  with h show "(case leader_step dma r sd of (s, d) \<Rightarrow> log_contents s d) =
        (case sd of (s, d) \<Rightarrow> log_contents s d) @ [(case sd of (s, d) \<Rightarrow> pl_latest s, fst r)]"
    and "(case leader_step dma r sd of (s, d) \<Rightarrow> pl_latest s) =
        (case sd of (s, d) \<Rightarrow> pl_latest s) + estimate_record_count (fst r)"
    using leader.step_contents leader.step_next by blast+
next
  fix sd :: "PartitionLog \<times> disk" and r :: "bytes \<times> int"
  assume "\<not> (case sd of (s, d) \<Rightarrow> append_accepts s (fst r) (snd r))"
  then show "leader_step dma r sd = sd" by (rule leader.step_rejected)
qed

text \<open>
  C1: a broker that starts on an empty data directory, takes any sequence of appends and is started
  again on the files it left has every accepted record set, in order, on the same offsets; the
  files of the restarted log are again in the shape that appends and recovery rely on.
\<close>

theorem appends_survive_restart:
  assumes "20 \<le> dma" "start_log dma config n (new_log c, []) = (Inr (), s, d)" "leader.all_fit dma rs (s, d)"
  shows "\<exists>s1 d1 s' d'. fold (leader_step dma) rs (s, d) = (s1, d1) \<and>
      start_log dma (pl_config s1) n (new_log c', d1) = (Inr (), s', d') \<and> durable dma s' d' \<and>
      map snd (log_contents s' d') = leader.accepted dma rs (s, d) \<and>
      tiles 0 (log_contents s' d') (pl_latest s') \<and> pl_latest s' = pl_latest s1 \<and>
      log_contents s' d' = log_contents s1 d1 \<and> (\<forall>m. file_contents d' m = file_contents d1 m)"
proof -
  have dur: "durable dma s d" and e: "log_contents s d = []" "pl_latest s = 0"
    using start_log_empty [OF assms(1), of config n c] assms(2) by auto
  obtain s1 d1 where run: "fold (leader_step dma) rs (s, d) = (s1, d1)" by (cases "fold (leader_step dma) rs (s, d)")
  then have "durable dma s1 d1" "map snd (log_contents s1 d1) = leader.accepted dma rs (s, d)"
    "tiles 0 (log_contents s1 d1) (pl_latest s1)"
    using durable_leader.run_inv [of dma "(s, d)" rs] durable_leader.run_contents [of dma "(s, d)" rs] dur e assms(3) by auto
  with restart_durable [of dma s1 d1 n c'] run show ?thesis by auto
qed

lemma sample_start:
  "\<exists>s d. start_log 4096 sample_partition 1048576 (new_log sample_partition, []) = (Inr (), s, d) \<and>
      durable 4096 s d \<and> log_contents s d = [] \<and> pl_latest s = 0 \<and> pl_config s = sample_partition \<and> pl_file_open s \<and>
      write_fits s 0 (sample_batch 0) \<and> append_accepts s (sample_batch 0) 1 \<and> pl_write_position s = 0"
proof -
  obtain s d where "start_log 4096 sample_partition 1048576 (new_log sample_partition, []) = (Inr (), s, d)"
    "durable 4096 s d" "log_contents s d = []" "pl_latest s = 0" "pl_config s = sample_partition"
    "pl_write_position s = 0" "pl_queue_depth s = 0" "pl_file_open s"
    using start_log_empty [of 4096 sample_partition 1048576 sample_partition] by auto
  moreover have "write_fits s 0 (sample_batch 0)"
    using calculation(6) by (simp add: write_fits_def sample_batch_estimate i64_def sample_batch_nonempty)
  moreover have "append_accepts s (sample_batch 0) 1"
    using calculation(5,7) by (simp add: append_accepts_def sample_partition_def)
  ultimately show ?thesis by blast
qed

theorem appends_survive_restart_witness:
  "\<exists>s d s1 d1 s' d'. start_log 4096 sample_partition 1048576 (new_log sample_partition, []) = (Inr (), s, d) \<and>
      fold (leader_step 4096) [(sample_batch 0, 1)] (s, d) = (s1, d1) \<and>
      start_log 4096 (pl_config s1) 1048576 (new_log sample_partition, d1) = (Inr (), s', d') \<and>
      map snd (log_contents s' d') = [sample_batch 0]"
proof -
  obtain s d where s: "start_log 4096 sample_partition 1048576 (new_log sample_partition, []) = (Inr (), s, d)"
    "pl_latest s = 0" "write_fits s 0 (sample_batch 0)" "append_accepts s (sample_batch 0) 1"
    using sample_start by blast
  then show ?thesis
    using appends_survive_restart [OF _ s(1), of "[(sample_batch 0, 1)]" sample_partition] by auto
qed

text \<open>
  C2: an append that a crash interrupts is all or nothing. Whatever part of the frame and, behind
  the complete frame, of the index entry has reached the files: the restarted log has the record
  sets from before, and the new one exactly when its frame is complete.
\<close>

theorem append_crash_atomic:
  assumes "durable dma s d" "write_fits s (pl_latest s) records"
    and "ensure_segment_for_write dma (pl_latest s) (length (next_frame s (pl_latest s) records)) (s, d) = (s1, d1)"
  shows "\<exists>s' d'. start_log dma (pl_config s1) n (new_log c, crash_disk s1 (pl_latest s) records k j d1) = (Inr (), s', d') \<and>
      log_contents s' d' = log_contents s d @
        (if k < length (next_frame s (pl_latest s) records) then [] else [(pl_latest s, records)]) \<and>
      pl_latest s' = pl_latest s +
        (if k < length (next_frame s (pl_latest s) records) then 0 else estimate_record_count records)"
proof -
  from assms(1) obtain fs rs where ok: "store_ok dma s d (pl_latest s)" and a: "20 \<le> dma"
    and at: "durable_at dma s d (pl_latest s) fs rs" by (auto simp: durable_def log_ok_def)
  note ens = ensure_segment_ok [OF ok assms(3)]
  obtain fs1 rs1 where at1: "durable_at dma s1 d1 (pl_latest s) fs1 rs1"
    using durable_ensure_segment [OF ok _ a at assms(3)] assms(2) by (auto simp: write_fits_def)
  have "write_fits s1 (pl_latest s) records"
    by (rule write_fits_smaller [OF assms(2) ensure_segment_position [OF ok assms(3)]])
  moreover have "next_frame s1 (pl_latest s) records = next_frame s (pl_latest s) records"
    using ok ens by (simp add: store_ok_def dma_aligned_def)
  ultimately show ?thesis using crash_recovers [OF _ at1 a, of records n c k j] ens by simp
qed

theorem append_crash_atomic_witness:
  "\<exists>s d s' d' s'' d''. start_log 4096 sample_partition 1048576 (new_log sample_partition, []) = (Inr (), s, d) \<and>
      start_log 4096 sample_partition 1048576 (new_log sample_partition, crash_disk s 0 (sample_batch 0) 100 0 d) = (Inr (), s', d') \<and>
      log_contents s' d' = [] \<and>
      start_log 4096 sample_partition 1048576 (new_log sample_partition, crash_disk s 0 (sample_batch 0) 4096 7 d) = (Inr (), s'', d'') \<and>
      log_contents s'' d'' = [(0, sample_batch 0)]"
proof -
  obtain s d where s: "start_log 4096 sample_partition 1048576 (new_log sample_partition, []) = (Inr (), s, d)"
    "durable 4096 s d" "log_contents s d = []" "pl_latest s = 0" "pl_config s = sample_partition"
    "pl_write_position s = 0" "write_fits s 0 (sample_batch 0)" "pl_file_open s"
    using sample_start by blast
  have "pl_alignment s = 4096"
    using s(2) by (simp add: durable_def log_ok_def store_ok_def dma_aligned_def)
  then have "length (next_frame s 0 (sample_batch 0)) = 4096"
    by (simp add: length_log_frame record_set_of_def Let_def frame_size_of_def round_up_def)
  moreover have "ensure_segment_for_write 4096 0 (length (next_frame s 0 (sample_batch 0))) (s, d) = (s, d)"
    using s(6,8) by (simp add: ensure_segment_for_write_def)
  ultimately show ?thesis
    using append_crash_atomic [OF s(2), of "sample_batch 0" s d 1048576 sample_partition 100 0]
      append_crash_atomic [OF s(2), of "sample_batch 0" s d 1048576 sample_partition 4096 7] s by auto
qed

end
