(* ===== verification/Broker_Lifecycle.thy ===== *)
theory Broker_Lifecycle
  imports Broker_Properties Log_Crash
begin

text \<open>
  Start and reload of a broker shard: which logs the shard has afterwards, and that a reload
  leaves the logs that are already open alone but for their configuration.
\<close>

section \<open>Starting a log sets its configuration\<close>

lemma index_scan_config: "pl_config (snd (index_scan f position recovered s)) = pl_config s"
proof (induction f position recovered s rule: index_scan.induct)
  case (1 f position recovered s)
  then show ?case
    by (subst index_scan.simps) (auto simp: Let_def split: option.splits)
qed

lemma segment_scan_config: "pl_config (fst (snd (snd (segment_scan base f position r)))) = pl_config (fst (snd r))"
proof (induction base f position r rule: segment_scan.induct)
  case (1 base f position rebuilt s d)
  have note_config: "pl_config (fst (snd (note_recovered_frame base position b n records (rebuilt, s, d)))) = pl_config s" for b n records
    by (simp add: note_recovered_frame_def Let_def)
  show ?case
    by (subst segment_scan.simps) (use 1 in \<open>simp add: Let_def note_config\<close>)
qed

lemma update_dma_config: "pl_config (update_dma_alignment dma s) = pl_config s"
  by (simp add: update_dma_alignment_def)

lemma recover_segment_files_config: "pl_config (fst (snd (snd (recover_segment_files dma xs r)))) = pl_config (fst (snd r))"
proof (induction xs arbitrary: r)
  case (Cons x xs)
  obtain rebuilt s d where r: "r = (rebuilt, s, d)" by (cases r)
  obtain y r1 where y: "recover_segment_file dma x r = (y, r1)" by (cases "recover_segment_file dma x r")
  have "pl_config (fst (snd r1)) = pl_config s"
    using segment_scan_config [of "fst x" "file_contents d (snd x)" 0 "(rebuilt, update_dma_alignment dma s, d)"] y r
    by (cases x) (simp add: recover_segment_file_def update_dma_config)
  with Cons.IH [of r1] y r show ?case by (cases y) simp_all
qed simp

lemma recover_from_index_config: "pl_config (snd (recover_from_index dma (s, d))) = pl_config s"
proof (cases "map_of d (index_path s)")
  case (Some f)
  obtain y s1 where y: "index_scan f 0 False (update_dma_alignment dma s) = (y, s1)"
    by (cases "index_scan f 0 False (update_dma_alignment dma s)")
  have "pl_config s1 = pl_config s"
    using index_scan_config [of f 0 False "update_dma_alignment dma s"] y by (simp add: update_dma_config)
  with Some y show ?thesis
    by (cases y) (auto simp: recover_from_index_def resume_last_segment_def Let_def split: bool.splits)
qed (simp add: recover_from_index_def)

lemma recover_from_segments_config: "pl_config (fst (snd (recover_from_segments dma (s, d)))) = pl_config s"
proof (cases "list_segment_files (s, d)")
  case (Inr xs)
  obtain y rebuilt s1 d1 where y: "recover_segment_files dma xs (0, s, truncate_file (index_path s) d) = (y, rebuilt, s1, d1)"
    by (cases "recover_segment_files dma xs (0, s, truncate_file (index_path s) d)")
  have "pl_config s1 = pl_config s"
    using recover_segment_files_config [of dma xs "(0, s, truncate_file (index_path s) d)"] y by simp
  with Inr y show ?thesis
    by (cases y) (simp_all add: recover_from_segments_def resume_last_segment_def Let_def)
qed (simp add: recover_from_segments_def)

lemma recover_config: "pl_config (fst (snd (recover dma (s, d)))) = pl_config s"
proof -
  have c: "pl_config (clear_recovered s) = pl_config s" for s by (simp add: clear_recovered_def)
  obtain y s1 where y: "recover_from_index dma (clear_recovered s, d) = (y, s1)"
    by (cases "recover_from_index dma (clear_recovered s, d)")
  have s1: "pl_config s1 = pl_config s" using recover_from_index_config [of dma "clear_recovered s" d] y c by simp
  show ?thesis
  proof (cases y)
    case (Inr recovered)
    then show ?thesis
      using s1 y c recover_from_segments_config [of dma s1 d] recover_from_segments_config [of dma "clear_recovered s1" d]
      by (cases "recovered_index_covers_segments (s1, d)") (auto simp: recover_def)
  qed (use s1 y in \<open>simp add: recover_def\<close>)
qed

lemma start_log_config: "pl_config (fst (snd (start_log dma q n (s, d)))) = q"
proof -
  let ?s = "s\<lparr>pl_config := q, pl_segment_bytes := n, pl_index_entries := [], pl_index_write_error := False\<rparr>"
  obtain y s1 d1 where y: "recover dma (?s, d) = (y, s1, d1)" by (cases "recover dma (?s, d)")
  have "pl_config s1 = q" using recover_config [of dma ?s d] y by simp
  with y show ?thesis
    by (cases y) (simp_all add: start_log_def open_index_def open_active_segment_def update_dma_config Let_def split: prod.splits)
qed

section \<open>The logs of a shard after start and reload\<close>

lemma start_partition_spec:
  assumes ok: "table_ok (bs_table sh)" and st: "start_partition dma n q (starts, sh) = (starts', sh')"
  shows "table_ok (bs_table sh') \<and> bs_config sh' = bs_config sh \<and>
    (\<exists>log. pl_config log = q \<and> logs sh' = (logs sh)(partition_tp q \<mapsto> log))"
proof -
  let ?new = "new_log default_partition_config"
  obtain key t where e: "emplace_partition_log ?new (partition_tp q) (bs_table sh) = (key, t)"
    by (cases "emplace_partition_log ?new (partition_tp q) (bs_table sh)")
  have key: "key = partition_tp q" and t: "table_ok t"
    "table_log t = (if logs sh key = None then (logs sh)(key \<mapsto> ?new) else logs sh)"
    using partitions.emplace_result [OF ok, of ?new "partition_tp q"] partitions.emplace_inv [OF ok, of ?new "partition_tp q"]
      partitions.emplace_lookup [OF ok, of ?new "partition_tp q"] e by simp_all
  let ?sh = "sh\<lparr>bs_table := t\<rparr>"
  obtain r log d where s: "start_log dma q n (log_of ?sh key, bs_disk ?sh) = (r, log, d)"
    by (cases "start_log dma q n (log_of ?sh key, bs_disk ?sh)")
  have "sh' = (store_log key log ?sh)\<lparr>bs_disk := d\<rparr>" using st e s by (simp add: start_partition_def Let_def)
  moreover have "pl_config log = q" using start_log_config [of dma q n "log_of ?sh key" "bs_disk ?sh"] s by simp
  moreover have "table_ok (bs_table ?sh)" using t by simp
  note store_log_spec [OF this, of key log]
  ultimately show ?thesis using t(2) key by (auto simp: store_log_def split: if_splits)
qed

lemma reload_partition_spec:
  assumes ok: "table_ok (bs_table sh)" and st: "reload_partition dma n q (starts, sh) = (starts', sh')"
  shows "table_ok (bs_table sh') \<and> bs_config sh' = bs_config sh \<and>
    (\<exists>log. pl_config log = q \<and> logs sh' = (logs sh)(partition_tp q \<mapsto> log) \<and>
       (\<forall>old. logs sh (partition_tp q) = Some old \<longrightarrow> log = old\<lparr>pl_config := q\<rparr>))"
proof (cases "logs sh (partition_tp q)")
  case None
  obtain sh1 where f: "find_log (pc_topic q) (pc_partition q) sh = (None, sh1)" "logs sh1 = logs sh" "table_ok (bs_table sh1)"
    "sh1 = sh\<lparr>bs_table := bs_table sh1\<rparr>" by (rule find_log_None [OF ok None])
  have c: "bs_config sh1 = bs_config sh" by (subst f(4)) simp
  have "start_partition dma n q (starts, sh1) = (starts', sh')" using st f(1) by (simp add: reload_partition_def)
  from start_partition_spec [OF f(3) this] obtain log where "table_ok (bs_table sh')" "bs_config sh' = bs_config sh"
    "pl_config log = q" "logs sh' = (logs sh)(partition_tp q \<mapsto> log)" unfolding f(2) c by blast
  with None show ?thesis by (intro conjI exI [of _ log]) simp_all
next
  case (Some log)
  obtain sh1 where f: "find_log (pc_topic q) (pc_partition q) sh = (Some (partition_tp q), sh1)" "logs sh1 = logs sh"
    "table_ok (bs_table sh1)" "sh1 = sh\<lparr>bs_table := bs_table sh1\<rparr>" "log_of sh1 (partition_tp q) = log"
    by (rule find_log_Some [OF ok Some])
  have "bs_config sh1 = bs_config sh" by (subst f(4)) simp
  moreover have sh': "sh' = store_log (partition_tp q) (log\<lparr>pl_config := q\<rparr>) sh1"
    using st f(1,5) by (simp add: reload_partition_def update_config_def)
  moreover have "logs sh' = (logs sh)(partition_tp q \<mapsto> log\<lparr>pl_config := q\<rparr>)" "table_ok (bs_table sh')"
    unfolding sh' using store_log_spec [OF f(3), of "partition_tp q" "log\<lparr>pl_config := q\<rparr>"] f(2) Some by simp_all
  ultimately show ?thesis
    using Some by (intro conjI exI [of _ "log\<lparr>pl_config := q\<rparr>"]) (simp_all add: store_log_def)
qed

text \<open>Both walk over the partitions of the shard and enter a log for each.\<close>

lemma start_partitions:
  assumes "table_ok (bs_table sh)" "fold (start_partition dma n) qs (starts, sh) = (starts', sh')"
  shows "table_ok (bs_table sh') \<and> bs_config sh' = bs_config sh \<and> dom (logs sh') = dom (logs sh) \<union> partition_tp ` set qs \<and>
    (\<forall>key log. logs sh' key = Some log \<longrightarrow>
       logs sh key = Some log \<or> pl_config log \<in> set qs \<and> partition_tp (pl_config log) = key)"
  using assms
proof (induction qs arbitrary: starts sh)
  case (Cons q qs)
  obtain starts1 sh1 where st: "start_partition dma n q (starts, sh) = (starts1, sh1)" by (cases "start_partition dma n q (starts, sh)")
  with Cons.prems(2) have rest: "fold (start_partition dma n) qs (starts1, sh1) = (starts', sh')" by simp
  from start_partition_spec [OF Cons.prems(1) st] obtain log where s: "table_ok (bs_table sh1)" "bs_config sh1 = bs_config sh"
    "pl_config log = q" "logs sh1 = (logs sh)(partition_tp q \<mapsto> log)" by blast
  from Cons.IH [OF s(1) rest] s(2-4) show ?case by (auto split: if_splits)
qed simp

lemma reload_partitions:
  assumes "table_ok (bs_table sh)" "fold (reload_partition dma n) qs (starts, sh) = (starts', sh')"
  shows "table_ok (bs_table sh') \<and> bs_config sh' = bs_config sh \<and> dom (logs sh') = dom (logs sh) \<union> partition_tp ` set qs \<and>
    (\<forall>key log. logs sh' key = Some log \<longrightarrow>
       logs sh key = Some log \<or> pl_config log \<in> set qs \<and> partition_tp (pl_config log) = key) \<and>
    (\<forall>key old. logs sh key = Some old \<longrightarrow> (\<exists>q. logs sh' key = Some (old\<lparr>pl_config := q\<rparr>)))"
  using assms
proof (induction qs arbitrary: starts sh)
  case Nil
  have "\<exists>q. old = old\<lparr>pl_config := q\<rparr>" for old :: PartitionLog by (rule exI [of _ "pl_config old"]) simp
  with Nil show ?case by auto
next
  case (Cons q qs)
  obtain starts1 sh1 where st: "reload_partition dma n q (starts, sh) = (starts1, sh1)" by (cases "reload_partition dma n q (starts, sh)")
  with Cons.prems(2) have rest: "fold (reload_partition dma n) qs (starts1, sh1) = (starts', sh')" by simp
  from reload_partition_spec [OF Cons.prems(1) st] obtain log where s: "table_ok (bs_table sh1)" "bs_config sh1 = bs_config sh"
    "pl_config log = q" "logs sh1 = (logs sh)(partition_tp q \<mapsto> log)"
    "\<forall>old. logs sh (partition_tp q) = Some old \<longrightarrow> log = old\<lparr>pl_config := q\<rparr>" by blast
  note ih = Cons.IH [OF s(1) rest]
  have "\<exists>q'. logs sh' key = Some (old\<lparr>pl_config := q'\<rparr>)" if old: "logs sh key = Some old" for key old
  proof (cases "key = partition_tp q")
    case True
    then have "logs sh1 key = Some (old\<lparr>pl_config := q\<rparr>)" using s(4,5) old by simp
    with ih obtain q' where "logs sh' key = Some ((old\<lparr>pl_config := q\<rparr>)\<lparr>pl_config := q'\<rparr>)" by blast
    then show ?thesis by auto
  next
    case False
    then have "logs sh1 key = Some old" using s(4) old by simp
    with ih show ?thesis by blast
  qed
  moreover have "bs_config sh' = bs_config sh \<and> dom (logs sh') = dom (logs sh) \<union> partition_tp ` set (q # qs)"
    using ih s(2,4) by auto
  moreover have "logs sh key = Some l \<or> pl_config l \<in> set (q # qs) \<and> partition_tp (pl_config l) = key"
    if l: "logs sh' key = Some l" for key l
  proof -
    have "logs sh1 key = Some l \<or> pl_config l \<in> set qs \<and> partition_tp (pl_config l) = key" using ih l by blast
    then show ?thesis using s(3,4) by (auto split: if_splits)
  qed
  ultimately show ?case using ih by blast
qed

lemma start_broker_logs:
  assumes "start_broker dma mercury_start listen i config sh = (Inr (), sh')"
  shows "\<exists>starts sh1. fold (start_partition dma (bc_segment_bytes config)) (shard_partitions i config) ([], sh\<lparr>bs_config := config\<rparr>) =
      (starts, sh1) \<and> when_all_succeed starts = Inr () \<and> bs_table sh' = bs_table sh1 \<and> bs_config sh' = bs_config sh1 \<and>
      bs_disk sh' = bs_disk sh1 \<and> bs_listening sh' \<and> bs_mercury_running sh' \<and>
      (\<exists>broker. find_broker config (bc_node_id config) = Some broker \<and> mercury_start (be_mercury_address broker) = Inr () \<and>
         listen (be_kafka_host broker) (be_kafka_port broker) = Inr ())"
proof -
  obtain starts sh1 where f: "fold (start_partition dma (bc_segment_bytes config)) (shard_partitions i config) ([], sh\<lparr>bs_config := config\<rparr>) =
      (starts, sh1)" by (cases "fold (start_partition dma (bc_segment_bytes config)) (shard_partitions i config) ([], sh\<lparr>bs_config := config\<rparr>)")
  obtain broker where b: "find_broker config (bc_node_id config) = Some broker"
    using assms f by (cases "find_broker config (bc_node_id config)") (simp_all add: start_broker_def)
  have w: "when_all_succeed starts = Inr ()" "mercury_start (be_mercury_address broker) = Inr ()"
    using assms f b by (cases "when_all_succeed starts"; cases "mercury_start (be_mercury_address broker)"; simp add: start_broker_def)+
  have "listen (be_kafka_host broker) (be_kafka_port broker) = Inr ()"
    using assms f b w by (cases "listen (be_kafka_host broker) (be_kafka_port broker)") (simp_all add: start_broker_def)
  then show ?thesis
    using assms f b w by (auto simp: start_broker_def arm_maintenance_timer_def split: if_splits)
qed

lemma set_shard_partitions: "set (shard_partitions i config) = {q \<in> set (all_partitions config). pc_shard q = i}"
  by (auto simp: shard_partitions_def all_partitions_def)

lemma started_shard:
  assumes "start_broker dma mercury_start listen i config sh = (Inr (), sh')" "bs_table sh = empty_table"
  shows "shard_ok sh' \<and> bs_config sh' = config \<and> bs_listening sh' \<and> bs_mercury_running sh' \<and>
    dom (logs sh') = partition_tp ` set (shard_partitions i config) \<and>
    (\<forall>key log. logs sh' key = Some log \<longrightarrow> pl_config log \<in> set (shard_partitions i config)) \<and>
    (\<forall>q\<in>set (shard_partitions i config). fst (find_log (pc_topic q) (pc_partition q) sh') = Some (partition_tp q))"
proof -
  obtain starts sh1 where f: "fold (start_partition dma (bc_segment_bytes config)) (shard_partitions i config)
      ([], sh\<lparr>bs_config := config\<rparr>) = (starts, sh1)"
    and sh': "bs_table sh' = bs_table sh1" "bs_config sh' = bs_config sh1" "bs_listening sh'" "bs_mercury_running sh'"
    using start_broker_logs [OF assms(1)] by blast
  have e: "table_ok (bs_table (sh\<lparr>bs_config := config\<rparr>))" "logs (sh\<lparr>bs_config := config\<rparr>) = Map.empty"
    using assms(2) empty_table_ok by simp_all
  note l = start_partitions [OF e(1) f]
  have ok: "table_ok (bs_table sh')" and d: "dom (logs sh') = partition_tp ` set (shard_partitions i config)"
    and c: "\<forall>key log. logs sh' key = Some log \<longrightarrow> pl_config log \<in> set (shard_partitions i config) \<and> partition_tp (pl_config log) = key"
    using l e(2) sh'(1) by auto
  have "fst (find_log (pc_topic q) (pc_partition q) sh') = Some (partition_tp q)" if q: "q \<in> set (shard_partitions i config)" for q
  proof -
    have "partition_tp q \<in> dom (logs sh')" unfolding d using q by blast
    then obtain log where log: "logs sh' (partition_tp q) = Some log" by blast
    show ?thesis by (rule find_log_Some [OF ok log]) simp
  qed
  moreover have "bs_config sh' = config" using l sh'(2) by simp
  moreover have "shard_ok sh'" using ok c unfolding shard_ok_def by blast
  ultimately show ?thesis using d c sh'(3,4) by blast
qed

text \<open>
  C11: a shard that has started keeps exactly one log for every partition that the configuration
  places on it, each under its own key and with a configuration of that list, and a request for
  one of them finds it. Before it listens, every log has been recovered and the RPC layer runs.
\<close>

theorem start_opens_partitions:
  assumes "start_broker dma mercury_start listen i config sh = (Inr (), sh')" "bs_table sh = empty_table"
  shows "shard_ok sh' \<and> bs_config sh' = config \<and> bs_listening sh' \<and> bs_mercury_running sh' \<and>
    dom (logs sh') = partition_tp ` {q \<in> set (all_partitions config). pc_shard q = i} \<and>
    (\<forall>key log. logs sh' key = Some log \<longrightarrow> pl_config log \<in> {q \<in> set (all_partitions config). pc_shard q = i}) \<and>
    (\<forall>q\<in>{q \<in> set (all_partitions config). pc_shard q = i}. fst (find_log (pc_topic q) (pc_partition q) sh') = Some (partition_tp q))"
  using started_shard [OF assms] unfolding set_shard_partitions .

lemma reloaded_shard:
  assumes "apply_config dma i config sh = (Inr (), sh')" "shard_ok sh"
  shows "shard_ok sh' \<and> bs_config sh' = config \<and>
    dom (logs sh') = dom (logs sh) \<union> partition_tp ` set (shard_partitions i config) \<and>
    (\<forall>key log. logs sh key = Some log \<longrightarrow> (\<exists>q. logs sh' key = Some (log\<lparr>pl_config := q\<rparr>) \<and> partition_tp q = key))"
proof -
  obtain starts sh1 where f: "fold (reload_partition dma (bc_segment_bytes config)) (shard_partitions i config) ([], sh) = (starts, sh1)"
    by (cases "fold (reload_partition dma (bc_segment_bytes config)) (shard_partitions i config) ([], sh)")
  have sh': "sh' = sh1\<lparr>bs_config := config\<rparr>"
    using assms(1) by (cases "validate_reload (bs_config sh) config"; cases "when_all_succeed starts") (simp_all add: apply_config_def f)
  have ok: "table_ok (bs_table sh)" "\<forall>key log. logs sh key = Some log \<longrightarrow> partition_tp (pl_config log) = key"
    using assms(2) by (auto simp: shard_ok_def)
  note l = reload_partitions [OF ok(1) f]
  have keys: "partition_tp (pl_config log) = key" if "logs sh1 key = Some log" for key log using l ok(2) that by blast
  have "\<exists>q. logs sh1 key = Some (log\<lparr>pl_config := q\<rparr>) \<and> partition_tp q = key" if old: "logs sh key = Some log" for key log
  proof -
    obtain q where q: "logs sh1 key = Some (log\<lparr>pl_config := q\<rparr>)" using l old by blast
    with keys [OF q] show ?thesis by auto
  qed
  then show ?thesis using l keys by (simp add: sh' shard_ok_def)
qed


section \<open>Samples\<close>

definition empty_shard :: BrokerShard where
  "empty_shard = (one_log_shard sample_config sample_log [])\<lparr>bs_table := empty_table\<rparr>"

lemma empty_shard_fields: "bs_table empty_shard = empty_table" "bs_disk empty_shard = []" "bs_stopping empty_shard = False"
  by (simp_all add: empty_shard_def one_log_shard_def)

lemma sample_shard_partitions:
  "shard_partitions 0 sample_config = [sample_partition]" "bc_segment_bytes sample_config = 1073741824"
  "find_broker sample_config (bc_node_id sample_config) = Some sample_broker"
  by (simp_all add: shard_partitions_def sample_config_def sample_partition_def sample_broker_def find_broker_def)

lemma start_on_empty_disk:
  assumes "bs_table sh = empty_table" "bs_disk sh = []"
  shows "\<exists>sh'. start_broker 4096 (\<lambda>_. Inr ()) (\<lambda>_ _. Inr ()) 0 sample_config sh = (Inr (), sh')"
proof -
  let ?sh = "sh\<lparr>bs_config := sample_config\<rparr>" and ?new = "new_log default_partition_config"
  obtain key t where e: "emplace_partition_log ?new (partition_tp sample_partition) empty_table = (key, t)"
    by (cases "emplace_partition_log ?new (partition_tp sample_partition) empty_table")
  have key: "key = partition_tp sample_partition" "table_log t key = Some ?new"
    using partitions.emplace_result [OF empty_table_ok(1), of ?new "partition_tp sample_partition"]
      partitions.emplace_lookup [OF empty_table_ok(1), of ?new "partition_tp sample_partition"] e by (simp_all add: empty_table_ok)
  obtain s d where "start_log 4096 sample_partition 1073741824 (?new, []) = (Inr (), s, d)"
    using start_log_empty [of 4096 sample_partition 1073741824 default_partition_config] by auto
  then have "\<exists>sh1. start_partition 4096 1073741824 sample_partition ([], ?sh) = ([Inr ()], sh1)"
    using e key assms by (simp add: start_partition_def log_of_def)
  then show ?thesis by (auto simp: start_broker_def sample_shard_partitions when_all_succeed_def)
qed

theorem start_opens_partitions_witness:
  "\<exists>sh'. start_broker 4096 (\<lambda>_. Inr ()) (\<lambda>_ _. Inr ()) 0 sample_config empty_shard = (Inr (), sh') \<and>
     dom (logs sh') = {partition_tp sample_partition}"
proof -
  obtain sh' where run: "start_broker 4096 (\<lambda>_. Inr ()) (\<lambda>_ _. Inr ()) 0 sample_config empty_shard = (Inr (), sh')"
    using start_on_empty_disk empty_shard_fields by blast
  then show ?thesis
    using start_opens_partitions [OF run empty_shard_fields(1)] sample_shard_partitions(1)
    by (auto simp flip: set_shard_partitions)
qed


end
