(* ===== verification/Kafka_Codec.thy ===== *)
theory Kafka_Codec
  imports Wire_Format
begin

text \<open>
  The generated wire structs and codecs of \<^verbatim>\<open>include/mkmq/generated/kafka_codec.hpp\<close> and
  \<^verbatim>\<open>src/generated/kafka_codec.cpp\<close>: decoders for the four request types the broker reads,
  encoders for the five response types it writes. Each nested loop of a codec is a
  definition of its own. The \<open>_bytes\<close> functions give the layout of each message; the
  decoders and encoders interpret the contracts of \<open>Wire_Format\<close> on them.
\<close>

section \<open>Requests\<close>

record MetadataRequestTopic =
  mrt_name :: string

record MetadataRequest =
  mr_all_topics :: bool
  mr_topics :: "MetadataRequestTopic list"
  mr_allow_auto_topic_creation :: bool
  mr_include_cluster_authorized_operations :: bool
  mr_include_topic_authorized_operations :: bool

record ProduceRequestPartition =
  prp_partition_index :: int
  prp_records :: bytes

record ProduceRequestTopic =
  prt_name :: string
  prt_partitions :: "ProduceRequestPartition list"

record WireProduceRequest =
  pr_transactional_id :: "string option"
  pr_acks :: int
  pr_timeout_ms :: int
  pr_topics :: "ProduceRequestTopic list"

record FetchRequestPartition =
  frp_partition :: int
  frp_current_leader_epoch :: int
  frp_fetch_offset :: int
  frp_last_fetched_epoch :: int
  frp_log_start_offset :: int
  frp_partition_max_bytes :: int

record FetchRequestTopic =
  frt_topic :: string
  frt_partitions :: "FetchRequestPartition list"

record WireFetchRequest =
  fr_replica_id :: int
  fr_max_wait_ms :: int
  fr_min_bytes :: int
  fr_max_bytes :: int
  fr_isolation_level :: int
  fr_session_id :: int
  fr_session_epoch :: int
  fr_topics :: "FetchRequestTopic list"
  fr_rack_id :: string

record ListOffsetsRequestPartition =
  lrp_partition_index :: int
  lrp_current_leader_epoch :: int
  lrp_timestamp :: int

record ListOffsetsRequestTopic =
  lrt_name :: string
  lrt_partitions :: "ListOffsetsRequestPartition list"

record ListOffsetsRequest =
  lr_replica_id :: int
  lr_isolation_level :: int
  lr_topics :: "ListOffsetsRequestTopic list"

definition decode_metadata_request_topic :: "MetadataRequestTopic reads" where
  "decode_metadata_request_topic =
     rd_bind read_compact_string (\<lambda>name.
     rd_bind skip_tagged_fields (\<lambda>_.
     rd_return \<lparr>mrt_name = name\<rparr>))"

definition decode_metadata_request :: "MetadataRequest reads" where
  "decode_metadata_request =
     rd_bind (read_array_count True True) (\<lambda>topic_count.
     rd_bind (rd_count topic_count decode_metadata_request_topic) (\<lambda>topics.
     rd_bind read_bool (\<lambda>allow_auto_topic_creation.
     rd_bind read_bool (\<lambda>include_cluster.
     rd_bind read_bool (\<lambda>include_topic.
     rd_bind skip_tagged_fields (\<lambda>_.
     rd_return \<lparr>mr_all_topics = topic_count < 0, mr_topics = topics,
                mr_allow_auto_topic_creation = allow_auto_topic_creation,
                mr_include_cluster_authorized_operations = include_cluster,
                mr_include_topic_authorized_operations = include_topic\<rparr>))))))"

definition decode_produce_request_partition :: "ProduceRequestPartition reads" where
  "decode_produce_request_partition =
     rd_bind read_int32 (\<lambda>partition_index.
     rd_bind read_compact_nullable_bytes (\<lambda>records.
     rd_bind skip_tagged_fields (\<lambda>_.
     rd_return \<lparr>prp_partition_index = partition_index,
                prp_records = (case records of None \<Rightarrow> [] | Some v \<Rightarrow> v)\<rparr>)))"

definition decode_produce_request_topic :: "ProduceRequestTopic reads" where
  "decode_produce_request_topic =
     rd_bind read_compact_string (\<lambda>name.
     rd_bind (read_array_count True False) (\<lambda>partition_count.
     rd_bind (rd_count partition_count decode_produce_request_partition) (\<lambda>partitions.
     rd_bind skip_tagged_fields (\<lambda>_.
     rd_return \<lparr>prt_name = name, prt_partitions = partitions\<rparr>))))"

definition decode_produce_request :: "WireProduceRequest reads" where
  "decode_produce_request =
     rd_bind read_compact_nullable_string (\<lambda>transactional_id.
     rd_bind read_int16 (\<lambda>acks.
     rd_bind read_int32 (\<lambda>timeout_ms.
     rd_bind (read_array_count True False) (\<lambda>topic_count.
     rd_bind (rd_count topic_count decode_produce_request_topic) (\<lambda>topics.
     rd_bind skip_tagged_fields (\<lambda>_.
     rd_return \<lparr>pr_transactional_id = transactional_id, pr_acks = acks,
                pr_timeout_ms = timeout_ms, pr_topics = topics\<rparr>))))))"

definition decode_fetch_request_partition :: "FetchRequestPartition reads" where
  "decode_fetch_request_partition =
     rd_bind read_int32 (\<lambda>part.
     rd_bind read_int32 (\<lambda>current_leader_epoch.
     rd_bind read_int64 (\<lambda>fetch_offset.
     rd_bind read_int32 (\<lambda>last_fetched_epoch.
     rd_bind read_int64 (\<lambda>log_start_offset.
     rd_bind read_int32 (\<lambda>partition_max_bytes.
     rd_bind skip_tagged_fields (\<lambda>_.
     rd_return \<lparr>frp_partition = part, frp_current_leader_epoch = current_leader_epoch,
                frp_fetch_offset = fetch_offset, frp_last_fetched_epoch = last_fetched_epoch,
                frp_log_start_offset = log_start_offset,
                frp_partition_max_bytes = partition_max_bytes\<rparr>)))))))"

definition decode_fetch_request_topic :: "FetchRequestTopic reads" where
  "decode_fetch_request_topic =
     rd_bind read_compact_string (\<lambda>topic.
     rd_bind (read_array_count True False) (\<lambda>partition_count.
     rd_bind (rd_count partition_count decode_fetch_request_partition) (\<lambda>partitions.
     rd_bind skip_tagged_fields (\<lambda>_.
     rd_return \<lparr>frt_topic = topic, frt_partitions = partitions\<rparr>))))"

text \<open>Forgotten topics are read and dropped.\<close>

definition skip_forgotten_topic :: "(string \<times> int list) reads" where
  "skip_forgotten_topic =
     rd_bind read_compact_string (\<lambda>topic.
     rd_bind (read_array_count True False) (\<lambda>partition_count.
     rd_bind (rd_count partition_count read_int32) (\<lambda>partitions.
     rd_bind skip_tagged_fields (\<lambda>_.
     rd_return (topic, partitions)))))"

definition decode_fetch_request :: "WireFetchRequest reads" where
  "decode_fetch_request =
     rd_bind read_int32 (\<lambda>replica_id.
     rd_bind read_int32 (\<lambda>max_wait_ms.
     rd_bind read_int32 (\<lambda>min_bytes.
     rd_bind read_int32 (\<lambda>max_bytes.
     rd_bind read_int8 (\<lambda>isolation_level.
     rd_bind read_int32 (\<lambda>session_id.
     rd_bind read_int32 (\<lambda>session_epoch.
     rd_bind (read_array_count True False) (\<lambda>topic_count.
     rd_bind (rd_count topic_count decode_fetch_request_topic) (\<lambda>topics.
     rd_bind (read_array_count True False) (\<lambda>forgotten_topic_count.
     rd_bind (rd_count forgotten_topic_count skip_forgotten_topic) (\<lambda>_.
     rd_bind read_compact_string (\<lambda>rack_id.
     rd_bind skip_tagged_fields (\<lambda>_.
     rd_return \<lparr>fr_replica_id = replica_id, fr_max_wait_ms = max_wait_ms, fr_min_bytes = min_bytes,
                fr_max_bytes = max_bytes, fr_isolation_level = isolation_level,
                fr_session_id = session_id, fr_session_epoch = session_epoch,
                fr_topics = topics, fr_rack_id = rack_id\<rparr>)))))))))))))"

definition decode_list_offsets_request_partition :: "ListOffsetsRequestPartition reads" where
  "decode_list_offsets_request_partition =
     rd_bind read_int32 (\<lambda>partition_index.
     rd_bind read_int32 (\<lambda>current_leader_epoch.
     rd_bind read_int64 (\<lambda>timestamp.
     rd_bind skip_tagged_fields (\<lambda>_.
     rd_return \<lparr>lrp_partition_index = partition_index,
                lrp_current_leader_epoch = current_leader_epoch, lrp_timestamp = timestamp\<rparr>))))"

definition decode_list_offsets_request_topic :: "ListOffsetsRequestTopic reads" where
  "decode_list_offsets_request_topic =
     rd_bind read_compact_string (\<lambda>name.
     rd_bind (read_array_count True False) (\<lambda>partition_count.
     rd_bind (rd_count partition_count decode_list_offsets_request_partition) (\<lambda>partitions.
     rd_bind skip_tagged_fields (\<lambda>_.
     rd_return \<lparr>lrt_name = name, lrt_partitions = partitions\<rparr>))))"

definition decode_list_offsets_request :: "ListOffsetsRequest reads" where
  "decode_list_offsets_request =
     rd_bind read_int32 (\<lambda>replica_id.
     rd_bind read_int8 (\<lambda>isolation_level.
     rd_bind (read_array_count True False) (\<lambda>topic_count.
     rd_bind (rd_count topic_count decode_list_offsets_request_topic) (\<lambda>topics.
     rd_bind skip_tagged_fields (\<lambda>_.
     rd_return \<lparr>lr_replica_id = replica_id, lr_isolation_level = isolation_level,
                lr_topics = topics\<rparr>)))))"

section \<open>Responses\<close>

record ApiVersionsResponseApi =
  ava_api_key :: int
  ava_min_version :: int
  ava_max_version :: int

record ApiVersionsResponse =
  av_error_code :: int
  av_api_keys :: "ApiVersionsResponseApi list"
  av_throttle_time_ms :: int

record MetadataResponseBroker =
  mb_node_id :: int
  mb_host :: string
  mb_port :: int
  mb_rack :: "string option"

record MetadataResponsePartition =
  mp_error_code :: int
  mp_partition_index :: int
  mp_leader_id :: int
  mp_leader_epoch :: int
  mp_replica_nodes :: "int list"
  mp_isr_nodes :: "int list"
  mp_offline_replicas :: "int list"

record MetadataResponseTopic =
  mt_error_code :: int
  mt_name :: string
  mt_is_internal :: bool
  mt_partitions :: "MetadataResponsePartition list"
  mt_topic_authorized_operations :: int

record MetadataResponse =
  ms_throttle_time_ms :: int
  ms_brokers :: "MetadataResponseBroker list"
  ms_cluster_id :: "string option"
  ms_controller_id :: int
  ms_topics :: "MetadataResponseTopic list"
  ms_cluster_authorized_operations :: int

record ProduceResponsePartition =
  psp_partition_index :: int
  psp_error_code :: int
  psp_base_offset :: int
  psp_log_append_time_ms :: int
  psp_log_start_offset :: int
  psp_record_errors :: "int list"
  psp_error_message :: "string option"

record ProduceResponseTopic =
  pst_name :: string
  pst_partitions :: "ProduceResponsePartition list"

record ProduceResponse =
  ps_topics :: "ProduceResponseTopic list"
  ps_throttle_time_ms :: int

record FetchResponsePartition =
  fsp_partition_index :: int
  fsp_error_code :: int
  fsp_high_watermark :: int
  fsp_last_stable_offset :: int
  fsp_log_start_offset :: int
  fsp_aborted_transactions :: "int list option"
  fsp_preferred_read_replica :: int
  fsp_records :: bytes

record FetchResponseTopic =
  fst_topic :: string
  fst_partitions :: "FetchResponsePartition list"

record FetchResponse =
  fs_throttle_time_ms :: int
  fs_error_code :: int
  fs_session_id :: int
  fs_topics :: "FetchResponseTopic list"

record ListOffsetsResponsePartition =
  lsp_partition_index :: int
  lsp_error_code :: int
  lsp_timestamp :: int
  lsp_offset :: int
  lsp_leader_epoch :: int

record ListOffsetsResponseTopic =
  lst_name :: string
  lst_partitions :: "ListOffsetsResponsePartition list"

record ListOffsetsResponse =
  ls_throttle_time_ms :: int
  ls_topics :: "ListOffsetsResponseTopic list"

text \<open>\<^verbatim>\<open>writer.write_array_count(static_cast<std::int32_t>(xs.size()), true)\<close>.\<close>

abbreviation write_size :: "'a list \<Rightarrow> writes" where
  "write_size xs \<equiv> write_array_count (cast_i32 (int (length xs))) True"

definition write_api_versions_api :: "ApiVersionsResponseApi \<Rightarrow> writes" where
  "write_api_versions_api api =
     write_seq [write_int16 (ava_api_key api), write_int16 (ava_min_version api),
       write_int16 (ava_max_version api), write_empty_tagged_fields]"

definition encode_api_versions_response :: "ApiVersionsResponse \<Rightarrow> bytes result" where
  "encode_api_versions_response response =
     write_seq [write_int16 (av_error_code response),
       write_size (av_api_keys response),
       write_each write_api_versions_api (av_api_keys response),
       write_int32 (av_throttle_time_ms response),
       write_empty_tagged_fields] []"

definition write_metadata_broker :: "MetadataResponseBroker \<Rightarrow> writes" where
  "write_metadata_broker broker =
     write_seq [write_int32 (mb_node_id broker), write_compact_string (mb_host broker),
       write_int32 (mb_port broker), write_compact_nullable_string (mb_rack broker),
       write_empty_tagged_fields]"

definition write_metadata_partition :: "MetadataResponsePartition \<Rightarrow> writes" where
  "write_metadata_partition part =
     write_seq [write_int16 (mp_error_code part), write_int32 (mp_partition_index part),
       write_int32 (mp_leader_id part), write_int32 (mp_leader_epoch part),
       write_size (mp_replica_nodes part), write_each write_int32 (mp_replica_nodes part),
       write_size (mp_isr_nodes part), write_each write_int32 (mp_isr_nodes part),
       write_size (mp_offline_replicas part), write_each write_int32 (mp_offline_replicas part),
       write_empty_tagged_fields]"

definition write_metadata_topic :: "MetadataResponseTopic \<Rightarrow> writes" where
  "write_metadata_topic topic =
     write_seq [write_int16 (mt_error_code topic), write_compact_string (mt_name topic),
       write_bool (mt_is_internal topic), write_size (mt_partitions topic),
       write_each write_metadata_partition (mt_partitions topic),
       write_int32 (mt_topic_authorized_operations topic), write_empty_tagged_fields]"

definition encode_metadata_response :: "MetadataResponse \<Rightarrow> bytes result" where
  "encode_metadata_response response =
     write_seq [write_int32 (ms_throttle_time_ms response),
       write_size (ms_brokers response),
       write_each write_metadata_broker (ms_brokers response),
       write_compact_nullable_string (ms_cluster_id response),
       write_int32 (ms_controller_id response),
       write_size (ms_topics response),
       write_each write_metadata_topic (ms_topics response),
       write_int32 (ms_cluster_authorized_operations response),
       write_empty_tagged_fields] []"

definition write_record_error :: "int \<Rightarrow> writes" where
  "write_record_error error =
     write_seq [write_int32 error, write_compact_nullable_string None, write_empty_tagged_fields]"

definition write_produce_partition :: "ProduceResponsePartition \<Rightarrow> writes" where
  "write_produce_partition part =
     write_seq [write_int32 (psp_partition_index part), write_int16 (psp_error_code part),
       write_int64 (psp_base_offset part), write_int64 (psp_log_append_time_ms part),
       write_int64 (psp_log_start_offset part),
       write_size (psp_record_errors part),
       write_each write_record_error (psp_record_errors part),
       write_compact_nullable_string (psp_error_message part),
       write_empty_tagged_fields]"

definition write_produce_topic :: "ProduceResponseTopic \<Rightarrow> writes" where
  "write_produce_topic topic =
     write_seq [write_compact_string (pst_name topic), write_size (pst_partitions topic),
       write_each write_produce_partition (pst_partitions topic), write_empty_tagged_fields]"

definition encode_produce_response :: "ProduceResponse \<Rightarrow> bytes result" where
  "encode_produce_response response =
     write_seq [write_size (ps_topics response),
       write_each write_produce_topic (ps_topics response),
       write_int32 (ps_throttle_time_ms response),
       write_empty_tagged_fields] []"

definition write_aborted_transaction :: "int \<Rightarrow> writes" where
  "write_aborted_transaction producer_id =
     write_seq [write_int64 producer_id, write_int64 (- 1), write_empty_tagged_fields]"

definition write_fetch_partition :: "FetchResponsePartition \<Rightarrow> writes" where
  "write_fetch_partition part =
     write_seq [write_int32 (fsp_partition_index part), write_int16 (fsp_error_code part),
       write_int64 (fsp_high_watermark part), write_int64 (fsp_last_stable_offset part),
       write_int64 (fsp_log_start_offset part),
       (case fsp_aborted_transactions part of
          None \<Rightarrow> write_nullable_array_count (- 1) True
        | Some txns \<Rightarrow> write_seq [write_size txns, write_each write_aborted_transaction txns]),
       write_int32 (fsp_preferred_read_replica part),
       write_compact_nullable_bytes (Some (fsp_records part)),
       write_empty_tagged_fields]"

definition write_fetch_topic :: "FetchResponseTopic \<Rightarrow> writes" where
  "write_fetch_topic topic =
     write_seq [write_compact_string (fst_topic topic), write_size (fst_partitions topic),
       write_each write_fetch_partition (fst_partitions topic), write_empty_tagged_fields]"

definition encode_fetch_response :: "FetchResponse \<Rightarrow> bytes result" where
  "encode_fetch_response response =
     write_seq [write_int32 (fs_throttle_time_ms response), write_int16 (fs_error_code response),
       write_int32 (fs_session_id response),
       write_size (fs_topics response),
       write_each write_fetch_topic (fs_topics response),
       write_empty_tagged_fields] []"

definition write_list_offsets_partition :: "ListOffsetsResponsePartition \<Rightarrow> writes" where
  "write_list_offsets_partition part =
     write_seq [write_int32 (lsp_partition_index part), write_int16 (lsp_error_code part),
       write_int64 (lsp_timestamp part), write_int64 (lsp_offset part),
       write_int32 (lsp_leader_epoch part), write_empty_tagged_fields]"

definition write_list_offsets_topic :: "ListOffsetsResponseTopic \<Rightarrow> writes" where
  "write_list_offsets_topic topic =
     write_seq [write_compact_string (lst_name topic), write_size (lst_partitions topic),
       write_each write_list_offsets_partition (lst_partitions topic), write_empty_tagged_fields]"

definition encode_list_offsets_response :: "ListOffsetsResponse \<Rightarrow> bytes result" where
  "encode_list_offsets_response response =
     write_seq [write_int32 (ls_throttle_time_ms response),
       write_size (ls_topics response),
       write_each write_list_offsets_topic (ls_topics response),
       write_empty_tagged_fields] []"

section \<open>The layout of the messages\<close>

text \<open>The tag section of every message that the broker writes is empty: one zero byte.\<close>

abbreviation no_tags :: bytes where
  "no_tags \<equiv> uvarint 0"

definition array_bytes :: "('a \<Rightarrow> bytes) \<Rightarrow> 'a list \<Rightarrow> bytes" where
  "array_bytes enc xs = compact_count (length xs) @ concat (map enc xs)"

definition ok_array :: "('a \<Rightarrow> bool) \<Rightarrow> 'a list \<Rightarrow> bool" where
  "ok_array p xs \<longleftrightarrow> ok_count (length xs) \<and> list_all p xs"

definition metadata_request_topic_bytes :: "MetadataRequestTopic \<Rightarrow> bytes" where
  "metadata_request_topic_bytes t = compact_string_bytes (mrt_name t) @ no_tags"

definition ok_metadata_request_topic :: "MetadataRequestTopic \<Rightarrow> bool" where
  "ok_metadata_request_topic t \<longleftrightarrow> ok_compact (mrt_name t)"

definition metadata_request_bytes :: "MetadataRequest \<Rightarrow> bytes" where
  "metadata_request_bytes q =
     (if mr_all_topics q then uvarint 0 else array_bytes metadata_request_topic_bytes (mr_topics q)) @
     [if mr_allow_auto_topic_creation q then 1 else 0] @
     [if mr_include_cluster_authorized_operations q then 1 else 0] @
     [if mr_include_topic_authorized_operations q then 1 else 0] @ no_tags"

definition ok_metadata_request :: "MetadataRequest \<Rightarrow> bool" where
  "ok_metadata_request q \<longleftrightarrow>
     (if mr_all_topics q then mr_topics q = [] else ok_array ok_metadata_request_topic (mr_topics q))"

definition produce_request_partition_bytes :: "ProduceRequestPartition \<Rightarrow> bytes" where
  "produce_request_partition_bytes p =
     be32 (prp_partition_index p) @ compact_nullable_bytes (Some (prp_records p)) @ no_tags"

definition ok_produce_request_partition :: "ProduceRequestPartition \<Rightarrow> bool" where
  "ok_produce_request_partition p \<longleftrightarrow> i32 (prp_partition_index p) \<and> ok_compact (prp_records p)"

definition produce_request_topic_bytes :: "ProduceRequestTopic \<Rightarrow> bytes" where
  "produce_request_topic_bytes t =
     compact_string_bytes (prt_name t) @
     array_bytes produce_request_partition_bytes (prt_partitions t) @ no_tags"

definition ok_produce_request_topic :: "ProduceRequestTopic \<Rightarrow> bool" where
  "ok_produce_request_topic t \<longleftrightarrow>
     ok_compact (prt_name t) \<and> ok_array ok_produce_request_partition (prt_partitions t)"

definition produce_request_bytes :: "WireProduceRequest \<Rightarrow> bytes" where
  "produce_request_bytes q =
     compact_nullable_string_bytes (pr_transactional_id q) @ be16 (pr_acks q) @
     be32 (pr_timeout_ms q) @ array_bytes produce_request_topic_bytes (pr_topics q) @ no_tags"

definition ok_produce_request :: "WireProduceRequest \<Rightarrow> bool" where
  "ok_produce_request q \<longleftrightarrow>
     ok_opt ok_compact (pr_transactional_id q) \<and> i16 (pr_acks q) \<and> i32 (pr_timeout_ms q) \<and>
     ok_array ok_produce_request_topic (pr_topics q)"

definition fetch_request_partition_bytes :: "FetchRequestPartition \<Rightarrow> bytes" where
  "fetch_request_partition_bytes p =
     be32 (frp_partition p) @ be32 (frp_current_leader_epoch p) @ be64 (frp_fetch_offset p) @
     be32 (frp_last_fetched_epoch p) @ be64 (frp_log_start_offset p) @
     be32 (frp_partition_max_bytes p) @ no_tags"

definition ok_fetch_request_partition :: "FetchRequestPartition \<Rightarrow> bool" where
  "ok_fetch_request_partition p \<longleftrightarrow>
     i32 (frp_partition p) \<and> i32 (frp_current_leader_epoch p) \<and> i64 (frp_fetch_offset p) \<and>
     i32 (frp_last_fetched_epoch p) \<and> i64 (frp_log_start_offset p) \<and>
     i32 (frp_partition_max_bytes p)"

definition fetch_request_topic_bytes :: "FetchRequestTopic \<Rightarrow> bytes" where
  "fetch_request_topic_bytes t =
     compact_string_bytes (frt_topic t) @
     array_bytes fetch_request_partition_bytes (frt_partitions t) @ no_tags"

definition ok_fetch_request_topic :: "FetchRequestTopic \<Rightarrow> bool" where
  "ok_fetch_request_topic t \<longleftrightarrow>
     ok_compact (frt_topic t) \<and> ok_array ok_fetch_request_partition (frt_partitions t)"

definition forgotten_topic_bytes :: "string \<times> int list \<Rightarrow> bytes" where
  "forgotten_topic_bytes t = compact_string_bytes (fst t) @ array_bytes be32 (snd t) @ no_tags"

definition ok_forgotten_topic :: "string \<times> int list \<Rightarrow> bool" where
  "ok_forgotten_topic t \<longleftrightarrow> ok_compact (fst t) \<and> ok_array i32 (snd t)"

definition fetch_request_bytes :: "(string \<times> int list) list \<Rightarrow> WireFetchRequest \<Rightarrow> bytes" where
  "fetch_request_bytes forgotten q =
     be32 (fr_replica_id q) @ be32 (fr_max_wait_ms q) @ be32 (fr_min_bytes q) @
     be32 (fr_max_bytes q) @ [word_of_int (fr_isolation_level q)] @ be32 (fr_session_id q) @
     be32 (fr_session_epoch q) @ array_bytes fetch_request_topic_bytes (fr_topics q) @
     array_bytes forgotten_topic_bytes forgotten @ compact_string_bytes (fr_rack_id q) @ no_tags"

definition ok_fetch_request :: "WireFetchRequest \<Rightarrow> bool" where
  "ok_fetch_request q \<longleftrightarrow>
     i32 (fr_replica_id q) \<and> i32 (fr_max_wait_ms q) \<and> i32 (fr_min_bytes q) \<and> i32 (fr_max_bytes q) \<and>
     i8 (fr_isolation_level q) \<and> i32 (fr_session_id q) \<and> i32 (fr_session_epoch q) \<and>
     ok_array ok_fetch_request_topic (fr_topics q) \<and> ok_compact (fr_rack_id q)"

definition list_offsets_request_partition_bytes :: "ListOffsetsRequestPartition \<Rightarrow> bytes" where
  "list_offsets_request_partition_bytes p =
     be32 (lrp_partition_index p) @ be32 (lrp_current_leader_epoch p) @ be64 (lrp_timestamp p) @ no_tags"

definition ok_list_offsets_request_partition :: "ListOffsetsRequestPartition \<Rightarrow> bool" where
  "ok_list_offsets_request_partition p \<longleftrightarrow>
     i32 (lrp_partition_index p) \<and> i32 (lrp_current_leader_epoch p) \<and> i64 (lrp_timestamp p)"

definition list_offsets_request_topic_bytes :: "ListOffsetsRequestTopic \<Rightarrow> bytes" where
  "list_offsets_request_topic_bytes t =
     compact_string_bytes (lrt_name t) @
     array_bytes list_offsets_request_partition_bytes (lrt_partitions t) @ no_tags"

definition ok_list_offsets_request_topic :: "ListOffsetsRequestTopic \<Rightarrow> bool" where
  "ok_list_offsets_request_topic t \<longleftrightarrow>
     ok_compact (lrt_name t) \<and> ok_array ok_list_offsets_request_partition (lrt_partitions t)"

definition list_offsets_request_bytes :: "ListOffsetsRequest \<Rightarrow> bytes" where
  "list_offsets_request_bytes q =
     be32 (lr_replica_id q) @ [word_of_int (lr_isolation_level q)] @
     array_bytes list_offsets_request_topic_bytes (lr_topics q) @ no_tags"

definition ok_list_offsets_request :: "ListOffsetsRequest \<Rightarrow> bool" where
  "ok_list_offsets_request q \<longleftrightarrow>
     i32 (lr_replica_id q) \<and> i8 (lr_isolation_level q) \<and>
     ok_array ok_list_offsets_request_topic (lr_topics q)"

section \<open>The layout of the responses and a client that reads them\<close>

text \<open>
  The reader side of the responses is not part of the broker. The \<open>client_\<close> readers below
  are a client of the same message schemas; they state that a response can be read back.
\<close>

definition record_error_bytes :: "int \<Rightarrow> bytes" where
  "record_error_bytes e = be32 e @ compact_nullable_string_bytes None @ no_tags"

definition client_record_error :: "int reads" where
  "client_record_error =
     rd_bind read_int32 (\<lambda>e.
     rd_bind read_compact_nullable_string (\<lambda>_.
     rd_bind skip_tagged_fields (\<lambda>_. rd_return e)))"

definition aborted_transaction_bytes :: "int \<Rightarrow> bytes" where
  "aborted_transaction_bytes producer_id = be64 producer_id @ be64 (- 1) @ no_tags"

definition client_aborted_transaction :: "int reads" where
  "client_aborted_transaction =
     rd_bind read_int64 (\<lambda>producer_id.
     rd_bind read_int64 (\<lambda>_.
     rd_bind skip_tagged_fields (\<lambda>_. rd_return producer_id)))"

definition aborted_transactions_bytes :: "int list option \<Rightarrow> bytes" where
  "aborted_transactions_bytes v =
     (case v of None \<Rightarrow> uvarint 0 | Some txns \<Rightarrow> array_bytes aborted_transaction_bytes txns)"

definition client_aborted_transactions :: "int list option reads" where
  "client_aborted_transactions =
     rd_bind (read_array_count True True) (\<lambda>n.
     rd_bind (rd_count n client_aborted_transaction) (\<lambda>txns.
     rd_return (if n < 0 then None else Some txns)))"

definition api_versions_api_bytes :: "ApiVersionsResponseApi \<Rightarrow> bytes" where
  "api_versions_api_bytes v =
     be16 (ava_api_key v) @ be16 (ava_min_version v) @ be16 (ava_max_version v) @ no_tags"

definition ok_api_versions_api :: "ApiVersionsResponseApi \<Rightarrow> bool" where
  "ok_api_versions_api v \<longleftrightarrow>
     i16 (ava_api_key v) \<and> i16 (ava_min_version v) \<and> i16 (ava_max_version v)"

definition client_api_versions_api :: "ApiVersionsResponseApi reads" where
  "client_api_versions_api =
     rd_bind read_int16 (\<lambda>api_key.
     rd_bind read_int16 (\<lambda>min_version.
     rd_bind read_int16 (\<lambda>max_version.
     rd_bind skip_tagged_fields (\<lambda>_.
     rd_return \<lparr>ava_api_key = api_key, ava_min_version = min_version, ava_max_version = max_version\<rparr>))))"

definition metadata_broker_bytes :: "MetadataResponseBroker \<Rightarrow> bytes" where
  "metadata_broker_bytes v =
     be32 (mb_node_id v) @ compact_string_bytes (mb_host v) @ be32 (mb_port v) @
     compact_nullable_string_bytes (mb_rack v) @ no_tags"

definition ok_metadata_broker :: "MetadataResponseBroker \<Rightarrow> bool" where
  "ok_metadata_broker v \<longleftrightarrow>
     i32 (mb_node_id v) \<and> ok_compact (mb_host v) \<and> i32 (mb_port v) \<and>
     ok_opt ok_compact (mb_rack v)"

definition client_metadata_broker :: "MetadataResponseBroker reads" where
  "client_metadata_broker =
     rd_bind read_int32 (\<lambda>node_id.
     rd_bind read_compact_string (\<lambda>host.
     rd_bind read_int32 (\<lambda>port.
     rd_bind read_compact_nullable_string (\<lambda>rack.
     rd_bind skip_tagged_fields (\<lambda>_.
     rd_return \<lparr>mb_node_id = node_id, mb_host = host, mb_port = port, mb_rack = rack\<rparr>)))))"

definition metadata_partition_bytes :: "MetadataResponsePartition \<Rightarrow> bytes" where
  "metadata_partition_bytes v =
     be16 (mp_error_code v) @ be32 (mp_partition_index v) @ be32 (mp_leader_id v) @
     be32 (mp_leader_epoch v) @ array_bytes be32 (mp_replica_nodes v) @
     array_bytes be32 (mp_isr_nodes v) @ array_bytes be32 (mp_offline_replicas v) @ no_tags"

definition ok_metadata_partition :: "MetadataResponsePartition \<Rightarrow> bool" where
  "ok_metadata_partition v \<longleftrightarrow>
     i16 (mp_error_code v) \<and> i32 (mp_partition_index v) \<and> i32 (mp_leader_id v) \<and>
     i32 (mp_leader_epoch v) \<and> ok_array i32 (mp_replica_nodes v) \<and>
     ok_array i32 (mp_isr_nodes v) \<and> ok_array i32 (mp_offline_replicas v)"

definition client_metadata_partition :: "MetadataResponsePartition reads" where
  "client_metadata_partition =
     rd_bind read_int16 (\<lambda>error_code.
     rd_bind read_int32 (\<lambda>partition_index.
     rd_bind read_int32 (\<lambda>leader_id.
     rd_bind read_int32 (\<lambda>leader_epoch.
     rd_bind (read_array_count True False) (\<lambda>replica_nodes_count.
     rd_bind (rd_count replica_nodes_count read_int32) (\<lambda>replica_nodes.
     rd_bind (read_array_count True False) (\<lambda>isr_nodes_count.
     rd_bind (rd_count isr_nodes_count read_int32) (\<lambda>isr_nodes.
     rd_bind (read_array_count True False) (\<lambda>offline_replicas_count.
     rd_bind (rd_count offline_replicas_count read_int32) (\<lambda>offline_replicas.
     rd_bind skip_tagged_fields (\<lambda>_.
     rd_return \<lparr>mp_error_code = error_code, mp_partition_index = partition_index,
       mp_leader_id = leader_id, mp_leader_epoch = leader_epoch,
       mp_replica_nodes = replica_nodes, mp_isr_nodes = isr_nodes,
       mp_offline_replicas = offline_replicas\<rparr>)))))))))))"

definition metadata_topic_bytes :: "MetadataResponseTopic \<Rightarrow> bytes" where
  "metadata_topic_bytes v =
     be16 (mt_error_code v) @ compact_string_bytes (mt_name v) @
     [if mt_is_internal v then 1 else 0] @
     array_bytes metadata_partition_bytes (mt_partitions v) @
     be32 (mt_topic_authorized_operations v) @ no_tags"

definition ok_metadata_topic :: "MetadataResponseTopic \<Rightarrow> bool" where
  "ok_metadata_topic v \<longleftrightarrow>
     i16 (mt_error_code v) \<and> ok_compact (mt_name v) \<and>
     ok_array ok_metadata_partition (mt_partitions v) \<and>
     i32 (mt_topic_authorized_operations v)"

definition client_metadata_topic :: "MetadataResponseTopic reads" where
  "client_metadata_topic =
     rd_bind read_int16 (\<lambda>error_code.
     rd_bind read_compact_string (\<lambda>name.
     rd_bind read_bool (\<lambda>is_internal.
     rd_bind (read_array_count True False) (\<lambda>partitions_count.
     rd_bind (rd_count partitions_count client_metadata_partition) (\<lambda>partitions.
     rd_bind read_int32 (\<lambda>topic_authorized_operations.
     rd_bind skip_tagged_fields (\<lambda>_.
     rd_return \<lparr>mt_error_code = error_code, mt_name = name, mt_is_internal = is_internal,
       mt_partitions = partitions, mt_topic_authorized_operations = topic_authorized_operations\<rparr>)))))))"

definition produce_partition_bytes :: "ProduceResponsePartition \<Rightarrow> bytes" where
  "produce_partition_bytes v =
     be32 (psp_partition_index v) @ be16 (psp_error_code v) @ be64 (psp_base_offset v) @
     be64 (psp_log_append_time_ms v) @ be64 (psp_log_start_offset v) @
     array_bytes record_error_bytes (psp_record_errors v) @
     compact_nullable_string_bytes (psp_error_message v) @ no_tags"

definition ok_produce_partition :: "ProduceResponsePartition \<Rightarrow> bool" where
  "ok_produce_partition v \<longleftrightarrow>
     i32 (psp_partition_index v) \<and> i16 (psp_error_code v) \<and>
     i64 (psp_base_offset v) \<and> i64 (psp_log_append_time_ms v) \<and>
     i64 (psp_log_start_offset v) \<and> ok_array i32 (psp_record_errors v) \<and>
     ok_opt ok_compact (psp_error_message v)"

definition client_produce_partition :: "ProduceResponsePartition reads" where
  "client_produce_partition =
     rd_bind read_int32 (\<lambda>partition_index.
     rd_bind read_int16 (\<lambda>error_code.
     rd_bind read_int64 (\<lambda>base_offset.
     rd_bind read_int64 (\<lambda>log_append_time_ms.
     rd_bind read_int64 (\<lambda>log_start_offset.
     rd_bind (read_array_count True False) (\<lambda>record_errors_count.
     rd_bind (rd_count record_errors_count client_record_error) (\<lambda>record_errors.
     rd_bind read_compact_nullable_string (\<lambda>error_message.
     rd_bind skip_tagged_fields (\<lambda>_.
     rd_return \<lparr>psp_partition_index = partition_index, psp_error_code = error_code,
       psp_base_offset = base_offset, psp_log_append_time_ms = log_append_time_ms,
       psp_log_start_offset = log_start_offset, psp_record_errors = record_errors,
       psp_error_message = error_message\<rparr>)))))))))"

definition produce_topic_bytes :: "ProduceResponseTopic \<Rightarrow> bytes" where
  "produce_topic_bytes v =
     compact_string_bytes (pst_name v) @
     array_bytes produce_partition_bytes (pst_partitions v) @ no_tags"

definition ok_produce_topic :: "ProduceResponseTopic \<Rightarrow> bool" where
  "ok_produce_topic v \<longleftrightarrow>
     ok_compact (pst_name v) \<and> ok_array ok_produce_partition (pst_partitions v)"

definition client_produce_topic :: "ProduceResponseTopic reads" where
  "client_produce_topic =
     rd_bind read_compact_string (\<lambda>name.
     rd_bind (read_array_count True False) (\<lambda>partitions_count.
     rd_bind (rd_count partitions_count client_produce_partition) (\<lambda>partitions.
     rd_bind skip_tagged_fields (\<lambda>_.
     rd_return \<lparr>pst_name = name, pst_partitions = partitions\<rparr>))))"

definition fetch_partition_bytes :: "FetchResponsePartition \<Rightarrow> bytes" where
  "fetch_partition_bytes v =
     be32 (fsp_partition_index v) @ be16 (fsp_error_code v) @ be64 (fsp_high_watermark v) @
     be64 (fsp_last_stable_offset v) @ be64 (fsp_log_start_offset v) @
     aborted_transactions_bytes (fsp_aborted_transactions v) @
     be32 (fsp_preferred_read_replica v) @ compact_nullable_bytes (Some (fsp_records v)) @
     no_tags"

definition ok_fetch_partition :: "FetchResponsePartition \<Rightarrow> bool" where
  "ok_fetch_partition v \<longleftrightarrow>
     i32 (fsp_partition_index v) \<and> i16 (fsp_error_code v) \<and>
     i64 (fsp_high_watermark v) \<and> i64 (fsp_last_stable_offset v) \<and>
     i64 (fsp_log_start_offset v) \<and>
     ok_opt (ok_array i64) (fsp_aborted_transactions v) \<and>
     i32 (fsp_preferred_read_replica v) \<and> ok_compact (fsp_records v)"

definition client_fetch_partition :: "FetchResponsePartition reads" where
  "client_fetch_partition =
     rd_bind read_int32 (\<lambda>partition_index.
     rd_bind read_int16 (\<lambda>error_code.
     rd_bind read_int64 (\<lambda>high_watermark.
     rd_bind read_int64 (\<lambda>last_stable_offset.
     rd_bind read_int64 (\<lambda>log_start_offset.
     rd_bind client_aborted_transactions (\<lambda>aborted_transactions.
     rd_bind read_int32 (\<lambda>preferred_read_replica.
     rd_bind read_compact_nullable_bytes (\<lambda>records.
     rd_bind skip_tagged_fields (\<lambda>_.
     rd_return \<lparr>fsp_partition_index = partition_index, fsp_error_code = error_code,
       fsp_high_watermark = high_watermark, fsp_last_stable_offset = last_stable_offset,
       fsp_log_start_offset = log_start_offset, fsp_aborted_transactions = aborted_transactions,
       fsp_preferred_read_replica = preferred_read_replica,
       fsp_records = (case records of None \<Rightarrow> [] | Some b \<Rightarrow> b)\<rparr>)))))))))"

definition fetch_topic_bytes :: "FetchResponseTopic \<Rightarrow> bytes" where
  "fetch_topic_bytes v =
     compact_string_bytes (fst_topic v) @ array_bytes fetch_partition_bytes (fst_partitions v) @
     no_tags"

definition ok_fetch_topic :: "FetchResponseTopic \<Rightarrow> bool" where
  "ok_fetch_topic v \<longleftrightarrow>
     ok_compact (fst_topic v) \<and> ok_array ok_fetch_partition (fst_partitions v)"

definition client_fetch_topic :: "FetchResponseTopic reads" where
  "client_fetch_topic =
     rd_bind read_compact_string (\<lambda>topic.
     rd_bind (read_array_count True False) (\<lambda>partitions_count.
     rd_bind (rd_count partitions_count client_fetch_partition) (\<lambda>partitions.
     rd_bind skip_tagged_fields (\<lambda>_.
     rd_return \<lparr>fst_topic = topic, fst_partitions = partitions\<rparr>))))"

definition list_offsets_partition_bytes :: "ListOffsetsResponsePartition \<Rightarrow> bytes" where
  "list_offsets_partition_bytes v =
     be32 (lsp_partition_index v) @ be16 (lsp_error_code v) @ be64 (lsp_timestamp v) @
     be64 (lsp_offset v) @ be32 (lsp_leader_epoch v) @ no_tags"

definition ok_list_offsets_partition :: "ListOffsetsResponsePartition \<Rightarrow> bool" where
  "ok_list_offsets_partition v \<longleftrightarrow>
     i32 (lsp_partition_index v) \<and> i16 (lsp_error_code v) \<and>
     i64 (lsp_timestamp v) \<and> i64 (lsp_offset v) \<and> i32 (lsp_leader_epoch v)"

definition client_list_offsets_partition :: "ListOffsetsResponsePartition reads" where
  "client_list_offsets_partition =
     rd_bind read_int32 (\<lambda>partition_index.
     rd_bind read_int16 (\<lambda>error_code.
     rd_bind read_int64 (\<lambda>timestamp.
     rd_bind read_int64 (\<lambda>offset.
     rd_bind read_int32 (\<lambda>leader_epoch.
     rd_bind skip_tagged_fields (\<lambda>_.
     rd_return \<lparr>lsp_partition_index = partition_index, lsp_error_code = error_code,
       lsp_timestamp = timestamp, lsp_offset = offset, lsp_leader_epoch = leader_epoch\<rparr>))))))"

definition list_offsets_topic_bytes :: "ListOffsetsResponseTopic \<Rightarrow> bytes" where
  "list_offsets_topic_bytes v =
     compact_string_bytes (lst_name v) @
     array_bytes list_offsets_partition_bytes (lst_partitions v) @ no_tags"

definition ok_list_offsets_topic :: "ListOffsetsResponseTopic \<Rightarrow> bool" where
  "ok_list_offsets_topic v \<longleftrightarrow>
     ok_compact (lst_name v) \<and> ok_array ok_list_offsets_partition (lst_partitions v)"

definition client_list_offsets_topic :: "ListOffsetsResponseTopic reads" where
  "client_list_offsets_topic =
     rd_bind read_compact_string (\<lambda>name.
     rd_bind (read_array_count True False) (\<lambda>partitions_count.
     rd_bind (rd_count partitions_count client_list_offsets_partition) (\<lambda>partitions.
     rd_bind skip_tagged_fields (\<lambda>_.
     rd_return \<lparr>lst_name = name, lst_partitions = partitions\<rparr>))))"

definition api_versions_response_bytes :: "ApiVersionsResponse \<Rightarrow> bytes" where
  "api_versions_response_bytes v =
     be16 (av_error_code v) @ array_bytes api_versions_api_bytes (av_api_keys v) @
     be32 (av_throttle_time_ms v) @ no_tags"

definition ok_api_versions_response :: "ApiVersionsResponse \<Rightarrow> bool" where
  "ok_api_versions_response v \<longleftrightarrow>
     i16 (av_error_code v) \<and> ok_array ok_api_versions_api (av_api_keys v) \<and>
     i32 (av_throttle_time_ms v)"

definition client_api_versions_response :: "ApiVersionsResponse reads" where
  "client_api_versions_response =
     rd_bind read_int16 (\<lambda>error_code.
     rd_bind (read_array_count True False) (\<lambda>api_keys_count.
     rd_bind (rd_count api_keys_count client_api_versions_api) (\<lambda>api_keys.
     rd_bind read_int32 (\<lambda>throttle_time_ms.
     rd_bind skip_tagged_fields (\<lambda>_.
     rd_return \<lparr>av_error_code = error_code, av_api_keys = api_keys,
       av_throttle_time_ms = throttle_time_ms\<rparr>)))))"

definition metadata_response_bytes :: "MetadataResponse \<Rightarrow> bytes" where
  "metadata_response_bytes v =
     be32 (ms_throttle_time_ms v) @ array_bytes metadata_broker_bytes (ms_brokers v) @
     compact_nullable_string_bytes (ms_cluster_id v) @ be32 (ms_controller_id v) @
     array_bytes metadata_topic_bytes (ms_topics v) @
     be32 (ms_cluster_authorized_operations v) @ no_tags"

definition ok_metadata_response :: "MetadataResponse \<Rightarrow> bool" where
  "ok_metadata_response v \<longleftrightarrow>
     i32 (ms_throttle_time_ms v) \<and> ok_array ok_metadata_broker (ms_brokers v) \<and>
     ok_opt ok_compact (ms_cluster_id v) \<and> i32 (ms_controller_id v) \<and>
     ok_array ok_metadata_topic (ms_topics v) \<and> i32 (ms_cluster_authorized_operations v)"

definition client_metadata_response :: "MetadataResponse reads" where
  "client_metadata_response =
     rd_bind read_int32 (\<lambda>throttle_time_ms.
     rd_bind (read_array_count True False) (\<lambda>brokers_count.
     rd_bind (rd_count brokers_count client_metadata_broker) (\<lambda>brokers.
     rd_bind read_compact_nullable_string (\<lambda>cluster_id.
     rd_bind read_int32 (\<lambda>controller_id.
     rd_bind (read_array_count True False) (\<lambda>topics_count.
     rd_bind (rd_count topics_count client_metadata_topic) (\<lambda>topics.
     rd_bind read_int32 (\<lambda>cluster_authorized_operations.
     rd_bind skip_tagged_fields (\<lambda>_.
     rd_return \<lparr>ms_throttle_time_ms = throttle_time_ms, ms_brokers = brokers, ms_cluster_id = cluster_id,
       ms_controller_id = controller_id, ms_topics = topics,
       ms_cluster_authorized_operations = cluster_authorized_operations\<rparr>)))))))))"

definition produce_response_bytes :: "ProduceResponse \<Rightarrow> bytes" where
  "produce_response_bytes v =
     array_bytes produce_topic_bytes (ps_topics v) @ be32 (ps_throttle_time_ms v) @ no_tags"

definition ok_produce_response :: "ProduceResponse \<Rightarrow> bool" where
  "ok_produce_response v \<longleftrightarrow>
     ok_array ok_produce_topic (ps_topics v) \<and> i32 (ps_throttle_time_ms v)"

definition client_produce_response :: "ProduceResponse reads" where
  "client_produce_response =
     rd_bind (read_array_count True False) (\<lambda>topics_count.
     rd_bind (rd_count topics_count client_produce_topic) (\<lambda>topics.
     rd_bind read_int32 (\<lambda>throttle_time_ms.
     rd_bind skip_tagged_fields (\<lambda>_.
     rd_return \<lparr>ps_topics = topics, ps_throttle_time_ms = throttle_time_ms\<rparr>))))"

definition fetch_response_bytes :: "FetchResponse \<Rightarrow> bytes" where
  "fetch_response_bytes v =
     be32 (fs_throttle_time_ms v) @ be16 (fs_error_code v) @ be32 (fs_session_id v) @
     array_bytes fetch_topic_bytes (fs_topics v) @ no_tags"

definition ok_fetch_response :: "FetchResponse \<Rightarrow> bool" where
  "ok_fetch_response v \<longleftrightarrow>
     i32 (fs_throttle_time_ms v) \<and> i16 (fs_error_code v) \<and>
     i32 (fs_session_id v) \<and> ok_array ok_fetch_topic (fs_topics v)"

definition client_fetch_response :: "FetchResponse reads" where
  "client_fetch_response =
     rd_bind read_int32 (\<lambda>throttle_time_ms.
     rd_bind read_int16 (\<lambda>error_code.
     rd_bind read_int32 (\<lambda>session_id.
     rd_bind (read_array_count True False) (\<lambda>topics_count.
     rd_bind (rd_count topics_count client_fetch_topic) (\<lambda>topics.
     rd_bind skip_tagged_fields (\<lambda>_.
     rd_return \<lparr>fs_throttle_time_ms = throttle_time_ms, fs_error_code = error_code,
       fs_session_id = session_id, fs_topics = topics\<rparr>))))))"

definition list_offsets_response_bytes :: "ListOffsetsResponse \<Rightarrow> bytes" where
  "list_offsets_response_bytes v =
     be32 (ls_throttle_time_ms v) @ array_bytes list_offsets_topic_bytes (ls_topics v) @ no_tags"

definition ok_list_offsets_response :: "ListOffsetsResponse \<Rightarrow> bool" where
  "ok_list_offsets_response v \<longleftrightarrow>
     i32 (ls_throttle_time_ms v) \<and> ok_array ok_list_offsets_topic (ls_topics v)"

definition client_list_offsets_response :: "ListOffsetsResponse reads" where
  "client_list_offsets_response =
     rd_bind read_int32 (\<lambda>throttle_time_ms.
     rd_bind (read_array_count True False) (\<lambda>topics_count.
     rd_bind (rd_count topics_count client_list_offsets_topic) (\<lambda>topics.
     rd_bind skip_tagged_fields (\<lambda>_.
     rd_return \<lparr>ls_throttle_time_ms = throttle_time_ms, ls_topics = topics\<rparr>))))"

section \<open>The decoders read the layouts back\<close>

lemma read_array_at:
  assumes "wire_decoder rd enc ok" and "ok_array ok xs"
  shows "rd_bind (read_array_count True nullable) (\<lambda>n. rd_bind (rd_count n rd) (f n))
           (reader_at pre (array_bytes enc xs @ suf)) =
         f (int (length xs)) xs (reader_at (pre @ array_bytes enc xs) suf)"
  using assms wire_decoder.rd_count_enc [OF assms(1)]
  by (simp add: rd_defs array_bytes_def ok_array_def rd_at)

text \<open>
  The four request decoders and those of their parts, each against its layout. The
  rules of \<open>rd_at\<close> and \<open>read_array_at\<close> at the decoder of the elements read every field.
\<close>

lemmas request_layouts =
  metadata_request_topic_bytes_def ok_metadata_request_topic_def
  produce_request_partition_bytes_def ok_produce_request_partition_def
  produce_request_topic_bytes_def ok_produce_request_topic_def
  produce_request_bytes_def ok_produce_request_def
  fetch_request_partition_bytes_def ok_fetch_request_partition_def
  fetch_request_topic_bytes_def ok_fetch_request_topic_def
  forgotten_topic_bytes_def ok_forgotten_topic_def
  fetch_request_bytes_def ok_fetch_request_def
  list_offsets_request_partition_bytes_def ok_list_offsets_request_partition_def
  list_offsets_request_topic_bytes_def ok_list_offsets_request_topic_def
  list_offsets_request_bytes_def ok_list_offsets_request_def

lemma rd_bind_at: "m r = Inr (x, r') \<Longrightarrow> rd_bind m f r = f x r'"
  by (simp add: rd_bind_def)

interpretation dec_metadata_topic:
  wire_decoder decode_metadata_request_topic metadata_request_topic_bytes ok_metadata_request_topic
  by unfold_locales
    (simp_all add: decode_metadata_request_topic_def request_layouts rd_bind_at rd_at rd_return_def,
     intro safe_reads)

interpretation dec_produce_partition:
  wire_decoder decode_produce_request_partition produce_request_partition_bytes ok_produce_request_partition
  by unfold_locales
    (simp_all add: decode_produce_request_partition_def request_layouts rd_bind_at rd_at rd_return_def ok_opt_def,
     intro safe_reads)

interpretation dec_produce_topic:
  wire_decoder decode_produce_request_topic produce_request_topic_bytes ok_produce_request_topic
  by unfold_locales
    (simp_all add: decode_produce_request_topic_def request_layouts rd_bind_at rd_at rd_return_def
       read_array_at [OF dec_produce_partition.wire_decoder_axioms],
     intro safe_reads dec_produce_partition.rd_safe)

interpretation dec_fetch_partition:
  wire_decoder decode_fetch_request_partition fetch_request_partition_bytes ok_fetch_request_partition
  by unfold_locales
    (simp_all add: decode_fetch_request_partition_def request_layouts rd_bind_at rd_at rd_return_def,
     intro safe_reads)

interpretation dec_fetch_topic:
  wire_decoder decode_fetch_request_topic fetch_request_topic_bytes ok_fetch_request_topic
  by unfold_locales
    (simp_all add: decode_fetch_request_topic_def request_layouts rd_bind_at rd_at rd_return_def
       read_array_at [OF dec_fetch_partition.wire_decoder_axioms],
     intro safe_reads dec_fetch_partition.rd_safe)

interpretation dec_forgotten_topic:
  wire_decoder skip_forgotten_topic forgotten_topic_bytes ok_forgotten_topic
  by unfold_locales
    (simp_all add: skip_forgotten_topic_def request_layouts rd_bind_at rd_at rd_return_def
       read_array_at [OF fmt_int32.wire_decoder_axioms],
     intro safe_reads)

interpretation dec_list_offsets_partition:
  wire_decoder decode_list_offsets_request_partition list_offsets_request_partition_bytes
    ok_list_offsets_request_partition
  by unfold_locales
    (simp_all add: decode_list_offsets_request_partition_def request_layouts rd_bind_at rd_at rd_return_def,
     intro safe_reads)

interpretation dec_list_offsets_topic:
  wire_decoder decode_list_offsets_request_topic list_offsets_request_topic_bytes ok_list_offsets_request_topic
  by unfold_locales
    (simp_all add: decode_list_offsets_request_topic_def request_layouts rd_bind_at rd_at rd_return_def
       read_array_at [OF dec_list_offsets_partition.wire_decoder_axioms],
     intro safe_reads dec_list_offsets_partition.rd_safe)

lemma safe_decode_metadata_request [safe_reads]: "safe_read decode_metadata_request"
  unfolding decode_metadata_request_def by (intro safe_reads dec_metadata_topic.rd_safe)

lemma safe_decode_fetch_request [safe_reads]: "safe_read decode_fetch_request"
  unfolding decode_fetch_request_def
  by (intro safe_reads dec_fetch_topic.rd_safe dec_forgotten_topic.rd_safe)

lemma rd_count_negative: "n < 0 \<Longrightarrow> rd_count n rd r = Inr ([], r)"
  by (simp add: rd_count_def rd_return_def)

lemma decode_metadata_request_at:
  assumes "ok_metadata_request q"
  shows "decode_metadata_request (reader_at pre (metadata_request_bytes q @ suf)) =
           Inr (q, reader_at (pre @ metadata_request_bytes q) suf)"
proof (cases "mr_all_topics q")
  case True
  with assms show ?thesis
    by (simp add: decode_metadata_request_def metadata_request_bytes_def ok_metadata_request_def
        rd_bind_at rd_at rd_return_def rd_count_negative)
next
  case False
  with assms show ?thesis
    by (simp add: decode_metadata_request_def metadata_request_bytes_def ok_metadata_request_def
        rd_bind_at rd_at rd_return_def read_array_at [OF dec_metadata_topic.wire_decoder_axioms])
qed

interpretation dec_metadata_request:
  wire_decoder decode_metadata_request metadata_request_bytes ok_metadata_request
  by unfold_locales (simp_all add: decode_metadata_request_at safe_decode_metadata_request)

interpretation dec_produce_request:
  wire_decoder decode_produce_request produce_request_bytes ok_produce_request
  by unfold_locales
    (simp_all add: decode_produce_request_def request_layouts rd_bind_at rd_at rd_return_def
       read_array_at [OF dec_produce_topic.wire_decoder_axioms],
     intro safe_reads dec_produce_topic.rd_safe)

lemma decode_fetch_request_at:
  assumes "ok_fetch_request q" and "ok_array ok_forgotten_topic forgotten"
  shows "decode_fetch_request (reader_at pre (fetch_request_bytes forgotten q @ suf)) =
           Inr (q, reader_at (pre @ fetch_request_bytes forgotten q) suf)"
  using assms
  by (simp add: decode_fetch_request_def fetch_request_bytes_def ok_fetch_request_def
      rd_bind_at rd_at rd_return_def read_array_at [OF dec_fetch_topic.wire_decoder_axioms]
      read_array_at [OF dec_forgotten_topic.wire_decoder_axioms])

interpretation dec_fetch_request:
  wire_decoder decode_fetch_request "fetch_request_bytes []" ok_fetch_request
  by unfold_locales
    (simp_all add: decode_fetch_request_at safe_decode_fetch_request ok_array_def ok_count_def)

interpretation dec_list_offsets_request:
  wire_decoder decode_list_offsets_request list_offsets_request_bytes ok_list_offsets_request
  by unfold_locales
    (simp_all add: decode_list_offsets_request_def request_layouts rd_bind_at rd_at rd_return_def
       read_array_at [OF dec_list_offsets_topic.wire_decoder_axioms],
     intro safe_reads dec_list_offsets_topic.rd_safe)

section \<open>The encoders produce the layouts and a client reads them back\<close>

interpretation fmt_record_error: wire_format write_record_error client_record_error record_error_bytes i32
  by unfold_locales
    (simp_all add: write_record_error_def client_record_error_def record_error_bytes_def
       wr_app rd_bind_at rd_at rd_return_def ok_opt_def,
     intro safe_reads)

interpretation fmt_aborted_transaction:
  wire_format write_aborted_transaction client_aborted_transaction aborted_transaction_bytes i64
  by unfold_locales
    (simp_all add: write_aborted_transaction_def client_aborted_transaction_def
       aborted_transaction_bytes_def wr_app rd_bind_at rd_at rd_return_def i64_def,
     intro safe_reads)

lemma aborted_transactions_app:
  "ok_opt (ok_array i64) v \<Longrightarrow>
   (case v of None \<Rightarrow> write_nullable_array_count (- 1) True
    | Some txns \<Rightarrow> write_seq [write_size txns, write_each write_aborted_transaction txns]) w =
   Inr (w @ aborted_transactions_bytes v)"
  by (cases v)
    (simp_all add: ok_opt_def aborted_transactions_bytes_def wr_app ok_array_def array_bytes_def
       fmt_aborted_transaction.write_each_enc)

lemma client_aborted_transactions_at:
  "ok_opt (ok_array i64) v \<Longrightarrow>
   client_aborted_transactions (reader_at pre (aborted_transactions_bytes v @ suf)) =
     Inr (v, reader_at (pre @ aborted_transactions_bytes v) suf)"
  by (cases v)
    (simp_all add: ok_opt_def aborted_transactions_bytes_def client_aborted_transactions_def
       rd_bind_at rd_at rd_return_def rd_count_negative ok_array_def array_bytes_def
       fmt_aborted_transaction.rd_count_enc)

lemma safe_client_aborted_transactions: "safe_read client_aborted_transactions"
  unfolding client_aborted_transactions_def by (intro safe_reads fmt_aborted_transaction.rd_safe)

lemma ok_opt_Some: "ok_opt p (Some x) = p x"
  by (simp add: ok_opt_def)

interpretation fmt_api_versions_api: wire_format write_api_versions_api client_api_versions_api api_versions_api_bytes ok_api_versions_api
  by unfold_locales
    (simp_all add: write_api_versions_api_def client_api_versions_api_def api_versions_api_bytes_def ok_api_versions_api_def
       wr_app rd_bind_at rd_at rd_return_def,
     intro safe_reads)

interpretation fmt_metadata_broker: wire_format write_metadata_broker client_metadata_broker metadata_broker_bytes ok_metadata_broker
  by unfold_locales
    (simp_all add: write_metadata_broker_def client_metadata_broker_def metadata_broker_bytes_def ok_metadata_broker_def
       wr_app rd_bind_at rd_at rd_return_def,
     intro safe_reads)

interpretation fmt_metadata_partition: wire_format write_metadata_partition client_metadata_partition metadata_partition_bytes ok_metadata_partition
  by unfold_locales
    (simp_all add: write_metadata_partition_def client_metadata_partition_def metadata_partition_bytes_def ok_metadata_partition_def
       wr_app rd_bind_at rd_at rd_return_def ok_array_def array_bytes_def
       fmt_int32.rd_count_enc fmt_int32.write_each_enc,
     intro safe_reads fmt_int32.rd_safe)

interpretation fmt_metadata_topic: wire_format write_metadata_topic client_metadata_topic metadata_topic_bytes ok_metadata_topic
  by unfold_locales
    (simp_all add: write_metadata_topic_def client_metadata_topic_def metadata_topic_bytes_def ok_metadata_topic_def
       wr_app rd_bind_at rd_at rd_return_def ok_array_def array_bytes_def
       fmt_metadata_partition.rd_count_enc fmt_metadata_partition.write_each_enc,
     intro safe_reads fmt_metadata_partition.rd_safe)

interpretation fmt_produce_partition: wire_format write_produce_partition client_produce_partition produce_partition_bytes ok_produce_partition
  by unfold_locales
    (simp_all add: write_produce_partition_def client_produce_partition_def produce_partition_bytes_def ok_produce_partition_def
       wr_app rd_bind_at rd_at rd_return_def ok_array_def array_bytes_def
       fmt_record_error.rd_count_enc fmt_record_error.write_each_enc,
     intro safe_reads fmt_record_error.rd_safe)

interpretation fmt_produce_topic: wire_format write_produce_topic client_produce_topic produce_topic_bytes ok_produce_topic
  by unfold_locales
    (simp_all add: write_produce_topic_def client_produce_topic_def produce_topic_bytes_def ok_produce_topic_def
       wr_app rd_bind_at rd_at rd_return_def ok_array_def array_bytes_def
       fmt_produce_partition.rd_count_enc fmt_produce_partition.write_each_enc,
     intro safe_reads fmt_produce_partition.rd_safe)

interpretation fmt_fetch_partition: wire_format write_fetch_partition client_fetch_partition fetch_partition_bytes ok_fetch_partition
  by unfold_locales
    (simp_all add: write_fetch_partition_def client_fetch_partition_def fetch_partition_bytes_def ok_fetch_partition_def
       wr_app rd_bind_at rd_at rd_return_def aborted_transactions_app client_aborted_transactions_at ok_opt_Some,
     intro safe_reads safe_client_aborted_transactions)

interpretation fmt_fetch_topic: wire_format write_fetch_topic client_fetch_topic fetch_topic_bytes ok_fetch_topic
  by unfold_locales
    (simp_all add: write_fetch_topic_def client_fetch_topic_def fetch_topic_bytes_def ok_fetch_topic_def
       wr_app rd_bind_at rd_at rd_return_def ok_array_def array_bytes_def
       fmt_fetch_partition.rd_count_enc fmt_fetch_partition.write_each_enc,
     intro safe_reads fmt_fetch_partition.rd_safe)

interpretation fmt_list_offsets_partition: wire_format write_list_offsets_partition client_list_offsets_partition list_offsets_partition_bytes ok_list_offsets_partition
  by unfold_locales
    (simp_all add: write_list_offsets_partition_def client_list_offsets_partition_def list_offsets_partition_bytes_def ok_list_offsets_partition_def
       wr_app rd_bind_at rd_at rd_return_def,
     intro safe_reads)

interpretation fmt_list_offsets_topic: wire_format write_list_offsets_topic client_list_offsets_topic list_offsets_topic_bytes ok_list_offsets_topic
  by unfold_locales
    (simp_all add: write_list_offsets_topic_def client_list_offsets_topic_def list_offsets_topic_bytes_def ok_list_offsets_topic_def
       wr_app rd_bind_at rd_at rd_return_def ok_array_def array_bytes_def
       fmt_list_offsets_partition.rd_count_enc fmt_list_offsets_partition.write_each_enc,
     intro safe_reads fmt_list_offsets_partition.rd_safe)

lemma encode_api_versions_response_eq: "ok_api_versions_response v \<Longrightarrow> encode_api_versions_response v = Inr (api_versions_response_bytes v)"
  by (simp add: encode_api_versions_response_def api_versions_response_bytes_def ok_api_versions_response_def wr_app ok_array_def array_bytes_def
      fmt_api_versions_api.write_each_enc)

interpretation dec_api_versions_response: wire_decoder client_api_versions_response api_versions_response_bytes ok_api_versions_response
  by unfold_locales
    (simp_all add: client_api_versions_response_def api_versions_response_bytes_def ok_api_versions_response_def rd_bind_at rd_at rd_return_def ok_array_def array_bytes_def
       fmt_api_versions_api.rd_count_enc,
     intro safe_reads fmt_api_versions_api.rd_safe)

lemma encode_metadata_response_eq: "ok_metadata_response v \<Longrightarrow> encode_metadata_response v = Inr (metadata_response_bytes v)"
  by (simp add: encode_metadata_response_def metadata_response_bytes_def ok_metadata_response_def wr_app ok_array_def array_bytes_def
      fmt_metadata_broker.write_each_enc fmt_metadata_topic.write_each_enc)

interpretation dec_metadata_response: wire_decoder client_metadata_response metadata_response_bytes ok_metadata_response
  by unfold_locales
    (simp_all add: client_metadata_response_def metadata_response_bytes_def ok_metadata_response_def rd_bind_at rd_at rd_return_def ok_array_def array_bytes_def
       fmt_metadata_broker.rd_count_enc fmt_metadata_topic.rd_count_enc,
     intro safe_reads fmt_metadata_broker.rd_safe fmt_metadata_topic.rd_safe)

lemma encode_produce_response_eq: "ok_produce_response v \<Longrightarrow> encode_produce_response v = Inr (produce_response_bytes v)"
  by (simp add: encode_produce_response_def produce_response_bytes_def ok_produce_response_def wr_app ok_array_def array_bytes_def
      fmt_produce_topic.write_each_enc)

interpretation dec_produce_response: wire_decoder client_produce_response produce_response_bytes ok_produce_response
  by unfold_locales
    (simp_all add: client_produce_response_def produce_response_bytes_def ok_produce_response_def rd_bind_at rd_at rd_return_def ok_array_def array_bytes_def
       fmt_produce_topic.rd_count_enc,
     intro safe_reads fmt_produce_topic.rd_safe)

lemma encode_fetch_response_eq: "ok_fetch_response v \<Longrightarrow> encode_fetch_response v = Inr (fetch_response_bytes v)"
  by (simp add: encode_fetch_response_def fetch_response_bytes_def ok_fetch_response_def wr_app ok_array_def array_bytes_def
      fmt_fetch_topic.write_each_enc)

interpretation dec_fetch_response: wire_decoder client_fetch_response fetch_response_bytes ok_fetch_response
  by unfold_locales
    (simp_all add: client_fetch_response_def fetch_response_bytes_def ok_fetch_response_def rd_bind_at rd_at rd_return_def ok_array_def array_bytes_def
       fmt_fetch_topic.rd_count_enc,
     intro safe_reads fmt_fetch_topic.rd_safe)

lemma encode_list_offsets_response_eq: "ok_list_offsets_response v \<Longrightarrow> encode_list_offsets_response v = Inr (list_offsets_response_bytes v)"
  by (simp add: encode_list_offsets_response_def list_offsets_response_bytes_def ok_list_offsets_response_def wr_app ok_array_def array_bytes_def
      fmt_list_offsets_topic.write_each_enc)

interpretation dec_list_offsets_response: wire_decoder client_list_offsets_response list_offsets_response_bytes ok_list_offsets_response
  by unfold_locales
    (simp_all add: client_list_offsets_response_def list_offsets_response_bytes_def ok_list_offsets_response_def rd_bind_at rd_at rd_return_def ok_array_def array_bytes_def
       fmt_list_offsets_topic.rd_count_enc,
     intro safe_reads fmt_list_offsets_topic.rd_safe)

section \<open>Properties\<close>

text \<open>
  C33: every well-typed Produce request, whatever its number of topics, partitions and record
  bytes, is decoded from its Kafka layout to itself, and the decoder stops at the end of it.
\<close>

theorem produce_request_round_trip:
  assumes "ok_produce_request q"
  shows "decode_produce_request (reader_at pre (produce_request_bytes q @ suf)) =
           Inr (q, reader_at (pre @ produce_request_bytes q) suf)"
  using assms by (rule dec_produce_request.rd_enc)

abbreviation sample_produce_request :: WireProduceRequest where
  "sample_produce_request \<equiv>
     \<lparr>pr_transactional_id = None, pr_acks = - 1, pr_timeout_ms = 30000,
      pr_topics = [\<lparr>prt_name = ''t'', prt_partitions =
        [\<lparr>prp_partition_index = 0, prp_records = [1, 2, 3]\<rparr>, \<lparr>prp_partition_index = 1, prp_records = []\<rparr>]\<rparr>]\<rparr>"

theorem produce_request_round_trip_witness:
  "decode_produce_request (reader_at [0] (produce_request_bytes sample_produce_request @ [5])) =
     Inr (sample_produce_request, reader_at ([0] @ produce_request_bytes sample_produce_request) [5])"
  by (rule produce_request_round_trip)
    (simp add: ok_produce_request_def ok_produce_request_topic_def ok_produce_request_partition_def
      ok_array_def ok_count_def ok_opt_def ok_compact_def i16_def i32_def)

text \<open>
  C34: every well-typed Fetch request is decoded from its Kafka layout to itself; the
  forgotten-topics section is skipped whatever it holds.
\<close>

theorem fetch_request_round_trip:
  assumes "ok_fetch_request q" and "ok_array ok_forgotten_topic forgotten"
  shows "decode_fetch_request (reader_at pre (fetch_request_bytes forgotten q @ suf)) =
           Inr (q, reader_at (pre @ fetch_request_bytes forgotten q) suf)"
  using assms by (rule decode_fetch_request_at)

abbreviation sample_fetch_request :: WireFetchRequest where
  "sample_fetch_request \<equiv>
     \<lparr>fr_replica_id = - 1, fr_max_wait_ms = 500, fr_min_bytes = 1, fr_max_bytes = 1048576,
      fr_isolation_level = 0, fr_session_id = 0, fr_session_epoch = - 1,
      fr_topics = [\<lparr>frt_topic = ''t'', frt_partitions =
        [\<lparr>frp_partition = 0, frp_current_leader_epoch = - 1, frp_fetch_offset = 42,
          frp_last_fetched_epoch = - 1, frp_log_start_offset = - 1, frp_partition_max_bytes = 65536\<rparr>]\<rparr>],
      fr_rack_id = ''''\<rparr>"

theorem fetch_request_round_trip_witness:
  "decode_fetch_request (reader_at [] (fetch_request_bytes [(''old'', [3, 4])] sample_fetch_request @ [])) =
     Inr (sample_fetch_request,
          reader_at ([] @ fetch_request_bytes [(''old'', [3, 4])] sample_fetch_request) [])"
  by (rule fetch_request_round_trip)
    (simp_all add: ok_fetch_request_def ok_fetch_request_topic_def ok_fetch_request_partition_def
      ok_forgotten_topic_def ok_array_def ok_count_def ok_compact_def i8_def i32_def i64_def)

text \<open>
  C35: Metadata and ListOffsets requests are decoded from their Kafka layout to themselves; a
  null topic array of Metadata becomes \<open>all_topics\<close> and an empty one does not.
\<close>

theorem metadata_list_offsets_request_round_trip:
  assumes "ok_metadata_request q" and "ok_list_offsets_request p"
  shows "decode_metadata_request (reader_at pre (metadata_request_bytes q @ suf)) =
           Inr (q, reader_at (pre @ metadata_request_bytes q) suf) \<and>
         decode_list_offsets_request (reader_at pre (list_offsets_request_bytes p @ suf)) =
           Inr (p, reader_at (pre @ list_offsets_request_bytes p) suf)"
  using assms dec_metadata_request.rd_enc dec_list_offsets_request.rd_enc by simp_all

abbreviation sample_metadata_request :: "bool \<Rightarrow> MetadataRequest" where
  "sample_metadata_request all \<equiv>
     \<lparr>mr_all_topics = all, mr_topics = [], mr_allow_auto_topic_creation = True,
      mr_include_cluster_authorized_operations = False, mr_include_topic_authorized_operations = False\<rparr>"

abbreviation sample_list_offsets_request :: ListOffsetsRequest where
  "sample_list_offsets_request \<equiv>
     \<lparr>lr_replica_id = - 1, lr_isolation_level = 0, lr_topics = [\<lparr>lrt_name = ''t'', lrt_partitions =
        [\<lparr>lrp_partition_index = 0, lrp_current_leader_epoch = 0, lrp_timestamp = - 2\<rparr>]\<rparr>]\<rparr>"

theorem metadata_list_offsets_request_round_trip_witness:
  "decode_metadata_request (reader_at [] (metadata_request_bytes (sample_metadata_request True) @ [])) =
     Inr (sample_metadata_request True, reader_at ([] @ metadata_request_bytes (sample_metadata_request True)) []) \<and>
   decode_metadata_request (reader_at [] (metadata_request_bytes (sample_metadata_request False) @ [])) =
     Inr (sample_metadata_request False, reader_at ([] @ metadata_request_bytes (sample_metadata_request False)) []) \<and>
   decode_list_offsets_request (reader_at [] (list_offsets_request_bytes sample_list_offsets_request @ [])) =
     Inr (sample_list_offsets_request, reader_at ([] @ list_offsets_request_bytes sample_list_offsets_request) [])"
  using metadata_list_offsets_request_round_trip
      [of "sample_metadata_request True" sample_list_offsets_request "[]" "[]"]
    metadata_list_offsets_request_round_trip
      [of "sample_metadata_request False" sample_list_offsets_request "[]" "[]"]
  by (simp add: ok_metadata_request_def ok_list_offsets_request_def ok_list_offsets_request_topic_def
      ok_list_offsets_request_partition_def ok_array_def ok_count_def ok_compact_def i8_def i32_def i64_def)

text \<open>
  C36: a Fetch response is encoded without error and a client reads the same response back,
  record bytes and null or present aborted transactions included.
\<close>

theorem fetch_response_round_trip:
  assumes "ok_fetch_response v"
  shows "\<exists>bs. encode_fetch_response v = Inr bs \<and>
           client_fetch_response (wire_reader_of bs) = Inr (v, reader_at bs [])"
  using dec_fetch_response.rd_enc_end [OF assms, of "[]"] encode_fetch_response_eq [OF assms]
  by (simp add: reader_at_Nil)

abbreviation sample_fetch_response :: FetchResponse where
  "sample_fetch_response \<equiv>
     \<lparr>fs_throttle_time_ms = 0, fs_error_code = 0, fs_session_id = 0,
      fs_topics = [\<lparr>fst_topic = ''t'', fst_partitions =
        [\<lparr>fsp_partition_index = 0, fsp_error_code = 0, fsp_high_watermark = 10, fsp_last_stable_offset = 10,
          fsp_log_start_offset = 0, fsp_aborted_transactions = None, fsp_preferred_read_replica = - 1,
          fsp_records = [1, 2, 3]\<rparr>,
         \<lparr>fsp_partition_index = 1, fsp_error_code = 1, fsp_high_watermark = 0, fsp_last_stable_offset = 0,
          fsp_log_start_offset = 0, fsp_aborted_transactions = Some [8], fsp_preferred_read_replica = - 1,
          fsp_records = []\<rparr>]\<rparr>]\<rparr>"

theorem fetch_response_round_trip_witness:
  "\<exists>bs. encode_fetch_response sample_fetch_response = Inr bs \<and>
        client_fetch_response (wire_reader_of bs) = Inr (sample_fetch_response, reader_at bs [])"
  by (rule fetch_response_round_trip)
    (simp add: ok_fetch_response_def ok_fetch_topic_def ok_fetch_partition_def ok_array_def ok_count_def
      ok_opt_def ok_compact_def i16_def i32_def i64_def)

text \<open>
  C37: Produce, Metadata, ListOffsets and ApiVersions responses are encoded without error and a
  client reads the same responses back.
\<close>

theorem responses_round_trip:
  assumes "ok_produce_response p" "ok_metadata_response m" "ok_list_offsets_response l"
    "ok_api_versions_response a"
  shows "\<exists>bp bm bl ba. encode_produce_response p = Inr bp \<and>
           client_produce_response (wire_reader_of bp) = Inr (p, reader_at bp []) \<and>
           encode_metadata_response m = Inr bm \<and>
           client_metadata_response (wire_reader_of bm) = Inr (m, reader_at bm []) \<and>
           encode_list_offsets_response l = Inr bl \<and>
           client_list_offsets_response (wire_reader_of bl) = Inr (l, reader_at bl []) \<and>
           encode_api_versions_response a = Inr ba \<and>
           client_api_versions_response (wire_reader_of ba) = Inr (a, reader_at ba [])"
  using dec_produce_response.rd_enc_end [OF assms(1), of "[]"] encode_produce_response_eq [OF assms(1)]
    dec_metadata_response.rd_enc_end [OF assms(2), of "[]"] encode_metadata_response_eq [OF assms(2)]
    dec_list_offsets_response.rd_enc_end [OF assms(3), of "[]"] encode_list_offsets_response_eq [OF assms(3)]
    dec_api_versions_response.rd_enc_end [OF assms(4), of "[]"] encode_api_versions_response_eq [OF assms(4)]
  by (simp add: reader_at_Nil)

abbreviation sample_metadata_response :: MetadataResponse where
  "sample_metadata_response \<equiv>
     \<lparr>ms_throttle_time_ms = 0,
      ms_brokers = [\<lparr>mb_node_id = 0, mb_host = ''h'', mb_port = 9092, mb_rack = None\<rparr>],
      ms_cluster_id = Some ''mkmq'', ms_controller_id = 0,
      ms_topics = [\<lparr>mt_error_code = 0, mt_name = ''t'', mt_is_internal = False, mt_partitions =
        [\<lparr>mp_error_code = 0, mp_partition_index = 0, mp_leader_id = 0, mp_leader_epoch = 0,
          mp_replica_nodes = [0, 1], mp_isr_nodes = [0], mp_offline_replicas = []\<rparr>],
        mt_topic_authorized_operations = - 2147483648\<rparr>],
      ms_cluster_authorized_operations = - 2147483648\<rparr>"

abbreviation sample_produce_response :: ProduceResponse where
  "sample_produce_response \<equiv>
     \<lparr>ps_topics = [\<lparr>pst_name = ''t'', pst_partitions =
        [\<lparr>psp_partition_index = 0, psp_error_code = 0, psp_base_offset = 7, psp_log_append_time_ms = - 1,
          psp_log_start_offset = 0, psp_record_errors = [1], psp_error_message = None\<rparr>]\<rparr>],
      ps_throttle_time_ms = 0\<rparr>"

theorem responses_round_trip_witness:
  "\<exists>bp bm bl ba. encode_produce_response sample_produce_response = Inr bp \<and>
     client_produce_response (wire_reader_of bp) = Inr (sample_produce_response, reader_at bp []) \<and>
     encode_metadata_response sample_metadata_response = Inr bm \<and>
     client_metadata_response (wire_reader_of bm) = Inr (sample_metadata_response, reader_at bm []) \<and>
     encode_list_offsets_response \<lparr>ls_throttle_time_ms = 0, ls_topics = []\<rparr> = Inr bl \<and>
     client_list_offsets_response (wire_reader_of bl) =
       Inr (\<lparr>ls_throttle_time_ms = 0, ls_topics = []\<rparr>, reader_at bl []) \<and>
     encode_api_versions_response \<lparr>av_error_code = 0, av_api_keys = [], av_throttle_time_ms = 0\<rparr> = Inr ba \<and>
     client_api_versions_response (wire_reader_of ba) =
       Inr (\<lparr>av_error_code = 0, av_api_keys = [], av_throttle_time_ms = 0\<rparr>, reader_at ba [])"
  by (rule responses_round_trip)
    (simp_all add: ok_produce_response_def ok_produce_topic_def ok_produce_partition_def
      ok_metadata_response_def ok_metadata_broker_def ok_metadata_topic_def ok_metadata_partition_def
      ok_list_offsets_response_def ok_api_versions_response_def ok_array_def ok_count_def
      ok_opt_def ok_compact_def i16_def i32_def i64_def)

text \<open>
  C32: on any reader that is within its buffer, hence on any bytes a client can send, each request
  decoder either fails with an error value or returns a request; it never reads outside the
  buffer, never changes it and never moves backwards.
\<close>

theorem request_decoders_memory_safe:
  "safe_read decode_produce_request \<and> safe_read decode_fetch_request \<and>
   safe_read decode_metadata_request \<and> safe_read decode_list_offsets_request"
  by (intro conjI dec_produce_request.rd_safe dec_fetch_request.rd_safe dec_metadata_request.rd_safe
      dec_list_offsets_request.rd_safe)

end
