(* ===== verification/Kafka_Protocol.thy ===== *)
theory Kafka_Protocol
  imports Kafka_Codec Api Broker_Detail Record_Batch "HOL-Library.Char_ord" "HOL-Library.List_Lexorder"
begin

text \<open>
  \<^verbatim>\<open>src/kafka_protocol.cpp\<close>: the adapters between the wire structs and the requests and results of
  the broker, and \<^verbatim>\<open>handle_frame\<close>, which parses a frame, runs the operation and frames the answer.
  The operations of the broker are arguments; \<open>Broker_Front\<close> supplies those of the shard. A
  request whose handling throws at once is told apart from one whose future fails.
\<close>

section \<open>Version and metadata answers\<close>

definition kNoAuthorizedOps :: int where
  "kNoAuthorizedOps = - 2147483648"

definition api_versions_response :: "ErrorCode \<Rightarrow> ApiVersionsResponse" where
  "api_versions_response err =
     \<lparr>av_error_code = error_id err,
      av_api_keys = map (\<lambda>api. \<lparr>ava_api_key = fixed_api_key api, ava_min_version = fixed_min_version api,
                                ava_max_version = fixed_max_version api\<rparr>) fixed_kafka_apis,
      av_throttle_time_ms = 0\<rparr>"

definition requested_topic :: "TopicConfig list \<Rightarrow> MetadataRequestTopic \<Rightarrow> TopicConfig" where
  "requested_topic topics requested =
     (case List.find (\<lambda>configured. tc_name configured = mrt_name requested) topics of
        Some configured \<Rightarrow> configured
      | None \<Rightarrow> \<lparr>tc_name = mrt_name requested, tc_partitions = []\<rparr>)"

definition metadata_topic :: "TopicConfig \<Rightarrow> MetadataResponseTopic" where
  "metadata_topic topic =
     (let missing = (tc_partitions topic = [])
      in \<lparr>mt_error_code = (if missing then error_id UnknownTopicOrPartition else 0),
          mt_name = tc_name topic, mt_is_internal = False,
          mt_partitions = map (\<lambda>q.
            \<lparr>mp_error_code = (if missing then error_id UnknownTopicOrPartition else 0),
             mp_partition_index = pc_partition q, mp_leader_id = (if missing then - 1 else pc_leader q),
             mp_leader_epoch = 0, mp_replica_nodes = pc_replicas q, mp_isr_nodes = pc_isr q,
             mp_offline_replicas = []\<rparr>) (tc_partitions topic),
          mt_topic_authorized_operations = kNoAuthorizedOps\<rparr>)"

definition metadata_response :: "BrokerConfig \<Rightarrow> MetadataRequest \<Rightarrow> MetadataResponse" where
  "metadata_response config request =
     \<lparr>ms_throttle_time_ms = 0,
      ms_brokers = map (\<lambda>node. \<lparr>mb_node_id = be_id node, mb_host = be_kafka_host node,
                                mb_port = int (be_kafka_port node), mb_rack = None\<rparr>) (bc_brokers config),
      ms_cluster_id = Some ''mkmq-cluster'', ms_controller_id = bc_node_id config,
      ms_topics = map metadata_topic
        (if mr_all_topics request then bc_topics config else map (requested_topic (bc_topics config)) (mr_topics request)),
      ms_cluster_authorized_operations = kNoAuthorizedOps\<rparr>"

section \<open>Produce\<close>

record ProduceRequest =
  pq_acks :: int
  pq_timeout_ms :: int
  pq_rejected_error_code :: int
  pq_partitions :: "ProducePartitionRequest list"

text \<open>The pairs that the two nested loops over topics and partitions visit.\<close>

definition topic_partitions :: "('t \<Rightarrow> string) \<Rightarrow> ('t \<Rightarrow> 'p list) \<Rightarrow> 't list \<Rightarrow> (string \<times> 'p) list" where
  "topic_partitions name ps ts = concat (map (\<lambda>t. map (Pair (name t)) (ps t)) ts)"

definition add_produce_partition ::
    "string \<times> ProduceRequestPartition \<Rightarrow> ProduceRequest \<Rightarrow> ProduceRequest result" where
  "add_produce_partition = (\<lambda>(topic, wire_partition) request.
     let q = \<lparr>ppq_topic = topic, ppq_partition = prp_partition_index wire_partition,
              ppq_records = prp_records wire_partition\<rparr>
     in rbind (if pq_rejected_error_code request = 0 then has_idempotent_record_batch (ppq_records q) else Inr False)
          (\<lambda>idempotent. Inr (request\<lparr>
             pq_rejected_error_code := (if idempotent then error_id InvalidRequest else pq_rejected_error_code request),
             pq_partitions := pq_partitions request @ [q]\<rparr>)))"

definition to_broker_produce_request :: "WireProduceRequest \<Rightarrow> ProduceRequest result" where
  "to_broker_produce_request wire =
     foldR add_produce_partition (topic_partitions prt_name prt_partitions (pr_topics wire))
       \<lparr>pq_acks = pr_acks wire, pq_timeout_ms = pr_timeout_ms wire,
        pq_rejected_error_code = (if pr_transactional_id wire \<noteq> None then error_id InvalidRequest else 0),
        pq_partitions = []\<rparr>"

definition rejected_produce_results :: "ProduceRequest \<Rightarrow> ProducePartitionResult list" where
  "rejected_produce_results request =
     map (\<lambda>q. \<lparr>ppr_topic = ppq_topic q, ppr_partition = ppq_partition q,
               ppr_error_code = pq_rejected_error_code request, ppr_base_offset = 0, ppr_log_end_offset = 0,
               ppr_log_start_offset = 0\<rparr>) (pq_partitions request)"

text \<open>\<^verbatim>\<open>grouped[key].push_back(x)\<close> on a \<^verbatim>\<open>std::map\<close>, whose iteration is in key order.\<close>

fun group_push :: "string \<Rightarrow> 'a \<Rightarrow> (string \<times> 'a list) list \<Rightarrow> (string \<times> 'a list) list" where
  "group_push key x [] = [(key, [x])]"
| "group_push key x ((k, xs) # groups) =
     (if key = k then (k, xs @ [x]) # groups
      else if key < k then (key, [x]) # (k, xs) # groups
      else (k, xs) # group_push key x groups)"

definition grouped :: "('a \<Rightarrow> string) \<Rightarrow> 'a list \<Rightarrow> (string \<times> 'a list) list" where
  "grouped key xs = fold (\<lambda>x. group_push (key x) x) xs []"

definition produce_response :: "ProducePartitionResult list \<Rightarrow> ProduceResponse" where
  "produce_response responses =
     \<lparr>ps_topics = map (\<lambda>(topic, ps). \<lparr>pst_name = topic, pst_partitions = map (\<lambda>q.
          \<lparr>psp_partition_index = ppr_partition q, psp_error_code = ppr_error_code q,
           psp_base_offset = ppr_base_offset q, psp_log_append_time_ms = - 1,
           psp_log_start_offset = ppr_log_start_offset q, psp_record_errors = [], psp_error_message = None\<rparr>) ps\<rparr>)
        (grouped ppr_topic responses),
      ps_throttle_time_ms = 0\<rparr>"

section \<open>Fetch and list offsets\<close>

definition to_broker_fetch_request :: "WireFetchRequest \<Rightarrow> FetchPartitionRequest list" where
  "to_broker_fetch_request wire =
     map (\<lambda>(topic, wire_partition).
       \<lparr>fpq_topic = topic, fpq_partition = frp_partition wire_partition,
        fpq_offset = frp_fetch_offset wire_partition, fpq_max_wait_ms = fr_max_wait_ms wire,
        fpq_min_bytes = fr_min_bytes wire,
        fpq_max_bytes = (if frp_partition_max_bytes wire_partition \<le> 0 then fr_max_bytes wire
                         else frp_partition_max_bytes wire_partition)\<rparr>)
       (topic_partitions frt_topic frt_partitions (fr_topics wire))"

definition fetch_response :: "(FetchPartitionRequest \<times> FetchPartitionResult) list \<Rightarrow> FetchResponse" where
  "fetch_response responses =
     \<lparr>fs_throttle_time_ms = 0, fs_error_code = 0, fs_session_id = 0,
      fs_topics = map (\<lambda>(topic, ps). \<lparr>fst_topic = topic, fst_partitions = map (\<lambda>(request, result).
          \<lparr>fsp_partition_index = fpq_partition request, fsp_error_code = fpr_error_code result,
           fsp_high_watermark = fpr_high_watermark result, fsp_last_stable_offset = fpr_high_watermark result,
           fsp_log_start_offset = fpr_log_start_offset result, fsp_aborted_transactions = None,
           fsp_preferred_read_replica = - 1, fsp_records = fpr_records result\<rparr>) ps\<rparr>)
        (grouped (\<lambda>x. fpq_topic (fst x)) responses)\<rparr>"

definition to_broker_list_offsets_request :: "ListOffsetsRequest \<Rightarrow> ListOffsetPartitionRequest list" where
  "to_broker_list_offsets_request wire =
     map (\<lambda>(topic, wire_partition).
       \<lparr>lpq_topic = topic, lpq_partition = lrp_partition_index wire_partition,
        lpq_timestamp = lrp_timestamp wire_partition\<rparr>)
       (topic_partitions lrt_name lrt_partitions (lr_topics wire))"

definition list_offsets_response :: "ListOffsetPartitionResult list \<Rightarrow> ListOffsetsResponse" where
  "list_offsets_response responses =
     \<lparr>ls_throttle_time_ms = 0,
      ls_topics = map (\<lambda>(topic, ps). \<lparr>lst_name = topic, lst_partitions = map (\<lambda>q.
          \<lparr>lsp_partition_index = lpr_partition q, lsp_error_code = lpr_error_code q, lsp_timestamp = - 1,
           lsp_offset = lpr_selected q, lsp_leader_epoch = 0\<rparr>) ps\<rparr>)
        (grouped lpr_topic responses)\<rparr>"

section \<open>Frames\<close>

text \<open>\<^verbatim>\<open>seastar::do_for_each\<close> with the results pushed back; a failed future ends the loop.\<close>

fun do_for_each :: "('a \<Rightarrow> 's \<Rightarrow> ('b result \<times> 's) option) \<Rightarrow> 'a list \<Rightarrow> 's \<Rightarrow> ('b list result \<times> 's) option" where
  "do_for_each f [] s = Some (Inr [], s)"
| "do_for_each f (x # xs) s =
     (case f x s of
        None \<Rightarrow> None
      | Some (Inl e, s1) \<Rightarrow> Some (Inl e, s1)
      | Some (Inr y, s1) \<Rightarrow> map_option (\<lambda>(r, s2). (rbind r (\<lambda>ys. Inr (y # ys)), s2)) (do_for_each f xs s1))"

definition framed :: "RequestHeader \<Rightarrow> bytes result \<Rightarrow> bytes option result" where
  "framed header body = rbind body (\<lambda>b. rbind (make_response_frame header b) (\<lambda>frame. Inr (Some frame)))"

text \<open>An answer that is computed before a future exists, and one that a continuation computes.\<close>

abbreviation at_once :: "'a result \<Rightarrow> 's \<Rightarrow> ('a result result \<times> 's) option" where
  "at_once r s \<equiv> Some (rbind r (\<lambda>x. Inr (Inr x)), s)"

abbreviation later :: "('a result \<times> 's) option \<Rightarrow> ('a \<Rightarrow> 'b result) \<Rightarrow> ('b result result \<times> 's) option" where
  "later m f \<equiv> map_option (\<lambda>(r, s). (Inr (rbind r f), s)) m"

definition handle_produce ::
    "(ProducePartitionRequest \<Rightarrow> int \<Rightarrow> int \<Rightarrow> 's \<Rightarrow> (ProducePartitionResult result \<times> 's) option) \<Rightarrow>
     RequestHeader \<Rightarrow> wire_reader \<Rightarrow> 's \<Rightarrow> (bytes option result result \<times> 's) option" where
  "handle_produce append_op header reader s =
     (case rbind (decode_produce_request reader) (\<lambda>(wire, _). to_broker_produce_request wire) of
        Inl e \<Rightarrow> Some (Inl e, s)
      | Inr request \<Rightarrow>
          if pq_rejected_error_code request \<noteq> 0 then
            if pq_acks request = 0 then at_once (Inr None) s
            else at_once (framed header (encode_produce_response (produce_response (rejected_produce_results request)))) s
          else later (do_for_each (\<lambda>q. append_op q (pq_acks request) (pq_timeout_ms request)) (pq_partitions request) s)
                 (\<lambda>results. if pq_acks request = 0 then Inr None
                            else framed header (encode_produce_response (produce_response results))))"

definition handle_fetch ::
    "(FetchPartitionRequest \<Rightarrow> 's \<Rightarrow> (FetchPartitionResult result \<times> 's) option) \<Rightarrow>
     RequestHeader \<Rightarrow> wire_reader \<Rightarrow> 's \<Rightarrow> (bytes option result result \<times> 's) option" where
  "handle_fetch fetch_op header reader s =
     (case decode_fetch_request reader of
        Inl e \<Rightarrow> Some (Inl e, s)
      | Inr (wire, _) \<Rightarrow>
          later (do_for_each (\<lambda>q s0. map_option (\<lambda>(r, s1). (rbind r (\<lambda>result. Inr (q, result)), s1)) (fetch_op q s0))
                   (to_broker_fetch_request wire) s)
            (\<lambda>results. framed header (encode_fetch_response (fetch_response results))))"

definition handle_list_offsets ::
    "(ListOffsetPartitionRequest \<Rightarrow> 's \<Rightarrow> (ListOffsetPartitionResult result \<times> 's) option) \<Rightarrow>
     RequestHeader \<Rightarrow> wire_reader \<Rightarrow> 's \<Rightarrow> (bytes option result result \<times> 's) option" where
  "handle_list_offsets list_op header reader s =
     (case decode_list_offsets_request reader of
        Inl e \<Rightarrow> Some (Inl e, s)
      | Inr (wire, _) \<Rightarrow>
          later (do_for_each list_op (to_broker_list_offsets_request wire) s)
            (\<lambda>results. framed header (encode_list_offsets_response (list_offsets_response results))))"

definition handle_frame ::
    "BrokerConfig \<Rightarrow>
     (ProducePartitionRequest \<Rightarrow> int \<Rightarrow> int \<Rightarrow> 's \<Rightarrow> (ProducePartitionResult result \<times> 's) option) \<Rightarrow>
     (FetchPartitionRequest \<Rightarrow> 's \<Rightarrow> (FetchPartitionResult result \<times> 's) option) \<Rightarrow>
     (ListOffsetPartitionRequest \<Rightarrow> 's \<Rightarrow> (ListOffsetPartitionResult result \<times> 's) option) \<Rightarrow>
     bytes \<Rightarrow> 's \<Rightarrow> (bytes option result result \<times> 's) option" where
  "handle_frame config append_op fetch_op list_op payload s =
     (case parse_request_header (wire_reader_of payload) of
        Inl e \<Rightarrow> Some (Inl e, s)
      | Inr (header, reader) \<Rightarrow>
          if hdr_api_key header = ApiVersions then
            at_once (framed header (encode_api_versions_response (api_versions_response
              (if is_supported ApiVersions (hdr_api_version header) then ErrNone else UnsupportedVersion)))) s
          else if \<not> is_supported (hdr_api_key header) (hdr_api_version header) then
            Some (Inl (ProtocolError (''unsupported fixed Kafka API version for '' @ api_name (hdr_api_key header))), s)
          else case hdr_api_key header of
                 Metadata \<Rightarrow>
                   at_once (rbind (decode_metadata_request reader) (\<lambda>(request, _).
                     framed header (encode_metadata_response (metadata_response config request)))) s
               | Produce \<Rightarrow> handle_produce append_op header reader s
               | Fetch \<Rightarrow> handle_fetch fetch_op header reader s
               | ListOffsets \<Rightarrow> handle_list_offsets list_op header reader s
               | _ \<Rightarrow> Some (Inl (ProtocolError ''Kafka API is outside the fixed first release scope''), s))"

end
