(* ===== verification/Broker_Front.thy ===== *)
theory Broker_Front
  imports Broker_Properties Kafka_Protocol "HOL-Library.Multiset"
begin

text \<open>
  Where clients meet the broker: the loop that reads frames from a connection, the request
  handler of the shard with its counters, and what a client gets back. The bytes that a client
  will ever send are the argument of a connection; a read at the end of them comes back short.
\<close>

section \<open>A request\<close>

definition handle_kafka_frame ::
    "nat \<Rightarrow> 'w net \<Rightarrow> bool \<Rightarrow> (BrokerShard \<times> 'w \<Rightarrow> BrokerShard \<times> 'w) \<Rightarrow> nat \<Rightarrow> nat \<Rightarrow> bytes \<Rightarrow>
     BrokerShard list \<times> 'w \<Rightarrow> (bytes option result \<times> BrokerShard list \<times> 'w) option" where
  "handle_kafka_frame dma net late meanwhile fuel i payload = (\<lambda>(node, w).
     let node1 = node[i := (node ! i)\<lparr>bs_kafka_requests := bs_kafka_requests (node ! i) + 1\<rparr>]
     in case handle_frame (bs_config (node1 ! i))
               (\<lambda>q acks timeout_ms. append_shard dma net late fuel i q acks timeout_ms)
               (fetch_shard meanwhile fuel i) (list_offsets_shard fuel i) payload (node1, w) of
          None \<Rightarrow> None
        | Some (Inl e, st) \<Rightarrow> Some (Inl e, st)
        | Some (Inr (Inr response), st) \<Rightarrow> Some (Inr response, st)
        | Some (Inr (Inl e), node2, w2) \<Rightarrow>
            Some (Inl e, node2[i := (node2 ! i)\<lparr>bs_kafka_errors := bs_kafka_errors (node2 ! i) + 1\<rparr>], w2))"

section \<open>A connection\<close>

definition kMaxKafkaFrameBytes :: int where
  "kMaxKafkaFrameBytes = 100 * 1024 * 1024"

text \<open>
  \<open>stopping\<close> and \<open>serve\<close> are those of the shard; \<open>send\<close> says whether the next response can still be
  written after those before. The result is what has been written and the state at the end.
\<close>

function handle_connection ::
    "('s \<Rightarrow> bool) \<Rightarrow> (bytes \<Rightarrow> 's \<Rightarrow> (bytes option result \<times> 's) option) \<Rightarrow> (bytes list \<Rightarrow> bytes \<Rightarrow> bool) \<Rightarrow>
     bytes \<Rightarrow> bytes list \<Rightarrow> 's \<Rightarrow> (bytes list \<times> 's) option" where
  "handle_connection stopping serve send input out s =
     (if stopping s then Some (out, s)
      else if length (take 4 input) \<noteq> 4 then Some (out, s)
      else let frame_size = decode_frame_size (take 4 input)
           in if frame_size \<le> 0 \<or> frame_size > kMaxKafkaFrameBytes then Some (out, s)
              else let frame = take (nat frame_size) (drop 4 input)
                   in if length frame \<noteq> nat frame_size then Some (out, s)
                      else case serve frame s of
                             None \<Rightarrow> None
                           | Some (Inl e, s1) \<Rightarrow> Some (out, s1)
                           | Some (Inr None, s1) \<Rightarrow>
                               handle_connection stopping serve send (drop (4 + nat frame_size) input) out s1
                           | Some (Inr (Some response), s1) \<Rightarrow>
                               if \<not> send out response then Some (out, s1)
                               else handle_connection stopping serve send (drop (4 + nat frame_size) input) (out @ [response]) s1)"
  by pat_completeness auto
termination
  by (relation "measure (\<lambda>(stopping, serve, send, input, out, s). length input)") (auto simp: min_def split: if_splits)

declare handle_connection.simps [simp del]

text \<open>Connections one after the other; with the gate closed an accepted one is dropped.\<close>

fun accept_loop ::
    "('s \<Rightarrow> bool) \<Rightarrow> (bytes \<Rightarrow> 's \<Rightarrow> (bytes list \<times> 's) option) \<Rightarrow> bytes list \<Rightarrow> 's \<Rightarrow> (bytes list list \<times> 's) option" where
  "accept_loop closed connection [] s = Some ([], s)"
| "accept_loop closed connection (input # inputs) s =
     (if closed s then map_option (\<lambda>(outs, s1). ([] # outs, s1)) (accept_loop closed connection inputs s)
      else case connection input s of
             None \<Rightarrow> None
           | Some (out, s1) \<Rightarrow> map_option (\<lambda>(outs, s2). (out # outs, s2)) (accept_loop closed connection inputs s1))"

section \<open>Frames in, frames out\<close>

text \<open>What a connection is for: serve the frames in order, until one fails or the broker stops.\<close>

fun serve_frames ::
    "('s \<Rightarrow> bool) \<Rightarrow> (bytes \<Rightarrow> 's \<Rightarrow> (bytes option result \<times> 's) option) \<Rightarrow> bytes list \<Rightarrow> 's \<Rightarrow> (bytes list \<times> 's) option" where
  "serve_frames stopping serve [] s = Some ([], s)"
| "serve_frames stopping serve (p # ps) s =
     (if stopping s then Some ([], s)
      else case serve p s of
             None \<Rightarrow> None
           | Some (Inl e, s1) \<Rightarrow> Some ([], s1)
           | Some (Inr response, s1) \<Rightarrow>
               map_option (\<lambda>(rs, s2). ((case response of None \<Rightarrow> rs | Some r \<Rightarrow> r # rs), s2)) (serve_frames stopping serve ps s1))"

definition request_frame :: "bytes \<Rightarrow> bytes" where
  "request_frame payload = be32 (int (length payload)) @ payload"

definition frame_fits :: "bytes \<Rightarrow> bool" where
  "frame_fits payload \<longleftrightarrow> 0 < length payload \<and> int (length payload) \<le> kMaxKafkaFrameBytes"

lemma handle_connection_frame:
  assumes "frame_fits p" "\<not> stopping s"
  shows "handle_connection stopping serve send (request_frame p @ rest) out s =
    (case serve p s of
       None \<Rightarrow> None
     | Some (Inl e, s1) \<Rightarrow> Some (out, s1)
     | Some (Inr None, s1) \<Rightarrow> handle_connection stopping serve send rest out s1
     | Some (Inr (Some response), s1) \<Rightarrow>
         if \<not> send out response then Some (out, s1) else handle_connection stopping serve send rest (out @ [response]) s1)"
proof -
  have "i32 (int (length p))" using assms(1) by (simp add: frame_fits_def kMaxKafkaFrameBytes_def i32_def)
  then have size: "decode_frame_size (take 4 (request_frame p @ rest)) = int (length p)"
    by (simp add: request_frame_def decode_frame_size_be32)
  have parts: "length (take 4 (request_frame p @ rest)) = 4" "take (length p) (drop 4 (request_frame p @ rest)) = p"
    "drop (4 + length p) (request_frame p @ rest) = rest" by (simp_all add: request_frame_def)
  have guards: "\<not> (int (length p) \<le> 0 \<or> int (length p) > kMaxKafkaFrameBytes)" using assms(1) by (simp add: frame_fits_def)
  show ?thesis
    by (subst handle_connection.simps) (unfold Let_def size nat_int parts, use assms(2) guards in simp)
qed

text \<open>
  C9: on the frames of any requests, each between one byte and 100 MiB, followed by the end of the
  stream, a connection serves every request in order, the first one that fails ending it, and
  writes the responses in the order of the requests. The loop ends for every input: each round
  takes at least five bytes.
\<close>

theorem connection_serves_in_order:
  assumes "\<forall>p\<in>set ps. frame_fits p" "length rest < 4"
  shows "handle_connection stopping serve (\<lambda>_ _. True) (concat (map request_frame ps) @ rest) out s =
    map_option (\<lambda>(responses, s1). (out @ responses, s1)) (serve_frames stopping serve ps s)"
  using assms(1)
proof (induction ps arbitrary: out s)
  case Nil
  then show ?case using assms(2) by (subst handle_connection.simps) simp
next
  case (Cons p ps)
  show ?case
  proof (cases "stopping s")
    case True
    then show ?thesis by (subst handle_connection.simps) simp
  next
    case False
    have fits: "frame_fits p" and ih: "\<forall>p\<in>set ps. frame_fits p" using Cons.prems by simp_all
    have split_first: "concat (map request_frame (p # ps)) @ rest = request_frame p @ concat (map request_frame ps) @ rest" by simp
    have "handle_connection stopping serve (\<lambda>_ _. True) (concat (map request_frame (p # ps)) @ rest) out s =
        (case serve p s of
           None \<Rightarrow> None
         | Some (Inl e, s1) \<Rightarrow> Some (out, s1)
         | Some (Inr None, s1) \<Rightarrow> map_option (\<lambda>(rs, s2). (out @ rs, s2)) (serve_frames stopping serve ps s1)
         | Some (Inr (Some r), s1) \<Rightarrow> map_option (\<lambda>(rs, s2). ((out @ [r]) @ rs, s2)) (serve_frames stopping serve ps s1))"
      unfolding split_first handle_connection_frame [of p stopping s, OF fits False] Cons.IH [OF ih] if_True not_True_eq_False if_False ..
    with False show ?thesis
      by (auto simp: option.map_comp comp_def case_prod_unfold split: option.splits sum.splits)
  qed
qed

theorem connection_serves_in_order_witness:
  "handle_connection (\<lambda>n. n = (9 :: nat)) (\<lambda>p n. Some (Inr (if n = 0 then None else Some (rev p)), n + 1)) (\<lambda>_ _. True)
     (request_frame [1, 2] @ request_frame [3, 4, 5] @ [7]) [] 0 = Some ([[5, 4, 3]], 2)"
  using connection_serves_in_order [of "[[1, 2], [3, 4, 5]]" "[7]" "\<lambda>n. n = (9 :: nat)"
      "\<lambda>p n. Some (Inr (if n = 0 then None else Some (rev p)), n + 1)" "[]" 0]
  by (simp add: frame_fits_def kMaxKafkaFrameBytes_def)

section \<open>Grouping results by topic\<close>

lemma group_push_keys:
  "sorted_wrt (<) (map fst gs) \<Longrightarrow> sorted_wrt (<) (map fst (group_push key x gs)) \<and>
     set (map fst (group_push key x gs)) = insert key (set (map fst gs))"
proof (induction key x gs rule: group_push.induct)
  case (2 key x k xs gs)
  then show ?case by (auto simp: not_less order.strict_iff_order intro: order.strict_trans)
qed simp

lemma group_push_lookup:
  "sorted_wrt (<) (map fst gs) \<Longrightarrow> map_of (group_push key x gs) =
     (map_of gs)(key \<mapsto> (case map_of gs key of None \<Rightarrow> [x] | Some xs \<Rightarrow> xs @ [x]))"
proof (induction key x gs rule: group_push.induct)
  case (2 key x k xs gs)
  have "map_of gs key = None" if "key < k"
    using 2(2) that by (auto simp: map_of_eq_None_iff dest: order.strict_trans)
  with 2 show ?case by (auto simp: fun_eq_iff split: option.splits)
qed simp

lemma grouped_spec:
  "sorted_wrt (<) (map fst (grouped key xs)) \<and> set (map fst (grouped key xs)) = key ` set xs \<and>
   map_of (grouped key xs) = (\<lambda>k. if k \<in> key ` set xs then Some (filter (\<lambda>x. key x = k) xs) else None)"
proof (induction xs rule: rev_induct)
  case Nil
  then show ?case by (simp add: grouped_def fun_eq_iff)
next
  case (snoc x xs)
  have push: "grouped key (xs @ [x]) = group_push (key x) x (grouped key xs)" by (simp add: grouped_def)
  have "filter (\<lambda>y. key y = key x) xs = []" if "key x \<notin> key ` set xs"
    using that by (metis (mono_tags, lifting) filter_False imageI)
  with snoc group_push_keys [of "grouped key xs" "key x" x] group_push_lookup [of "grouped key xs" "key x" x]
  show ?case by (auto simp: push fun_eq_iff)
qed

lemma grouped_group:
  assumes "(k, ys) \<in> set (grouped key xs)"
  shows "ys = filter (\<lambda>x. key x = k) xs"
proof -
  have "distinct (map fst (grouped key xs))"
    using grouped_spec [of key xs] strict_sorted_iff by blast
  then have "map_of (grouped key xs) k = Some ys" using assms by simp
  then show ?thesis using grouped_spec [of key xs] by (simp split: if_splits)
qed

text \<open>
  C10: the three responses group the results by topic: the topics are strictly ordered, hence none
  appears twice, they are exactly the topics of the results, and under each topic are the
  results of that topic in their order, field by field.
\<close>

theorem responses_group_by_topic:
  "sorted_wrt (<) (map pst_name (ps_topics (produce_response ps))) \<and>
   set (map pst_name (ps_topics (produce_response ps))) = ppr_topic ` set ps \<and>
   (\<forall>t\<in>set (ps_topics (produce_response ps)).
      map (\<lambda>y. (psp_partition_index y, psp_error_code y, psp_base_offset y)) (pst_partitions t) =
      map (\<lambda>y. (ppr_partition y, ppr_error_code y, ppr_base_offset y)) (filter (\<lambda>y. ppr_topic y = pst_name t) ps)) \<and>
   sorted_wrt (<) (map fst_topic (fs_topics (fetch_response fs))) \<and>
   set (map fst_topic (fs_topics (fetch_response fs))) = (\<lambda>x. fpq_topic (fst x)) ` set fs \<and>
   (\<forall>t\<in>set (fs_topics (fetch_response fs)).
      map (\<lambda>y. (fsp_partition_index y, fsp_error_code y, fsp_high_watermark y, fsp_records y)) (fst_partitions t) =
      map (\<lambda>(q, y). (fpq_partition q, fpr_error_code y, fpr_high_watermark y, fpr_records y))
        (filter (\<lambda>x. fpq_topic (fst x) = fst_topic t) fs)) \<and>
   sorted_wrt (<) (map lst_name (ls_topics (list_offsets_response ls))) \<and>
   set (map lst_name (ls_topics (list_offsets_response ls))) = lpr_topic ` set ls \<and>
   (\<forall>t\<in>set (ls_topics (list_offsets_response ls)).
      map (\<lambda>y. (lsp_partition_index y, lsp_error_code y, lsp_offset y)) (lst_partitions t) =
      map (\<lambda>y. (lpr_partition y, lpr_error_code y, lpr_selected y)) (filter (\<lambda>y. lpr_topic y = lst_name t) ls))"
proof -
  have p: "map pst_name (ps_topics (produce_response ps)) = map fst (grouped ppr_topic ps)"
    and f: "map fst_topic (fs_topics (fetch_response fs)) = map fst (grouped (\<lambda>x. fpq_topic (fst x)) fs)"
    and l: "map lst_name (ls_topics (list_offsets_response ls)) = map fst (grouped lpr_topic ls)"
    by (simp_all add: produce_response_def fetch_response_def list_offsets_response_def case_prod_unfold)
  show ?thesis
    unfolding p f l
    using grouped_spec [of ppr_topic ps] grouped_spec [of "\<lambda>x. fpq_topic (fst x)" fs] grouped_spec [of lpr_topic ls]
    by (intro conjI ballI)
      (blast | auto simp: produce_response_def fetch_response_def list_offsets_response_def comp_def case_prod_unfold
        dest!: grouped_group)+
qed

theorem responses_group_by_topic_witness:
  "map pst_name (ps_topics (produce_response [produce_result ''b'' 0 0, produce_result ''a'' 1 3, produce_result ''b'' 2 0])) = [''a'', ''b'']"
proof -
  let ?ps = "[produce_result ''b'' 0 0, produce_result ''a'' 1 3, produce_result ''b'' 2 0]"
  have "sorted_wrt (<) (map pst_name (ps_topics (produce_response ?ps)))"
    "set (map pst_name (ps_topics (produce_response ?ps))) = set [''a'', ''b'']"
    using responses_group_by_topic [of ?ps "[]" "[]"] by (auto simp: produce_result_def)
  moreover have "sorted_wrt (<) [''a'', ''b'']" by simp
  ultimately show ?thesis by (metis strict_sorted_equal)
qed

end
