(* ===== verification/Broker_Service.thy ===== *)
theory Broker_Service
  imports Broker_Front
begin

text \<open>
  The node as a service: the contract of an operation on a partition (it returns, keeps the
  invariant of the node and answers for the partition it was asked about), that the three client
  operations of the shard meet it, and what follows for whole requests.
\<close>

section \<open>The contract\<close>

locale partition_service =
  fixes inv :: "'s \<Rightarrow> bool"
    and op :: "'q \<Rightarrow> 's \<Rightarrow> ('r result \<times> 's) option"
    and answers :: "'q \<Rightarrow> 'r \<Rightarrow> bool"
  assumes op_returns: "inv s \<Longrightarrow> \<exists>r s'. op q s = Some (r, s') \<and> inv s' \<and> (\<forall>y. r = Inr y \<longrightarrow> answers q y)"
begin

text \<open>A loop over partitions returns as well, with one answer for each partition, or the first failure.\<close>

lemma for_each_returns:
  "inv s \<Longrightarrow> \<exists>r s'. do_for_each op qs s = Some (r, s') \<and> inv s' \<and> (\<forall>ys. r = Inr ys \<longrightarrow> list_all2 answers qs ys)"
proof (induction qs arbitrary: s)
  case (Cons q qs)
  from op_returns [OF Cons.prems, of q] obtain r s1 where op: "op q s = Some (r, s1)" "inv s1" "\<forall>y. r = Inr y \<longrightarrow> answers q y"
    by blast
  from Cons.IH [OF op(2)] obtain rs s2 where rest: "do_for_each op qs s1 = Some (rs, s2)" "inv s2"
    "\<forall>ys. rs = Inr ys \<longrightarrow> list_all2 answers qs ys" by blast
  show ?case
  proof (cases r)
    case (Inr y)
    with op rest show ?thesis by (auto simp: rbind_eq_Inr_iff)
  qed (use op in simp)
qed simp

end

section \<open>The invariant of a node\<close>

text \<open>The shards share the configuration, their tables are in order, and every owner exists.\<close>

definition node_ok :: "nat \<Rightarrow> BrokerShard list \<times> 'w \<Rightarrow> bool" where
  "node_ok i = (\<lambda>(node, w). i < length node \<and> (\<exists>config. (\<forall>sh\<in>set node. bs_config sh = config \<and> shard_ok sh) \<and>
     (\<forall>topic p k. owner_shard config topic p = Some k \<longrightarrow> k < length node)))"

definition shard_step :: "BrokerShard \<Rightarrow> BrokerShard \<Rightarrow> bool" where
  "shard_step sh sh' \<longleftrightarrow> (shard_ok sh \<longrightarrow> shard_ok sh') \<and> bs_config sh' = bs_config sh"

lemma shard_step_refl [simp]: "shard_step sh sh"
  by (simp add: shard_step_def)

lemma shard_step_trans [trans]: "shard_step a b \<Longrightarrow> shard_step b c \<Longrightarrow> shard_step a c"
  by (simp add: shard_step_def)

lemma shard_step_same_table: "bs_table sh' = bs_table sh \<Longrightarrow> bs_config sh' = bs_config sh \<Longrightarrow> shard_step sh sh'"
  by (simp add: shard_step_def shard_ok_def)

lemma node_ok_update:
  assumes "node_ok i (node, w)" "shard_step (node ! k) sh"
  shows "node_ok i (node[k := sh], w')"
proof (cases "k < length node")
  case True
  obtain config where c: "\<forall>sh\<in>set node. bs_config sh = config \<and> shard_ok sh"
    "\<forall>topic p k. owner_shard config topic p = Some k \<longrightarrow> k < length node" "i < length node"
    using assms(1) unfolding node_ok_def prod.case by blast
  have "bs_config sh = config \<and> shard_ok sh" using assms(2) c(1) True by (auto simp: shard_step_def)
  then have "\<forall>x\<in>set (node[k := sh]). bs_config x = config \<and> shard_ok x"
    using c(1) set_update_subset_insert [of node k sh] by blast
  with c show ?thesis unfolding node_ok_def prod.case by (intro conjI exI [of _ config]) simp_all
qed (use assms(1) in \<open>simp add: node_ok_def list_update_beyond\<close>)

lemma dispatch_returns:
  assumes ok: "node_ok i (node, w)"
    and miss: "\<And>sh. shard_step sh (snd (missing sh)) \<and> Q (Inr (fst (missing sh)))"
    and loc: "\<And>sh r sh' w'. shard_ok sh \<Longrightarrow> local (sh, w) = (r, sh', w') \<Longrightarrow> shard_step sh sh' \<and> Q r"
  shows "\<exists>r st. dispatch (Suc (Suc fuel)) id missing local topic p i (node, w) = Some (r, st) \<and> node_ok i st \<and> Q r"
proof -
  obtain config where c: "\<forall>sh\<in>set node. bs_config sh = config \<and> shard_ok sh"
    "\<forall>topic p k. owner_shard config topic p = Some k \<longrightarrow> k < length node" "i < length node"
    using ok unfolding node_ok_def prod.case by blast
  show ?thesis
  proof (cases "owner_shard config topic p")
    case None
    obtain r sh1 where m: "missing (node ! i) = (r, sh1)" by (cases "missing (node ! i)")
    have "dispatch (Suc (Suc fuel)) id missing local topic p i (node, w) = Some (Inr r, node[i := sh1], w)"
      using None c(1,3) m by (simp add: Let_def)
    moreover have "node_ok i (node[i := sh1], w)" "Q (Inr r)" using miss [of "node ! i"] m node_ok_update [OF ok] by auto
    ultimately show ?thesis by blast
  next
    case (Some k)
    with c have k: "k < length node" "\<forall>sh\<in>set node. owner_shard (bs_config sh) topic p = Some k" by auto
    obtain r sh1 w1 where l: "local (node ! k, w) = (r, sh1, w1)" by (cases "local (node ! k, w)")
    have "dispatch (Suc (Suc fuel)) id missing local topic p i (node, w) = Some (r, node[k := sh1], w1)"
      using dispatch_id [OF c(3) k, of fuel missing local w] l by (simp del: dispatch.simps)
    moreover have "shard_step (node ! k) sh1 \<and> Q r" using loc [OF _ l] c(1) k(1) by simp
    ultimately show ?thesis using node_ok_update [OF ok, of k sh1 w1] by blast
  qed
qed

section \<open>The operations keep the shard in order\<close>

lemma find_log_step:
  assumes "find_log topic p sh = (r, sh1)"
  shows "shard_step sh sh1"
proof -
  have c: "bs_config sh1 = bs_config sh" using assms by (auto simp: find_log_def split: prod.splits)
  show ?thesis using find_log_spec(5) [OF _ assms] c by (auto simp: shard_step_def shard_ok_def)
qed

lemma find_log_found:
  assumes "find_log topic p sh = (Some key, sh1)" "shard_ok sh"
  shows "key = \<lparr>tp_topic = topic, tp_partition = p\<rparr>" "partition_tp (pl_config (log_of sh1 key)) = key"
proof -
  have ok: "table_ok (bs_table sh)" using assms(2) by (simp add: shard_ok_def)
  note s = find_log_spec [OF ok assms(1)]
  show k: "key = \<lparr>tp_topic = topic, tp_partition = p\<rparr>" using s(1) by (simp split: if_splits)
  obtain log where "logs sh key = Some log" using s(1) k by (auto split: if_splits)
  with s(2) assms(2) show "partition_tp (pl_config (log_of sh1 key)) = key" by (simp add: log_of_def shard_ok_def)
qed

lemma store_log_step:
  assumes "pl_config log = pl_config (log_of sh key)"
  shows "shard_step sh (store_log key log sh)"
proof -
  have "shard_ok (store_log key log sh)" if ok: "shard_ok sh"
  proof -
    have t: "table_ok (bs_table sh)" using ok by (simp add: shard_ok_def)
    show ?thesis
      using ok assms store_log_spec [OF t, of key log] unfolding shard_ok_def log_of_def by (auto split: if_splits)
  qed
  then show ?thesis by (simp add: shard_step_def store_log_def)
qed

lemma disk_step: "shard_step sh (sh\<lparr>bs_disk := d\<rparr>)"
  by (rule shard_step_same_table) simp_all

lemma settle_replication_step: "shard_step sh (settle_replication q replicated sh)"
proof -
  let ?sh = "case replicated of Inr _ \<Rightarrow> sh | Inl _ \<Rightarrow> count_replica_error sh"
  have 0: "shard_step sh ?sh" by (rule shard_step_same_table) (simp_all split: sum.splits)
  obtain r sh1 where f: "find_log (pc_topic q) (pc_partition q) ?sh = (r, sh1)" by (cases "find_log (pc_topic q) (pc_partition q) ?sh")
  note 1 = shard_step_trans [OF 0 find_log_step [OF f]]
  show ?thesis
  proof (cases r)
    case None
    then show ?thesis using 1 f by (simp add: settle_replication_def Let_def)
  next
    case (Some key)
    let ?log = "case replicated of Inr _ \<Rightarrow> mark_replicated_through (pl_latest (log_of sh1 key)) (log_of sh1 key) | Inl _ \<Rightarrow> mark_degraded (log_of sh1 key)"
    have "settle_replication q replicated sh = store_log key ?log sh1" using f Some by (simp add: settle_replication_def Let_def)
    moreover have "pl_config ?log = pl_config (log_of sh1 key)"
      by (simp add: mark_replicated_through_def mark_degraded_def Let_def split: sum.splits)
    ultimately show ?thesis using shard_step_trans [OF 1 store_log_step] by simp
  qed
qed

lemma append_log_answer:
  assumes "append_log dma records acks (s, d) = (Inr y, s', d')"
  shows "ppr_topic y = pc_topic (pl_config s)" "ppr_partition y = pc_partition (pl_config s)"
proof -
  obtain response rs s0 where adm: "append_admit s records acks = (response, rs, s0)" by (cases "append_admit s records acks")
  then have "ppr_topic response = pc_topic (pl_config s) \<and> ppr_partition response = pc_partition (pl_config s)"
    by (auto simp: append_admit_def append_response_def Let_def split: if_splits)
  moreover have "y = response"
    using assms adm by (auto simp: append_log_def append_write_def rbind_eq_Inr_iff split: option.splits prod.splits sum.splits)
  ultimately show "ppr_topic y = pc_topic (pl_config s)" "ppr_partition y = pc_partition (pl_config s)" by simp_all
qed

lemma produce_operation_step:
  assumes "produce_operation dma net key records acks (sh, w) = (r, sh', w')"
  shows "shard_step sh sh'" "r = Inr y \<Longrightarrow>
    ppr_topic y = pc_topic (pl_config (log_of sh key)) \<and> ppr_partition y = pc_partition (pl_config (log_of sh key))"
proof -
  let ?log = "log_of sh key"
  let ?rep = "start_replication net (bs_config sh) (pl_config ?log) (replica_stub ?log records) records w"
  obtain x w1 where rep: "?rep = (x, w1)" by (cases ?rep)
  obtain written log1 d1 where app: "append_log dma records acks (?log, bs_disk sh) = (written, log1, d1)"
    by (cases "append_log dma records acks (?log, bs_disk sh)")
  let ?sh1 = "(store_log key log1 sh)\<lparr>bs_disk := d1\<rparr>"
  have s1: "shard_step sh ?sh1" by (rule shard_step_trans [OF store_log_step disk_step]) (rule append_log_config [OF app])
  have s2: "shard_step sh (settle_replication q replicated ?sh1)" for q replicated
    by (rule shard_step_trans [OF s1 settle_replication_step])
  show "shard_step sh sh'"
    using assms s1 s2 unfolding produce_operation_def Let_def prod.case rep app
    by (cases x; cases written) (auto split: if_splits)
  show "ppr_topic y = pc_topic (pl_config ?log) \<and> ppr_partition y = pc_partition (pl_config ?log)" if "r = Inr y"
    using assms that append_log_answer [of dma records acks ?log "bs_disk sh"] app
    unfolding produce_operation_def Let_def prod.case rep app
    by (cases x; cases written) (auto split: if_splits sum.splits)
qed

lemma append_local_step:
  assumes ok: "shard_ok sh" and run: "append_local dma net late request acks timeout_ms (sh, w) = (r, sh', w')"
  shows "shard_step sh sh' \<and> (\<forall>y. r = Inr y \<longrightarrow> ppr_topic y = ppq_topic request \<and> ppr_partition y = ppq_partition request)"
proof -
  obtain k sh1 where f: "find_log (ppq_topic request) (ppq_partition request) sh = (k, sh1)"
    by (cases "find_log (ppq_topic request) (ppq_partition request) sh")
  note s1 = find_log_step [OF f]
  have err: "ppr_topic (produce_result topic p e) = topic" "ppr_partition (produce_result topic p e) = p" for topic p e
    by (simp_all add: produce_result_def)
  have count: "shard_step a b \<Longrightarrow> shard_step a (count_produce_error b)" for a b
    by (erule shard_step_trans) (rule shard_step_same_table; simp)
  show ?thesis
  proof (cases k)
    case None
    with run f s1 count show ?thesis by (auto simp: append_local_def err)
  next
    case (Some key)
    let ?log = "log_of sh1 key"
    have key: "pc_topic (pl_config ?log) = ppq_topic request" "pc_partition (pl_config ?log) = ppq_partition request"
      using find_log_found [OF f [unfolded Some] ok] by auto
    show ?thesis
    proof (cases "pc_leader (pl_config ?log) \<noteq> bc_node_id (bs_config sh1)")
      case True
      with run f Some s1 show ?thesis by (auto simp: append_local_def err)
    next
      case False
      show ?thesis
      proof (cases "rewrite_record_batch_offsets (ppq_records request) (pl_latest ?log)")
        case (Inl e)
        with run f Some False s1 show ?thesis by (auto simp: append_local_def)
      next
        case (Inr records)
        obtain x sh2 w2 where op: "produce_operation dma net key records acks (sh1, w) = (x, sh2, w2)"
          by (cases "produce_operation dma net key records acks (sh1, w)")
        note s2 = shard_step_trans [OF s1 produce_operation_step(1) [OF op]] and y = produce_operation_step(2) [OF op]
        from run f Some False Inr op s2 count [OF s2] y key show ?thesis
          by (auto simp: append_local_def err Let_def split: if_splits)
      qed
    qed
  qed
qed

lemma list_offsets_local_step:
  assumes ok: "shard_ok sh" and run: "list_offsets_local request (sh, w) = (r, sh', w')"
  shows "shard_step sh sh' \<and> (\<forall>y. r = Inr y \<longrightarrow> lpr_topic y = lpq_topic request \<and> lpr_partition y = lpq_partition request)"
proof -
  obtain k sh1 where f: "find_log (lpq_topic request) (lpq_partition request) sh = (k, sh1)"
    by (cases "find_log (lpq_topic request) (lpq_partition request) sh")
  show ?thesis
  proof (cases k)
    case None
    with run f find_log_step [OF f] show ?thesis by (auto simp: list_offsets_local_def list_offset_missing_def)
  next
    case (Some key)
    with run f find_log_step [OF f] find_log_found [OF f [unfolded Some] ok] show ?thesis
      by (auto simp: list_offsets_local_def list_offsets_def)
  qed
qed

lemma get_segment_file_same_log: "get_segment_file_for_read base (s, d) = (r, s') \<Longrightarrow> same_log s s'"
  by (auto simp: get_segment_file_for_read_def Let_def same_log_def split: if_splits option.splits)

lemma read_loop_same_log: "read_loop d offset ve limit es records s = (r, s') \<Longrightarrow> same_log s s'"
proof (induction "length es" arbitrary: es records s rule: less_induct)
  case less
  show ?case
  proof (cases es)
    case Nil
    then show ?thesis using less.prems by simp
  next
    case (Cons first rest)
    obtain x s1 where g: "get_segment_file_for_read (ie_segment_base first) (s, d) = (x, s1)"
      by (cases "get_segment_file_for_read (ie_segment_base first) (s, d)")
    note s1 = get_segment_file_same_log [OF g]
    have shorter: "read_loop d offset ve limit (drop n rest) rec s0 = (r, s') \<Longrightarrow> same_log s0 s'" for n rec s0
      using less.hyps [of "drop n rest" rec s0] Cons by simp
    show ?thesis
      using less.prems s1 g shorter [of 0 records s] shorter [of _ _ s1, THEN same_log_trans [OF s1]]
      by (cases x) (auto simp: Cons Let_def split: if_splits sum.splits)
  qed
qed

lemma fetch_same_log: "fetch offset max_bytes (s, d) = (r, s') \<Longrightarrow> same_log s s'"
  by (auto simp: fetch_def read_records_from_index_def Let_def dest: read_loop_same_log split: if_splits prod.splits)

lemma fetch_log_step: "fetch_log key offset max_bytes sh = (r, sh') \<Longrightarrow> shard_step sh sh'"
proof -
  assume run: "fetch_log key offset max_bytes sh = (r, sh')"
  obtain x log where f: "fetch offset max_bytes (log_of sh key, bs_disk sh) = (x, log)"
    by (cases "fetch offset max_bytes (log_of sh key, bs_disk sh)")
  have "sh' = store_log key log sh" using run f by (simp add: fetch_log_def)
  with same_log_meta(1) [OF fetch_same_log [OF f]] show ?thesis by (simp add: store_log_step)
qed

text \<open>What runs while a fetch sleeps keeps the shard in order too.\<close>

definition orderly :: "(BrokerShard \<times> 'w \<Rightarrow> BrokerShard \<times> 'w) \<Rightarrow> bool" where
  "orderly meanwhile \<longleftrightarrow> (\<forall>sh w. shard_step sh (fst (meanwhile (sh, w))))"

lemma fetch_local_step:
  assumes meanwhile: "orderly meanwhile" and run: "fetch_local meanwhile request (sh, w) = (r, sh', w')"
  shows "shard_step sh sh'"
proof -
  obtain k sh1 where f: "find_log (fpq_topic request) (fpq_partition request) sh = (k, sh1)"
    by (cases "find_log (fpq_topic request) (fpq_partition request) sh")
  note s1 = find_log_step [OF f]
  have count: "shard_step sh (count_fetch_error sh1)" by (rule shard_step_trans [OF s1]) (rule shard_step_same_table; simp)
  show ?thesis
  proof (cases k)
    case (Some key)
    let ?fetch = "fetch_log key (fpq_offset request) (fpq_max_bytes request)"
    obtain x sh2 where a: "?fetch sh1 = (x, sh2)" by (cases "?fetch sh1")
    obtain sh3 w3 where m: "meanwhile (sh2, w) = (sh3, w3)" by (cases "meanwhile (sh2, w)")
    obtain y sh4 where b: "?fetch sh3 = (y, sh4)" by (cases "?fetch sh3")
    note s2 = shard_step_trans [OF s1 fetch_log_step [OF a]]
    have "shard_step sh2 sh3" using meanwhile m by (metis fst_conv orderly_def)
    then have s4: "shard_step sh sh4" by (rule shard_step_trans [OF shard_step_trans [OF s2] fetch_log_step [OF b]])
    show ?thesis
      using run s1 s2 s4 unfolding fetch_local_def prod.case f Some option.case Let_def a
      by (cases x) (auto simp: m b split: if_splits)
  qed (use run f count in \<open>auto simp: fetch_local_def\<close>)
qed

section \<open>The operations meet the contract\<close>

interpretation produce_ops: partition_service "node_ok i" "\<lambda>q. append_shard dma net late (Suc (Suc fuel)) i q acks timeout_ms"
    "\<lambda>q y. ppr_topic y = ppq_topic q \<and> ppr_partition y = ppq_partition q"
  for i dma net late fuel acks timeout_ms
proof
  fix s :: "BrokerShard list \<times> 'a" and q :: ProducePartitionRequest
  assume ok: "node_ok i s"
  obtain node w where s: "s = (node, w)" by (cases s)
  let ?Q = "\<lambda>r. \<forall>y :: ProducePartitionResult. r = Inr y \<longrightarrow> ppr_topic y = ppq_topic q \<and> ppr_partition y = ppq_partition q"
  show "\<exists>r s'. append_shard dma net late (Suc (Suc fuel)) i q acks timeout_ms s = Some (r, s') \<and> node_ok i s' \<and> ?Q r"
    unfolding append_shard_def s
    by (rule dispatch_returns [OF ok [unfolded s]], simp_all add: produce_result_def shard_step_same_table)
      (rule append_local_step)
qed

interpretation list_ops: partition_service "node_ok i" "list_offsets_shard (Suc (Suc fuel)) i"
    "\<lambda>q y. lpr_topic y = lpq_topic q \<and> lpr_partition y = lpq_partition q"
  for i fuel
proof
  fix s :: "BrokerShard list \<times> 'a" and q :: ListOffsetPartitionRequest
  assume ok: "node_ok i s"
  obtain node w where s: "s = (node, w)" by (cases s)
  let ?Q = "\<lambda>r. \<forall>y :: ListOffsetPartitionResult. r = Inr y \<longrightarrow> lpr_topic y = lpq_topic q \<and> lpr_partition y = lpq_partition q"
  show "\<exists>r s'. list_offsets_shard (Suc (Suc fuel)) i q s = Some (r, s') \<and> node_ok i s' \<and> ?Q r"
    unfolding list_offsets_shard_def s
    by (rule dispatch_returns [OF ok [unfolded s]], simp_all add: list_offset_missing_def)
      (rule list_offsets_local_step)
qed

text \<open>The fetch of \<^verbatim>\<open>handle_frame\<close>, which keeps the request with its result.\<close>

definition fetch_with_request ::
    "(BrokerShard \<times> 'w \<Rightarrow> BrokerShard \<times> 'w) \<Rightarrow> nat \<Rightarrow> nat \<Rightarrow> FetchPartitionRequest \<Rightarrow> BrokerShard list \<times> 'w \<Rightarrow>
     ((FetchPartitionRequest \<times> FetchPartitionResult) result \<times> BrokerShard list \<times> 'w) option" where
  "fetch_with_request meanwhile fuel i q s =
     map_option (\<lambda>(r, s1). (rbind r (\<lambda>result. Inr (q, result)), s1)) (fetch_shard meanwhile fuel i q s)"

interpretation fetch_ops: partition_service "\<lambda>s. orderly meanwhile \<and> node_ok i s" "fetch_with_request meanwhile (Suc (Suc fuel)) i"
    "\<lambda>q y. fst y = q"
  for meanwhile i fuel
proof
  fix s :: "BrokerShard list \<times> 'a" and q :: FetchPartitionRequest
  assume ok: "orderly meanwhile \<and> node_ok i s"
  obtain node w where s: "s = (node, w)" by (cases s)
  have "\<exists>r s'. fetch_shard meanwhile (Suc (Suc fuel)) i q s = Some (r, s') \<and> node_ok i s' \<and> True"
    unfolding fetch_shard_def s
    by (rule dispatch_returns) (use ok s in \<open>auto intro: shard_step_same_table fetch_local_step\<close>)
  then show "\<exists>r s'. fetch_with_request meanwhile (Suc (Suc fuel)) i q s = Some (r, s') \<and> (orderly meanwhile \<and> node_ok i s') \<and>
      (\<forall>y. r = Inr y \<longrightarrow> fst y = q)"
    using ok by (auto simp: fetch_with_request_def rbind_eq_Inr_iff)
qed

section \<open>Whole requests\<close>

lemma later_returns:
  assumes "\<exists>r s'. m = Some (r, s') \<and> P s' \<and> Q r"
  shows "\<exists>r s'. later m f = Some (r, s') \<and> P s'"
  using assms by auto

lemma handle_produce_returns:
  assumes ok: "node_ok i s"
  shows "\<exists>r s'. handle_produce (\<lambda>q acks timeout_ms. append_shard dma net late (Suc (Suc fuel)) i q acks timeout_ms) header reader s =
      Some (r, s') \<and> node_ok i s'"
proof (cases "rbind (decode_produce_request reader) (\<lambda>(wire, _). to_broker_produce_request wire)")
  case (Inr request)
  have "\<exists>r s'. later (do_for_each (\<lambda>q. append_shard dma net late (Suc (Suc fuel)) i q (pq_acks request) (pq_timeout_ms request))
      (pq_partitions request) s) f = Some (r, s') \<and> node_ok i s'" for f :: "ProducePartitionResult list \<Rightarrow> bytes option result"
    by (rule later_returns [OF produce_ops.for_each_returns [OF ok]])
  with Inr ok show ?thesis by (cases s) (simp add: handle_produce_def)
qed (use ok in \<open>simp add: handle_produce_def\<close>)

lemma handle_fetch_returns:
  assumes ok: "node_ok i s" "orderly meanwhile"
  shows "\<exists>r s'. handle_fetch (fetch_shard meanwhile (Suc (Suc fuel)) i) header reader s = Some (r, s') \<and> node_ok i s'"
proof (cases "decode_fetch_request reader")
  case (Inr x)
  obtain wire reader1 where x: "x = (wire, reader1)" by (cases x)
  have with_request: "(\<lambda>q s0. map_option (\<lambda>(r, s1). (rbind r (\<lambda>result. Inr (q, result)), s1)) (fetch_shard meanwhile (Suc (Suc fuel)) i q s0)) =
      fetch_with_request meanwhile (Suc (Suc fuel)) i" by (simp add: fetch_with_request_def fun_eq_iff)
  have "orderly meanwhile \<and> node_ok i s" using ok by simp
  then obtain r s' where "do_for_each (fetch_with_request meanwhile (Suc (Suc fuel)) i) (to_broker_fetch_request wire) s = Some (r, s')" "node_ok i s'"
    using fetch_ops.for_each_returns [of meanwhile i s fuel "to_broker_fetch_request wire"] by blast
  then show ?thesis unfolding handle_fetch_def with_request Inr x by simp
qed (use ok in \<open>simp add: handle_fetch_def\<close>)

lemma handle_list_offsets_returns:
  assumes ok: "node_ok i s"
  shows "\<exists>r s'. handle_list_offsets (list_offsets_shard (Suc (Suc fuel)) i) header reader s = Some (r, s') \<and> node_ok i s'"
proof (cases "decode_list_offsets_request reader")
  case (Inr x)
  obtain wire reader1 where x: "x = (wire, reader1)" by (cases x)
  have "\<exists>r s'. later (do_for_each (list_offsets_shard (Suc (Suc fuel)) i) (to_broker_list_offsets_request wire) s) g =
      Some (r, s') \<and> node_ok i s'" for g :: "ListOffsetPartitionResult list \<Rightarrow> bytes option result"
    by (rule later_returns [OF list_ops.for_each_returns [OF ok]])
  then show ?thesis by (simp add: handle_list_offsets_def Inr x)
qed (use ok in \<open>simp add: handle_list_offsets_def\<close>)

lemma handle_frame_returns:
  assumes ok: "node_ok i s" "orderly meanwhile"
  shows "\<exists>r s'. handle_frame config (\<lambda>q acks timeout_ms. append_shard dma net late (Suc (Suc fuel)) i q acks timeout_ms)
      (fetch_shard meanwhile (Suc (Suc fuel)) i) (list_offsets_shard (Suc (Suc fuel)) i) payload s = Some (r, s') \<and> node_ok i s'"
proof (cases "parse_request_header (wire_reader_of payload)")
  case (Inr x)
  obtain header reader where x: "x = (header, reader)" by (cases x)
  show ?thesis
    using ok handle_produce_returns [OF ok(1), of dma net late fuel header reader] handle_fetch_returns [OF ok, of fuel header reader]
      handle_list_offsets_returns [OF ok(1), of fuel header reader]
    by (cases s; cases "hdr_api_key header") (simp_all add: handle_frame_def Inr x)
qed (use ok in \<open>simp add: handle_frame_def\<close>)


text \<open>The partitions that a Produce request names, in its order.\<close>

definition requested_partitions :: "WireProduceRequest \<Rightarrow> (string \<times> int) list" where
  "requested_partitions wire =
     map (\<lambda>(topic, p). (topic, prp_partition_index p)) (topic_partitions prt_name prt_partitions (pr_topics wire))"

lemma add_produce_partitions:
  assumes "foldR add_produce_partition xs request = Inr request'"
  shows "pq_acks request' = pq_acks request \<and> map (\<lambda>q. (ppq_topic q, ppq_partition q)) (pq_partitions request') =
    map (\<lambda>q. (ppq_topic q, ppq_partition q)) (pq_partitions request) @ map (\<lambda>(topic, p). (topic, prp_partition_index p)) xs"
  using assms
proof (induction xs arbitrary: request)
  case (Cons x xs)
  obtain topic p where x: "x = (topic, p)" by (cases x)
  from Cons.prems obtain request1 where r1: "add_produce_partition x request = Inr request1"
    and rest: "foldR add_produce_partition xs request1 = Inr request'" by (auto simp: rbind_eq_Inr_iff)
  from Cons.IH [OF rest] r1 show ?case
    by (auto simp: x add_produce_partition_def Let_def rbind_eq_Inr_iff)
qed simp

lemma to_broker_produce_partitions:
  assumes "to_broker_produce_request wire = Inr request"
  shows "pq_acks request = pr_acks wire \<and>
    map (\<lambda>q. (ppq_topic q, ppq_partition q)) (pq_partitions request) = requested_partitions wire"
  using add_produce_partitions [OF assms [unfolded to_broker_produce_request_def]] by (simp add: requested_partitions_def)

lemma framed_eq: "framed header body = Inr x \<longleftrightarrow> (\<exists>b frame. body = Inr b \<and> make_response_frame header b = Inr frame \<and> x = Some frame)"
  by (auto simp: framed_def rbind_eq_Inr_iff)

text \<open>What a Produce request is answered with.\<close>

definition produce_answered :: "RequestHeader \<Rightarrow> WireProduceRequest \<Rightarrow> bytes option \<Rightarrow> bool" where
  "produce_answered header wire response \<longleftrightarrow>
     (if pr_acks wire = 0 then response = None
      else \<exists>results body frame. response = Some frame \<and> make_response_frame header body = Inr frame \<and>
        encode_produce_response (produce_response results) = Inr body \<and>
        map (\<lambda>y. (ppr_topic y, ppr_partition y)) results = requested_partitions wire)"

lemma handle_produce_answers:
  assumes ok: "node_ok i s" and dec: "decode_produce_request reader = Inr (wire, reader1)"
  shows "\<exists>r s'. handle_produce (\<lambda>q acks timeout_ms. append_shard dma net late (Suc (Suc fuel)) i q acks timeout_ms) header reader s =
      Some (r, s') \<and> (\<forall>response. r = Inr (Inr response) \<longrightarrow> produce_answered header wire response)"
proof (cases "to_broker_produce_request wire")
  case (Inr request)
  note req = to_broker_produce_partitions [OF Inr]
  show ?thesis
  proof (cases "pq_rejected_error_code request = 0")
    case True
    obtain r s' where run: "do_for_each (\<lambda>q. append_shard dma net late (Suc (Suc fuel)) i q (pq_acks request) (pq_timeout_ms request))
        (pq_partitions request) s = Some (r, s')"
      and r: "\<forall>ys. r = Inr ys \<longrightarrow> list_all2 (\<lambda>q y. ppr_topic y = ppq_topic q \<and> ppr_partition y = ppq_partition q) (pq_partitions request) ys"
      using produce_ops.for_each_returns [OF ok] by blast
    have keys: "map (\<lambda>y. (ppr_topic y, ppr_partition y)) ys = requested_partitions wire" if "r = Inr ys" for ys
    proof -
      have "map (\<lambda>y. (ppr_topic y, ppr_partition y)) ys = map (\<lambda>q. (ppq_topic q, ppq_partition q)) (pq_partitions request)"
        using r that by (auto simp: list_all2_conv_all_nth intro: nth_equalityI)
      with req show ?thesis by simp
    qed
    show ?thesis
      using run keys True Inr dec req
      by (auto simp: handle_produce_def produce_answered_def rbind_eq_Inr_iff framed_eq split: if_splits)
  next
    case False
    have "map (\<lambda>y. (ppr_topic y, ppr_partition y)) (rejected_produce_results request) = requested_partitions wire"
      using req by (simp add: rejected_produce_results_def comp_def)
    with False Inr dec req show ?thesis
      by (cases s) (auto simp: handle_produce_def produce_answered_def rbind_eq_Inr_iff framed_eq)
  qed
qed (use dec in \<open>simp add: handle_produce_def\<close>)


section \<open>A sample\<close>

lemma pair_node_ok: "node_ok 0 ([pair_shard 0], w)"
  unfolding node_ok_def prod.case
  by (intro conjI exI [of _ "pair_config 0"])
    (auto simp: one_log_shard_ok owner_shard_def pair_config_def pair_partition_def sample_partition_def split: if_splits)



end
