(* ===== verification/Mercury_Shard.thy ===== *)
theory Mercury_Shard
  imports Mkmq_Prelude "HOL-Library.AList" "HOL-Library.Multiset"
begin

text \<open>The RPC layer of one shard (\<^verbatim>\<open>mercury_shard.cpp\<close>): the registry of RPC names, the cache of peers with
  their address, handle pools and pending lookup, the client side of an RPC from \<^verbatim>\<open>forward\<close> to the completion
  of its promise, the server side from \<^verbatim>\<open>handle_rpc\<close> to the response, and \<^verbatim>\<open>start\<close> and \<^verbatim>\<open>stop\<close>.
  Mercury itself is not part of the repository: what its calls return is an argument of the operations
  (the record \<^verbatim>\<open>Hg\<close>), and its callbacks are operations of their own.\<close>

section \<open>Data\<close>

text \<open>Null handles, addresses and bulk handles are \<open>None\<close>; an RPC id of 0 is an RPC that is not bound.\<close>

definition kBulkTransferThreshold :: nat where
  "kBulkTransferThreshold = 64 * 1024"

definition kHandlePoolLimitPerPeerRpc :: nat where
  "kHandlePoolLimitPerPeerRpc = 128"

definition kMercuryIdleProgressInterval :: nat where
  "kMercuryIdleProgressInterval = 5"

definition kMercuryActiveProgressInterval :: nat where
  "kMercuryActiveProgressInterval = 1"

definition kMercuryTriggerBatch :: nat where
  "kMercuryTriggerBatch = 64"

definition kMercuryProgressRounds :: nat where
  "kMercuryProgressRounds = 8"

datatype HgTransferMode = Eager | Bulk

text \<open>The value of a mode on the wire; every other value is treated as an eager request.\<close>

fun mode_code :: "HgTransferMode \<Rightarrow> int" where
  "mode_code Eager = 0"
| "mode_code Bulk = 1"

record HgRequest =
  rq_mode :: int
  rq_eager :: bytes
  rq_bulk_size :: nat
  rq_bulk_handle :: "nat option"

record HgReply =
  ry_status :: int
  ry_payload :: bytes

record RpcEntry =
  re_name :: string
  re_id :: nat
  re_handler :: bool

record HandlePool =
  hp_rpc_id :: nat
  hp_handles :: "nat list"

text \<open>A client RPC. \<^verbatim>\<open>cs_id\<close> names the object, whose identity in the source is its address.\<close>

record ClientRpcState =
  cs_id :: nat
  cs_addr :: "nat option"
  cs_handle :: "nat option"
  cs_rpc_id :: nat
  cs_peer :: string
  cs_request :: bytes
  cs_input :: HgRequest
  cs_origin_bulk :: "nat option"
  cs_timer_armed :: bool
  cs_promise_done :: bool
  cs_latency_recorded :: bool
  cs_recycle_handle :: bool
  cs_drop_peer_on_cleanup :: bool

record LookupState =
  lk_id :: nat
  lk_peer :: string
  lk_waiters :: "ClientRpcState list"
  lk_cancelled :: bool

record PeerState =
  peer_addr :: "nat option"
  peer_pools :: "HandlePool list"
  peer_pending_lookup :: "LookupState option"

record ServerRpcState =
  ss_handle :: nat
  ss_rpc :: string
  ss_input :: HgRequest
  ss_input_loaded :: bool
  ss_local_bulk :: "nat option"
  ss_request :: bytes
  ss_response :: bytes
  ss_status :: int

text \<open>What the shard obtains from Mercury and has to give back.\<close>

datatype resource = Handle nat | BulkHandle nat | Promise nat

text \<open>The state of the shard. The lists \<^verbatim>\<open>mc_inflight\<close>, \<^verbatim>\<open>mc_pulling\<close> and \<^verbatim>\<open>mc_responding\<close> hold the objects whose
  ownership passed to Mercury with \<^verbatim>\<open>release()\<close> until the callback returns it, \<^verbatim>\<open>mc_handling\<close> those owned by
  the continuation of a handler. \<^verbatim>\<open>mc_acquired\<close>, \<^verbatim>\<open>mc_released\<close>, \<^verbatim>\<open>mc_addrs_freed\<close>, \<^verbatim>\<open>mc_completions\<close> and
  \<^verbatim>\<open>mc_responses\<close> record the effects on the outside: what the creating and destroying calls of Mercury did, with
  which value each promise was completed, and what \<^verbatim>\<open>HG_Respond\<close> was given.\<close>

record MercuryShard =
  mc_running :: bool
  mc_address :: string
  mc_hg_class :: bool
  mc_hg_context :: bool
  mc_progress_timer :: "nat option"
  mc_rpcs_by_name :: "(string \<times> RpcEntry) list"
  mc_rpcs_by_id :: "(nat \<times> string) list"
  mc_last_rpc :: "string option"
  mc_peers :: "(string \<times> PeerState) list"
  mc_orphaned_lookups :: "LookupState list"
  mc_rpc_forwards :: nat
  mc_rpc_receives :: nat
  mc_rpc_errors :: nat
  mc_rpc_timeouts :: nat
  mc_bulk_transfers :: nat
  mc_bulk_bytes :: nat
  mc_bulk_errors :: nat
  mc_forward_latencies :: nat
  mc_handler_latencies :: nat
  mc_bulk_latencies :: nat
  mc_next_id :: nat
  mc_inflight :: "ClientRpcState list"
  mc_pulling :: "ServerRpcState list"
  mc_handling :: "ServerRpcState list"
  mc_responding :: "ServerRpcState list"
  mc_acquired :: "resource list"
  mc_released :: "resource list"
  mc_addrs_freed :: "nat list"
  mc_completions :: "(nat \<times> bytes result) list"
  mc_responses :: "(nat \<times> HgReply) list"

text \<open>The answers of Mercury to the calls one operation makes: success, or what the call creates.\<close>

record Hg =
  hg_init :: bool
  hg_context_create :: bool
  hg_register_name :: "string \<Rightarrow> nat"
  hg_register_data :: "string \<Rightarrow> bool"
  hg_bulk_create :: "nat option"
  hg_addr_lookup :: bool
  hg_reset :: bool
  hg_create :: "nat option"
  hg_forward :: bool
  hg_get_info :: "nat option"
  hg_registered_data :: bool
  hg_get_input :: "HgRequest option"
  hg_bulk_transfer :: bool
  hg_respond :: bool
  hg_error :: string

definition new_impl :: MercuryShard where
  "new_impl = \<lparr>mc_running = False, mc_address = [], mc_hg_class = False, mc_hg_context = False,
     mc_progress_timer = None, mc_rpcs_by_name = [], mc_rpcs_by_id = [], mc_last_rpc = None, mc_peers = [],
     mc_orphaned_lookups = [], mc_rpc_forwards = 0, mc_rpc_receives = 0, mc_rpc_errors = 0, mc_rpc_timeouts = 0,
     mc_bulk_transfers = 0, mc_bulk_bytes = 0, mc_bulk_errors = 0, mc_forward_latencies = 0,
     mc_handler_latencies = 0, mc_bulk_latencies = 0, mc_next_id = 0, mc_inflight = [], mc_pulling = [],
     mc_handling = [], mc_responding = [], mc_acquired = [], mc_released = [], mc_addrs_freed = [],
     mc_completions = [], mc_responses = []\<rparr>"

section \<open>Counters and effects\<close>

definition on_rpc_forward :: "MercuryShard \<Rightarrow> MercuryShard" where
  "on_rpc_forward m = m\<lparr>mc_rpc_forwards := Suc (mc_rpc_forwards m)\<rparr>"

definition on_rpc_receive :: "MercuryShard \<Rightarrow> MercuryShard" where
  "on_rpc_receive m = m\<lparr>mc_rpc_receives := Suc (mc_rpc_receives m)\<rparr>"

definition on_rpc_error :: "MercuryShard \<Rightarrow> MercuryShard" where
  "on_rpc_error m = m\<lparr>mc_rpc_errors := Suc (mc_rpc_errors m)\<rparr>"

definition on_rpc_timeout :: "MercuryShard \<Rightarrow> MercuryShard" where
  "on_rpc_timeout m = m\<lparr>mc_rpc_timeouts := Suc (mc_rpc_timeouts m)\<rparr>"

definition on_bulk_transfer :: "nat \<Rightarrow> MercuryShard \<Rightarrow> MercuryShard" where
  "on_bulk_transfer n m = m\<lparr>mc_bulk_transfers := Suc (mc_bulk_transfers m), mc_bulk_bytes := mc_bulk_bytes m + n\<rparr>"

definition on_bulk_error :: "MercuryShard \<Rightarrow> MercuryShard" where
  "on_bulk_error m = m\<lparr>mc_bulk_errors := Suc (mc_bulk_errors m)\<rparr>"

definition record_forward_latency_if_needed ::
    "ClientRpcState \<Rightarrow> MercuryShard \<Rightarrow> ClientRpcState \<times> MercuryShard" where
  "record_forward_latency_if_needed st m =
     (if cs_latency_recorded st then (st, m)
      else (st\<lparr>cs_latency_recorded := True\<rparr>, m\<lparr>mc_forward_latencies := Suc (mc_forward_latencies m)\<rparr>))"

definition record_handler_latency :: "MercuryShard \<Rightarrow> MercuryShard" where
  "record_handler_latency m = m\<lparr>mc_handler_latencies := Suc (mc_handler_latencies m)\<rparr>"

definition record_bulk_latency :: "MercuryShard \<Rightarrow> MercuryShard" where
  "record_bulk_latency m = m\<lparr>mc_bulk_latencies := Suc (mc_bulk_latencies m)\<rparr>"

definition acquire :: "resource \<Rightarrow> MercuryShard \<Rightarrow> MercuryShard" where
  "acquire r m = m\<lparr>mc_acquired := mc_acquired m @ [r]\<rparr>"

definition release :: "resource list \<Rightarrow> MercuryShard \<Rightarrow> MercuryShard" where
  "release rs m = m\<lparr>mc_released := mc_released m @ rs\<rparr>"

definition hg_addr_free :: "nat option \<Rightarrow> MercuryShard \<Rightarrow> MercuryShard" where
  "hg_addr_free a m = m\<lparr>mc_addrs_freed := mc_addrs_freed m @ (case a of None \<Rightarrow> [] | Some x \<Rightarrow> [x])\<rparr>"

text \<open>\<^verbatim>\<open>promise.set_value\<close> and \<^verbatim>\<open>promise.set_exception\<close>, each followed by \<^verbatim>\<open>promise_done = true\<close>.\<close>

definition complete_promise ::
    "bytes result \<Rightarrow> ClientRpcState \<Rightarrow> MercuryShard \<Rightarrow> ClientRpcState \<times> MercuryShard" where
  "complete_promise r st m =
     (st\<lparr>cs_promise_done := True\<rparr>, m\<lparr>mc_completions := mc_completions m @ [(cs_id st, r)]\<rparr>)"

section \<open>The RPC registry\<close>

definition find_rpc_by_name :: "string \<Rightarrow> MercuryShard \<Rightarrow> RpcEntry option \<times> MercuryShard" where
  "find_rpc_by_name name m =
     (if mc_last_rpc m = Some name then (map_of (mc_rpcs_by_name m) name, m)
      else case map_of (mc_rpcs_by_name m) name of
        None \<Rightarrow> (None, m)
      | Some entry \<Rightarrow> (Some entry, m\<lparr>mc_last_rpc := Some name\<rparr>))"

definition find_rpc_by_id :: "nat \<Rightarrow> MercuryShard \<Rightarrow> RpcEntry option" where
  "find_rpc_by_id i m =
     (case map_of (mc_rpcs_by_id m) i of None \<Rightarrow> None | Some name \<Rightarrow> map_of (mc_rpcs_by_name m) name)"

text \<open>The result \<open>Inl\<close> is the exception the call throws; the entry then stays unbound.\<close>

definition bind_rpc_to_mercury :: "Hg \<Rightarrow> RpcEntry \<Rightarrow> MercuryShard \<Rightarrow> unit result \<times> MercuryShard" where
  "bind_rpc_to_mercury hg entry m =
     (let i = hg_register_name hg (re_name entry) in
      if i = 0 then (Inl (RuntimeError (''HG_Register_name failed for '' @ re_name entry)), m)
      else if \<not> hg_register_data hg (re_name entry)
        then (Inl (RuntimeError (''HG_Register_data failed: '' @ hg_error hg)), m)
      else (Inr (), m\<lparr>mc_rpcs_by_name := AList.update (re_name entry) (entry\<lparr>re_id := i\<rparr>) (mc_rpcs_by_name m),
                     mc_rpcs_by_id := mc_rpcs_by_id m @ [(i, re_name entry)]\<rparr>))"

definition register_handler :: "Hg \<Rightarrow> string \<Rightarrow> bool \<Rightarrow> MercuryShard \<Rightarrow> unit result \<times> MercuryShard" where
  "register_handler hg name handler m =
     (let entry = (case map_of (mc_rpcs_by_name m) name of
                     None \<Rightarrow> \<lparr>re_name = name, re_id = 0, re_handler = handler\<rparr>
                   | Some e \<Rightarrow> e\<lparr>re_handler := handler\<rparr>);
          m = m\<lparr>mc_rpcs_by_name := AList.update name entry (mc_rpcs_by_name m)\<rparr>
      in if mc_hg_class m \<and> re_id entry = 0 then bind_rpc_to_mercury hg entry m else (Inr (), m))"

section \<open>The peer cache\<close>

definition set_peer :: "string \<Rightarrow> PeerState \<Rightarrow> MercuryShard \<Rightarrow> MercuryShard" where
  "set_peer peer p m = m\<lparr>mc_peers := AList.update peer p (mc_peers m)\<rparr>"

definition erase_peer :: "string \<Rightarrow> MercuryShard \<Rightarrow> MercuryShard" where
  "erase_peer peer m = m\<lparr>mc_peers := AList.delete peer (mc_peers m)\<rparr>"

definition new_peer :: PeerState where
  "new_peer = \<lparr>peer_addr = None, peer_pools = [], peer_pending_lookup = None\<rparr>"

definition peer_state :: "string \<Rightarrow> MercuryShard \<Rightarrow> PeerState \<times> MercuryShard" where
  "peer_state peer m =
     (case map_of (mc_peers m) peer of
        Some p \<Rightarrow> (p, m)
      | None \<Rightarrow> (new_peer, set_peer peer new_peer m))"

fun take_cached_handle :: "HandlePool list \<Rightarrow> nat \<Rightarrow> nat option \<times> HandlePool list" where
  "take_cached_handle [] rpc_id = (None, [])"
| "take_cached_handle (pool # pools) rpc_id =
     (if hp_rpc_id pool = rpc_id then
        if hp_handles pool = [] then (None, pool # pools)
        else (Some (last (hp_handles pool)), pool\<lparr>hp_handles := butlast (hp_handles pool)\<rparr> # pools)
      else let (handle, rest) = take_cached_handle pools rpc_id in (handle, pool # rest))"

text \<open>The scan of \<^verbatim>\<open>recycle_handle\<close> over the pools of a peer; the handles it destroys come with the result.\<close>

fun recycle_into :: "nat \<Rightarrow> nat \<Rightarrow> HandlePool list \<Rightarrow> nat list \<times> HandlePool list" where
  "recycle_into rpc_id handle [] = ([], [\<lparr>hp_rpc_id = rpc_id, hp_handles = [handle]\<rparr>])"
| "recycle_into rpc_id handle (pool # pools) =
     (if hp_rpc_id pool = rpc_id then
        if length (hp_handles pool) \<ge> kHandlePoolLimitPerPeerRpc then ([handle], pool # pools)
        else ([], pool\<lparr>hp_handles := hp_handles pool @ [handle]\<rparr> # pools)
      else let (destroyed, rest) = recycle_into rpc_id handle pools in (destroyed, pool # rest))"

definition recycle_handle :: "string \<Rightarrow> nat \<Rightarrow> nat \<Rightarrow> MercuryShard \<Rightarrow> MercuryShard" where
  "recycle_handle peer rpc_id handle m =
     (case map_of (mc_peers m) peer of
        None \<Rightarrow> release [Handle handle] m
      | Some p \<Rightarrow>
          (let (destroyed, pools) = recycle_into rpc_id handle (peer_pools p)
           in release (map Handle destroyed) (set_peer peer (p\<lparr>peer_pools := pools\<rparr>) m)))"

definition pooled :: "PeerState \<Rightarrow> nat list" where
  "pooled p = concat (map hp_handles (peer_pools p))"

definition drop_peer :: "string \<Rightarrow> MercuryShard \<Rightarrow> MercuryShard" where
  "drop_peer peer m =
     (case map_of (mc_peers m) peer of
        None \<Rightarrow> m
      | Some p \<Rightarrow>
          (let m = hg_addr_free (peer_addr p) (release (map Handle (pooled p)) m)
           in case peer_pending_lookup p of
                None \<Rightarrow> erase_peer peer m
              | Some l \<Rightarrow> set_peer peer (p\<lparr>peer_pools := [], peer_addr := None\<rparr>) m))"

definition take_pending_lookup :: "string \<Rightarrow> MercuryShard \<Rightarrow> LookupState option \<times> MercuryShard" where
  "take_pending_lookup peer m =
     (case map_of (mc_peers m) peer of
        None \<Rightarrow> (None, m)
      | Some p \<Rightarrow>
          (case peer_pending_lookup p of
             None \<Rightarrow> (None, m)
           | Some l \<Rightarrow>
               (Some l, if peer_addr p = None \<and> peer_pools p = [] then erase_peer peer m
                        else set_peer peer (p\<lparr>peer_pending_lookup := None\<rparr>) m)))"

definition take_orphaned_lookup :: "nat \<Rightarrow> MercuryShard \<Rightarrow> LookupState option \<times> MercuryShard" where
  "take_orphaned_lookup raw m =
     (case List.extract (\<lambda>l. lk_id l = raw) (mc_orphaned_lookups m) of
        None \<Rightarrow> (None, m)
      | Some (before, l, after) \<Rightarrow> (Some l, m\<lparr>mc_orphaned_lookups := before @ after\<rparr>))"

definition arm_progress_timer :: "bool \<Rightarrow> MercuryShard \<Rightarrow> MercuryShard" where
  "arm_progress_timer recently_active m =
     (if mc_running m then
        m\<lparr>mc_progress_timer := Some (if recently_active then kMercuryActiveProgressInterval
                                    else kMercuryIdleProgressInterval)\<rparr>
      else m)"

section \<open>The client side of an RPC\<close>

definition cleanup_client :: "ClientRpcState \<Rightarrow> MercuryShard \<Rightarrow> MercuryShard" where
  "cleanup_client st m =
     (let m = (case cs_origin_bulk st of None \<Rightarrow> m | Some b \<Rightarrow> release [BulkHandle b] m);
          m = (case cs_handle st of
                 None \<Rightarrow> m
               | Some h \<Rightarrow> if cs_recycle_handle st then recycle_handle (cs_peer st) (cs_rpc_id st) h m
                           else release [Handle h] m)
      in if cs_drop_peer_on_cleanup st then drop_peer (cs_peer st) m else m)"

definition fail_client :: "string \<Rightarrow> ClientRpcState \<Rightarrow> MercuryShard \<Rightarrow> MercuryShard" where
  "fail_client msg st m =
     (let st = st\<lparr>cs_timer_armed := False\<rparr>;
          (st, m) = (if cs_promise_done st then (st, m) else complete_promise (Inl (RuntimeError msg)) st m);
          (st, m) = record_forward_latency_if_needed st (on_rpc_error m)
      in cleanup_client st m)"

text \<open>\<^verbatim>\<open>HG_Create\<close>, \<^verbatim>\<open>HG_Forward\<close> and what follows them, with the handle that survived \<^verbatim>\<open>HG_Reset\<close> if any.\<close>

definition create_and_forward :: "Hg \<Rightarrow> ClientRpcState \<Rightarrow> MercuryShard \<Rightarrow> MercuryShard" where
  "create_and_forward hg st m =
     (let (st, m) = (case cs_handle st of
            Some h \<Rightarrow> (st, m)
          | None \<Rightarrow> (case hg_create hg of
                      None \<Rightarrow> (st, m)
                    | Some h \<Rightarrow> (st\<lparr>cs_handle := Some h\<rparr>, acquire (Handle h) m)))
      in if cs_handle st = None
         then fail_client (''HG_Create failed: '' @ hg_error hg) (st\<lparr>cs_drop_peer_on_cleanup := True\<rparr>) m
         else if \<not> hg_forward hg
         then fail_client (''HG_Forward failed: '' @ hg_error hg) (st\<lparr>cs_drop_peer_on_cleanup := True\<rparr>) m
         else m\<lparr>mc_inflight := mc_inflight m @ [st\<lparr>cs_timer_armed := True\<rparr>]\<rparr>)"

definition start_client_forward :: "Hg \<Rightarrow> ClientRpcState \<Rightarrow> MercuryShard \<Rightarrow> MercuryShard" where
  "start_client_forward hg st m =
     (if cs_promise_done st then cleanup_client st m
      else
        let (p, m) = peer_state (cs_peer st) m;
            (handle, pools) = take_cached_handle (peer_pools p) (cs_rpc_id st);
            m = set_peer (cs_peer st) (p\<lparr>peer_pools := pools\<rparr>) m;
            (handle, m) = (case handle of
                             None \<Rightarrow> (None, m)
                           | Some h \<Rightarrow> if hg_reset hg then (Some h, m) else (None, release [Handle h] m))
        in create_and_forward hg (st\<lparr>cs_handle := handle\<rparr>) m)"

text \<open>The timeout timer of an RPC in flight.\<close>

definition timeout_timer :: "nat \<Rightarrow> MercuryShard \<Rightarrow> MercuryShard" where
  "timeout_timer i m =
     (case List.extract (\<lambda>st. cs_id st = i \<and> cs_timer_armed st) (mc_inflight m) of
        None \<Rightarrow> m
      | Some (before, st, after) \<Rightarrow>
          (let st = st\<lparr>cs_timer_armed := False\<rparr>;
               (st, m) = (if cs_promise_done st then (st, m)
                          else let (st, m) = complete_promise (Inl (RuntimeError (''Mercury RPC timed out for peer: '' @ cs_peer st))) st m
                               in record_forward_latency_if_needed st (on_rpc_timeout (on_rpc_error m)))
           in m\<lparr>mc_inflight := before @ st # after\<rparr>))"

text \<open>The completion of \<^verbatim>\<open>HG_Forward\<close>: a transport error with its text, or what \<^verbatim>\<open>HG_Get_output\<close> returns,
  an error with its text or the reply.\<close>

type_synonym completion = "string + string + HgReply"

definition settle_forward ::
    "completion \<Rightarrow> ClientRpcState \<Rightarrow> MercuryShard \<Rightarrow> ClientRpcState \<times> MercuryShard" where
  "settle_forward output st m =
     (case output of
        Inl msg \<Rightarrow>
          (let st = st\<lparr>cs_drop_peer_on_cleanup := True\<rparr>
           in if cs_promise_done st then (st, m)
              else complete_promise (Inl (RuntimeError (''HG_Forward failed: '' @ msg))) st (on_rpc_error m))
      | Inr reply \<Rightarrow>
          (let (st, m) =
             (if cs_promise_done st then (st, m)
              else case reply of
                Inl msg \<Rightarrow>
                  complete_promise (Inl (RuntimeError (''HG_Get_output failed: '' @ msg))) st (on_rpc_error m)
              | Inr out \<Rightarrow>
                  if ry_status out \<noteq> 0
                  then complete_promise (Inl (RuntimeError ''remote Mercury RPC handler failed'')) st (on_rpc_error m)
                  else complete_promise (Inr (ry_payload out)) st m)
           in (st\<lparr>cs_recycle_handle := True\<rparr>, m)))"

definition forward_cb :: "nat \<Rightarrow> completion \<Rightarrow> MercuryShard \<Rightarrow> MercuryShard" where
  "forward_cb i output m =
     (case List.extract (\<lambda>st. cs_id st = i) (mc_inflight m) of
        None \<Rightarrow> m
      | Some (before, st, after) \<Rightarrow>
          (let (st, m) = settle_forward output (st\<lparr>cs_timer_armed := False\<rparr>) (m\<lparr>mc_inflight := before @ after\<rparr>);
               (st, m) = record_forward_latency_if_needed st m
           in cleanup_client st m))"

text \<open>The reference \<^verbatim>\<open>peer\<close> of \<^verbatim>\<open>lookup_cb\<close> is read again for every waiter: when the entry it refers to was erased
  meanwhile, the read is out of bounds. Waiter \<open>i\<close> gets the answers \<open>hg i\<close> from Mercury.\<close>

fun fan_out :: "(nat \<Rightarrow> Hg) \<Rightarrow> string \<Rightarrow> ClientRpcState list \<Rightarrow> MercuryShard \<Rightarrow> MercuryShard result" where
  "fan_out hg peer [] m = Inr m"
| "fan_out hg peer (waiter # waiters) m =
     (case map_of (mc_peers m) peer of
        None \<Rightarrow> Inl OutOfBounds
      | Some p \<Rightarrow>
          fan_out hg peer waiters
            (start_client_forward (hg (cs_id waiter)) (waiter\<lparr>cs_addr := peer_addr p\<rparr>) m))"

text \<open>The lookup whose callback Mercury calls, read through the pointer \<^verbatim>\<open>info->arg\<close>.\<close>

definition lookups :: "MercuryShard \<Rightarrow> LookupState list" where
  "lookups m = List.map_filter (peer_pending_lookup \<circ> snd) (mc_peers m) @ mc_orphaned_lookups m"

definition cache_address :: "string \<Rightarrow> nat \<Rightarrow> MercuryShard \<Rightarrow> MercuryShard" where
  "cache_address peer addr m =
     (let (p, m) = peer_state peer m
      in if peer_addr p = None then set_peer peer (p\<lparr>peer_addr := Some addr\<rparr>) m
         else if peer_addr p \<noteq> Some addr then hg_addr_free (Some addr) m
         else m)"

definition resolve_lookup ::
    "string + nat \<Rightarrow> (nat \<Rightarrow> Hg) \<Rightarrow> LookupState \<Rightarrow> MercuryShard \<Rightarrow> MercuryShard result" where
  "resolve_lookup outcome hg l m =
     (if lk_cancelled l then Inr m
      else case outcome of
        Inl msg \<Rightarrow> Inr (fold (fail_client (''HG_Addr_lookup failed: '' @ msg)) (lk_waiters l) m)
      | Inr addr \<Rightarrow> fan_out hg (lk_peer l) (lk_waiters l) (cache_address (lk_peer l) addr m))"

definition lookup_cb :: "nat \<Rightarrow> string + nat \<Rightarrow> (nat \<Rightarrow> Hg) \<Rightarrow> MercuryShard \<Rightarrow> MercuryShard result" where
  "lookup_cb i outcome hg m =
     (case List.find (\<lambda>l. lk_id l = i) (lookups m) of
        None \<Rightarrow> Inr m
      | Some raw \<Rightarrow>
          (case take_pending_lookup (lk_peer raw) m of
             (Some l, m) \<Rightarrow> resolve_lookup outcome hg l m
           | (None, m) \<Rightarrow>
               (case take_orphaned_lookup i m of
                  (Some l, m) \<Rightarrow> resolve_lookup outcome hg l m
                | (None, m) \<Rightarrow> Inr m)))"

text \<open>What \<^verbatim>\<open>forward\<close> returns: a future that failed at once, the future of the local handler (called with the
  payload), or the future of a promise.\<close>

datatype forwarded = Failed error | LocalHandler string bytes | Pending nat

definition make_input :: "bytes \<Rightarrow> nat option \<Rightarrow> HgRequest" where
  "make_input payload bulk =
     (case bulk of
        None \<Rightarrow> \<lparr>rq_mode = mode_code Eager, rq_eager = payload, rq_bulk_size = 0, rq_bulk_handle = None\<rparr>
      | Some b \<Rightarrow> \<lparr>rq_mode = mode_code Bulk, rq_eager = [], rq_bulk_size = length payload, rq_bulk_handle = Some b\<rparr>)"

definition new_client :: "nat \<Rightarrow> string \<Rightarrow> nat \<Rightarrow> bytes \<Rightarrow> nat option \<Rightarrow> ClientRpcState" where
  "new_client i peer rpc_id payload bulk =
     \<lparr>cs_id = i, cs_addr = None, cs_handle = None, cs_rpc_id = rpc_id, cs_peer = peer, cs_request = payload,
      cs_input = make_input payload bulk, cs_origin_bulk = bulk, cs_timer_armed = False, cs_promise_done = False,
      cs_latency_recorded = False, cs_recycle_handle = False, cs_drop_peer_on_cleanup = False\<rparr>"

text \<open>The registry part of \<^verbatim>\<open>forward\<close>: the id of the RPC, which is registered without a handler when it is unknown.\<close>

definition rpc_to_forward :: "Hg \<Rightarrow> string \<Rightarrow> MercuryShard \<Rightarrow> nat result \<times> MercuryShard" where
  "rpc_to_forward hg rpc m =
     (let (r, m) = (case find_rpc_by_name rpc m of
                      (Some entry, m) \<Rightarrow> (Inr (), m)
                    | (None, m) \<Rightarrow> (case register_handler hg rpc False m of
                        (Inl e, m) \<Rightarrow> (Inl e, m)
                      | (Inr _, m) \<Rightarrow> (Inr (), snd (find_rpc_by_name rpc m))))
      in case r of
           Inl e \<Rightarrow> (Inl e, m)
         | Inr _ \<Rightarrow>
             (case map_of (mc_rpcs_by_name m) rpc of
                None \<Rightarrow> (Inl OutOfBounds, m)
              | Some entry \<Rightarrow>
                  if re_id entry \<noteq> 0 then (Inr (re_id entry), m)
                  else case bind_rpc_to_mercury hg entry m of
                         (Inl e, m) \<Rightarrow> (Inl e, m)
                       | (Inr _, m) \<Rightarrow> (Inr (hg_register_name hg (re_name entry)), m)))"

text \<open>The part after the promise exists: send at once to a known address, join the pending lookup, or start one.\<close>

definition send_or_lookup :: "Hg \<Rightarrow> ClientRpcState \<Rightarrow> MercuryShard \<Rightarrow> MercuryShard" where
  "send_or_lookup hg st m =
     (let (p, m) = peer_state (cs_peer st) m
      in case peer_addr p of
           Some a \<Rightarrow> start_client_forward hg (st\<lparr>cs_addr := Some a\<rparr>) m
         | None \<Rightarrow>
             (case peer_pending_lookup p of
                Some l \<Rightarrow>
                  set_peer (cs_peer st) (p\<lparr>peer_pending_lookup := Some (l\<lparr>lk_waiters := lk_waiters l @ [st]\<rparr>)\<rparr>) m
              | None \<Rightarrow>
                  (let l = \<lparr>lk_id = cs_id st, lk_peer = cs_peer st, lk_waiters = [st], lk_cancelled = False\<rparr>;
                       m = set_peer (cs_peer st) (p\<lparr>peer_pending_lookup := Some l\<rparr>) m
                   in if hg_addr_lookup hg then m
                      else case take_pending_lookup (cs_peer st) m of
                             (None, m) \<Rightarrow> m
                           | (Some l, m) \<Rightarrow>
                               fold (fail_client (''HG_Addr_lookup failed: '' @ hg_error hg)) (lk_waiters l) m)))"

definition forward :: "Hg \<Rightarrow> string \<Rightarrow> string \<Rightarrow> bytes \<Rightarrow> MercuryShard \<Rightarrow> forwarded result \<times> MercuryShard" where
  "forward hg peer rpc payload m =
     (if peer = mc_address m then
        (case find_rpc_by_name rpc m of
           (None, m) \<Rightarrow> (Inr (Failed (RuntimeError (''Mercury RPC is not registered: '' @ rpc))), m)
         | (Some entry, m) \<Rightarrow>
             if \<not> re_handler entry then (Inr (Failed (RuntimeError (''Mercury RPC is not registered: '' @ rpc))), m)
             else (Inr (LocalHandler rpc payload), m))
      else if \<not> mc_running m \<or> \<not> mc_hg_class m \<or> \<not> mc_hg_context m then
        (Inr (Failed (RuntimeError ''Mercury shard is not running'')), m)
      else case rpc_to_forward hg rpc m of
        (Inl e, m) \<Rightarrow> (Inl e, m)
      | (Inr rpc_id, m) \<Rightarrow>
          (let m = on_rpc_forward m
           in if length payload \<ge> kBulkTransferThreshold \<and> hg_bulk_create hg = None then
                (Inr (Failed (RuntimeError (''HG_Bulk_create failed: '' @ hg_error hg))), on_rpc_error m)
              else
                let bulk = (if length payload \<ge> kBulkTransferThreshold then hg_bulk_create hg else None);
                    m = (case bulk of None \<Rightarrow> m | Some b \<Rightarrow> acquire (BulkHandle b) m);
                    i = mc_next_id m;
                    m = m\<lparr>mc_next_id := Suc i\<rparr>
                in (Inr (Pending i), send_or_lookup hg (new_client i peer rpc_id payload bulk) m)))"

section \<open>Starting and stopping\<close>

definition cancel_waiter :: "ClientRpcState \<Rightarrow> MercuryShard \<Rightarrow> MercuryShard" where
  "cancel_waiter st m =
     (let (st, m) = (if cs_promise_done st then (st, m)
                     else complete_promise (Inl (RuntimeError ''Mercury shard stopped during address lookup'')) st m)
      in cleanup_client st m)"

definition clear_peer :: "PeerState \<Rightarrow> MercuryShard \<Rightarrow> MercuryShard" where
  "clear_peer p m =
     (let m = (case peer_pending_lookup p of
                 None \<Rightarrow> m
               | Some l \<Rightarrow>
                   (let m = fold cancel_waiter (lk_waiters l) m
                    in m\<lparr>mc_orphaned_lookups := mc_orphaned_lookups m @ [l\<lparr>lk_cancelled := True, lk_waiters := []\<rparr>]\<rparr>))
      in hg_addr_free (peer_addr p) (release (map Handle (pooled p)) m))"

definition clear_all_peers :: "MercuryShard \<Rightarrow> MercuryShard" where
  "clear_all_peers m = (fold (clear_peer \<circ> snd) (mc_peers m) m)\<lparr>mc_peers := []\<rparr>"

fun bind_unbound :: "Hg \<Rightarrow> (string \<times> RpcEntry) list \<Rightarrow> MercuryShard \<Rightarrow> unit result \<times> MercuryShard" where
  "bind_unbound hg [] m = (Inr (), m)"
| "bind_unbound hg ((name, entry) # entries) m =
     (if re_id entry = 0 then
        case bind_rpc_to_mercury hg entry m of
          (Inl e, m) \<Rightarrow> (Inl e, m)
        | (Inr _, m) \<Rightarrow> bind_unbound hg entries m
      else bind_unbound hg entries m)"

definition start :: "Hg \<Rightarrow> string \<Rightarrow> MercuryShard \<Rightarrow> unit result \<times> MercuryShard" where
  "start hg address m =
     (if mc_running m then (Inr (), m)
      else if \<not> hg_init hg then (Inl (RuntimeError (''HG_Init failed for '' @ address)), m\<lparr>mc_hg_class := False\<rparr>)
      else if \<not> hg_context_create hg then
        (Inl (RuntimeError ''HG_Context_create failed''), m\<lparr>mc_hg_class := False, mc_hg_context := False\<rparr>)
      else
        case bind_unbound hg (mc_rpcs_by_name m)
               (m\<lparr>mc_hg_class := True, mc_hg_context := True, mc_address := address, mc_running := True\<rparr>) of
          (Inl e, m) \<Rightarrow> (Inl e, m)
        | (Inr _, m) \<Rightarrow> (Inr (), arm_progress_timer False m))"

definition stop :: "MercuryShard \<Rightarrow> MercuryShard" where
  "stop m =
     (if \<not> mc_running m then m
      else
        let m = m\<lparr>mc_running := False, mc_progress_timer := None\<rparr>;
            m = (if mc_hg_class m then clear_all_peers m else m)
        in m\<lparr>mc_hg_context := False, mc_hg_class := False, mc_rpcs_by_id := [], mc_last_rpc := None,
             mc_rpcs_by_name := map (\<lambda>(name, entry). (name, entry\<lparr>re_id := 0\<rparr>)) (mc_rpcs_by_name m)\<rparr>)"

section \<open>The server side of an RPC\<close>

definition respond_server :: "Hg \<Rightarrow> ServerRpcState \<Rightarrow> MercuryShard \<Rightarrow> MercuryShard" where
  "respond_server hg st m =
     (let m = record_handler_latency m
      in if hg_respond hg then
           m\<lparr>mc_responding := mc_responding m @ [st],
             mc_responses := mc_responses m @ [(ss_handle st, \<lparr>ry_status = ss_status st, ry_payload = ss_response st\<rparr>)]\<rparr>
         else release [Handle (ss_handle st)] m)"

text \<open>\<open>throws rpc request\<close>: the handler of the RPC raises an exception before it returns a future. Nothing on
  the way to Mercury's C code catches it.\<close>

definition run_server_handler ::
    "(string \<Rightarrow> bytes \<Rightarrow> bool) \<Rightarrow> ServerRpcState \<Rightarrow> MercuryShard \<Rightarrow> MercuryShard result" where
  "run_server_handler throws st m =
     (if throws (ss_rpc st) (ss_request st) then Inl (RuntimeError ''RPC handler raised an exception'')
      else Inr (m\<lparr>mc_handling := mc_handling m @ [st\<lparr>ss_request := []\<rparr>]\<rparr>))"

text \<open>The continuation of the handler's future.\<close>

definition handler_done :: "Hg \<Rightarrow> nat \<Rightarrow> bytes result \<Rightarrow> MercuryShard \<Rightarrow> MercuryShard" where
  "handler_done hg h outcome m =
     (case List.extract (\<lambda>st. ss_handle st = h) (mc_handling m) of
        None \<Rightarrow> m
      | Some (before, st, after) \<Rightarrow>
          (let m = m\<lparr>mc_handling := before @ after\<rparr>
           in case outcome of
                Inr response \<Rightarrow> respond_server hg (st\<lparr>ss_response := response, ss_status := 0\<rparr>) m
              | Inl e \<Rightarrow> respond_server hg (st\<lparr>ss_response := [], ss_status := -1\<rparr>) (on_rpc_error m)))"

definition cleanup_server_bulk :: "ServerRpcState \<Rightarrow> MercuryShard \<Rightarrow> ServerRpcState \<times> MercuryShard" where
  "cleanup_server_bulk st m =
     (st\<lparr>ss_local_bulk := None, ss_input_loaded := False\<rparr>,
      case ss_local_bulk st of None \<Rightarrow> m | Some b \<Rightarrow> release [BulkHandle b] m)"

definition respond_bulk_error :: "Hg \<Rightarrow> ServerRpcState \<Rightarrow> MercuryShard \<Rightarrow> MercuryShard" where
  "respond_bulk_error hg st m =
     (let (st, m) = cleanup_server_bulk st (on_bulk_error (on_rpc_error m))
      in respond_server hg (st\<lparr>ss_status := -1\<rparr>) m)"

definition pull_request :: "Hg \<Rightarrow> ServerRpcState \<Rightarrow> MercuryShard \<Rightarrow> MercuryShard" where
  "pull_request hg st m =
     (let size = rq_bulk_size (ss_input st)
      in if size = 0 \<or> rq_bulk_handle (ss_input st) = None then respond_bulk_error hg st m
         else
           let st = st\<lparr>ss_request := replicate size 0\<rparr>
           in case hg_bulk_create hg of
                None \<Rightarrow> respond_bulk_error hg st m
              | Some b \<Rightarrow>
                  (let st = st\<lparr>ss_local_bulk := Some b\<rparr>; m = acquire (BulkHandle b) m
                   in if hg_bulk_transfer hg then m\<lparr>mc_pulling := mc_pulling m @ [st]\<rparr>
                      else respond_bulk_error hg st m))"

definition handle_rpc ::
    "(string \<Rightarrow> bytes \<Rightarrow> bool) \<Rightarrow> Hg \<Rightarrow> nat \<Rightarrow> MercuryShard \<Rightarrow> MercuryShard result" where
  "handle_rpc throws hg h m =
     (let m = on_rpc_receive m
      in case hg_get_info hg of
           None \<Rightarrow> Inr (release [Handle h] (on_rpc_error m))
         | Some rpc_id \<Rightarrow>
             (case find_rpc_by_id rpc_id m of
                None \<Rightarrow> Inr (release [Handle h] (on_rpc_error m))
              | Some rpc \<Rightarrow>
                  if \<not> re_handler rpc then Inr (release [Handle h] (on_rpc_error m))
                  else case hg_get_input hg of
                    None \<Rightarrow> Inr (release [Handle h] (on_rpc_error m))
                  | Some input \<Rightarrow>
                      (let st = \<lparr>ss_handle = h, ss_rpc = re_name rpc, ss_input = input, ss_input_loaded = True,
                                 ss_local_bulk = None, ss_request = [], ss_response = [], ss_status = 0\<rparr>
                       in if rq_mode input \<noteq> mode_code Bulk then
                            let (st, m) = cleanup_server_bulk (st\<lparr>ss_request := rq_eager input\<rparr>) m
                            in run_server_handler throws st m
                          else Inr (pull_request hg st m))))"

text \<open>Mercury hands the handle of an incoming request to \<^verbatim>\<open>dispatch_cb\<close>.\<close>

definition dispatch_cb ::
    "(string \<Rightarrow> bytes \<Rightarrow> bool) \<Rightarrow> Hg \<Rightarrow> nat \<Rightarrow> MercuryShard \<Rightarrow> MercuryShard result" where
  "dispatch_cb throws hg h m =
     (let m = acquire (Handle h) m
      in if hg_get_info hg = None \<or> \<not> hg_registered_data hg then Inr (release [Handle h] m)
         else handle_rpc throws hg h m)"

definition respond_cb :: "nat \<Rightarrow> MercuryShard \<Rightarrow> MercuryShard" where
  "respond_cb h m =
     (case List.extract (\<lambda>st. ss_handle st = h) (mc_responding m) of
        None \<Rightarrow> m
      | Some (before, st, after) \<Rightarrow> release [Handle (ss_handle st)] (m\<lparr>mc_responding := before @ after\<rparr>))"

text \<open>The end of a pull: \<open>None\<close> is an error, otherwise the buffer holds the bytes pulled.\<close>

definition bulk_pull_cb ::
    "(string \<Rightarrow> bytes \<Rightarrow> bool) \<Rightarrow> Hg \<Rightarrow> nat \<Rightarrow> bytes option \<Rightarrow> MercuryShard \<Rightarrow> MercuryShard result" where
  "bulk_pull_cb throws hg h pulled m =
     (case List.extract (\<lambda>st. ss_handle st = h) (mc_pulling m) of
        None \<Rightarrow> Inr m
      | Some (before, st, after) \<Rightarrow>
          (let m = record_bulk_latency (m\<lparr>mc_pulling := before @ after\<rparr>);
               (st, m) = (case pulled of
                 Some request \<Rightarrow> (st\<lparr>ss_request := request\<rparr>, on_bulk_transfer (length request) m)
               | None \<Rightarrow> (st\<lparr>ss_request := [], ss_response := [], ss_status := -1\<rparr>, on_bulk_error (on_rpc_error m)));
               (st, m) = cleanup_server_bulk st m
           in case map_of (mc_rpcs_by_name m) (ss_rpc st) of
                None \<Rightarrow> Inr (respond_server hg st m)
              | Some rpc \<Rightarrow> if pulled \<noteq> None \<and> re_handler rpc then run_server_handler throws st m
                            else Inr (respond_server hg st m)))"

section \<open>The progress loop\<close>

text \<open>The callbacks \<^verbatim>\<open>HG_Trigger\<close> runs.\<close>

datatype callback =
    LookupDone nat "string + nat" "nat \<Rightarrow> Hg"
  | ForwardDone nat completion
  | Incoming Hg nat
  | PullDone Hg nat "bytes option"
  | RespondDone nat

fun run_callback :: "(string \<Rightarrow> bytes \<Rightarrow> bool) \<Rightarrow> callback \<Rightarrow> MercuryShard \<Rightarrow> MercuryShard result" where
  "run_callback throws (LookupDone i outcome hg) m = lookup_cb i outcome hg m"
| "run_callback throws (ForwardDone i output) m = Inr (forward_cb i output m)"
| "run_callback throws (Incoming hg h) m = dispatch_cb throws hg h m"
| "run_callback throws (PullDone hg h pulled) m = bulk_pull_cb throws hg h pulled m"
| "run_callback throws (RespondDone h) m = Inr (respond_cb h m)"

text \<open>The inner loop: call \<open>k\<close> to \<^verbatim>\<open>HG_Trigger\<close> fails or runs a batch of callbacks; an empty batch ends the loop,
  which has no other bound.\<close>

partial_function (option) trigger_callbacks ::
    "(string \<Rightarrow> bytes \<Rightarrow> bool) \<Rightarrow> (nat \<Rightarrow> callback list option) \<Rightarrow> nat \<Rightarrow> bool \<Rightarrow> MercuryShard
      \<Rightarrow> (bool \<times> MercuryShard) result option" where
  "trigger_callbacks throws trig k triggered m =
     (case trig k of
        None \<Rightarrow> Some (Inr (triggered, m))
      | Some cbs \<Rightarrow>
          (case foldR (run_callback throws) (take kMercuryTriggerBatch cbs) m of
             Inl e \<Rightarrow> Some (Inl e)
           | Inr m' \<Rightarrow>
               if cbs = [] then Some (Inr (triggered, m')) else trigger_callbacks throws trig (Suc k) True m'))"

fun progress_rounds ::
    "(string \<Rightarrow> bytes \<Rightarrow> bool) \<Rightarrow> (nat \<Rightarrow> nat \<Rightarrow> callback list option) \<Rightarrow> (nat \<Rightarrow> bool) \<Rightarrow> nat \<Rightarrow> nat \<Rightarrow> bool
      \<Rightarrow> MercuryShard \<Rightarrow> (bool \<times> MercuryShard) result option" where
  "progress_rounds throws trig prog round 0 progressed m = Some (Inr (progressed, m))"
| "progress_rounds throws trig prog round (Suc left) progressed m =
     (case trigger_callbacks throws (trig round) 0 False m of
        None \<Rightarrow> None
      | Some (Inl e) \<Rightarrow> Some (Inl e)
      | Some (Inr (triggered, m)) \<Rightarrow>
          if prog round then progress_rounds throws trig prog (Suc round) left True m
          else if \<not> triggered then Some (Inr (progressed, m))
          else progress_rounds throws trig prog (Suc round) left True m)"

definition progress_once ::
    "(string \<Rightarrow> bytes \<Rightarrow> bool) \<Rightarrow> (nat \<Rightarrow> nat \<Rightarrow> callback list option) \<Rightarrow> (nat \<Rightarrow> bool)
      \<Rightarrow> MercuryShard \<Rightarrow> (bool \<times> MercuryShard) result option" where
  "progress_once throws trig prog m =
     (if \<not> mc_running m \<or> \<not> mc_hg_context m then Some (Inr (False, m))
      else progress_rounds throws trig prog 0 kMercuryProgressRounds False m)"

text \<open>The callback of the progress timer.\<close>

definition progress_timer ::
    "(string \<Rightarrow> bytes \<Rightarrow> bool) \<Rightarrow> (nat \<Rightarrow> nat \<Rightarrow> callback list option) \<Rightarrow> (nat \<Rightarrow> bool)
      \<Rightarrow> MercuryShard \<Rightarrow> MercuryShard result option" where
  "progress_timer throws trig prog m =
     (case progress_once throws trig prog m of
        None \<Rightarrow> None
      | Some (Inl e) \<Rightarrow> Some (Inl e)
      | Some (Inr (progressed, m)) \<Rightarrow> Some (Inr (arm_progress_timer progressed m)))"

end
