(* ===== verification/Mercury_Properties.thy ===== *)
theory Mercury_Properties
  imports Mercury_Shard
begin

text \<open>Where every handle, bulk handle and promise of the RPC layer is: an account of what the shard obtained,
  gave back and still holds, kept by every operation, and what follows for the futures given to callers.\<close>

section \<open>The account\<close>

text \<open>What an object holds: its promise while it is open, its handle and its bulk handle.\<close>

definition held_handles :: "ClientRpcState \<Rightarrow> resource multiset" where
  "held_handles st =
     (case cs_handle st of None \<Rightarrow> {#} | Some h \<Rightarrow> {#Handle h#}) +
     (case cs_origin_bulk st of None \<Rightarrow> {#} | Some b \<Rightarrow> {#BulkHandle b#})"

definition client_owns :: "ClientRpcState \<Rightarrow> resource multiset" where
  "client_owns st = (if cs_promise_done st then {#} else {#Promise (cs_id st)#}) + held_handles st"

definition server_owns :: "ServerRpcState \<Rightarrow> resource multiset" where
  "server_owns st = {#Handle (ss_handle st)#} +
     (case ss_local_bulk st of None \<Rightarrow> {#} | Some b \<Rightarrow> {#BulkHandle b#})"

definition waiters :: "PeerState \<Rightarrow> ClientRpcState list" where
  "waiters p = (case peer_pending_lookup p of None \<Rightarrow> [] | Some l \<Rightarrow> lk_waiters l)"

definition peer_owns :: "PeerState \<Rightarrow> resource multiset" where
  "peer_owns p = mset (map Handle (pooled p)) + sum_list (map client_owns (waiters p))"

definition peers_own :: "(string \<times> PeerState) list \<Rightarrow> resource multiset" where
  "peers_own ps = sum_list (map (peer_owns \<circ> snd) ps)"

definition acquired :: "MercuryShard \<Rightarrow> resource multiset" where
  "acquired m = mset (mc_acquired m) + mset (map Promise [0..<mc_next_id m])"

definition released :: "MercuryShard \<Rightarrow> resource multiset" where
  "released m = mset (mc_released m) + mset (map (Promise \<circ> fst) (mc_completions m))"

definition held :: "MercuryShard \<Rightarrow> resource multiset" where
  "held m = peers_own (mc_peers m) + sum_list (map client_owns (mc_inflight m)) +
     sum_list (map server_owns (mc_pulling m)) + sum_list (map server_owns (mc_handling m)) +
     sum_list (map server_owns (mc_responding m))"

definition account :: "MercuryShard \<Rightarrow> resource multiset" where
  "account m = released m + held m"

text \<open>Well-formed states: one entry per peer, no pool beyond its limit, RPCs that wait for a lookup hold no
  handle and are not completed, a pending lookup is not cancelled, RPCs in flight have a handle, and a running timer unless they are completed, a cancelled
  lookup has no waiters left, and a request that was pulled has no bulk handle any more.\<close>

definition waiter_ok :: "ClientRpcState \<Rightarrow> bool" where
  "waiter_ok st \<longleftrightarrow> \<not> cs_promise_done st \<and> cs_handle st = None \<and> \<not> cs_drop_peer_on_cleanup st"

definition inflight_ok :: "ClientRpcState \<Rightarrow> bool" where
  "inflight_ok st \<longleftrightarrow> cs_handle st \<noteq> None \<and> cs_promise_done st = (\<not> cs_timer_armed st)"

definition pool_ok :: "HandlePool \<Rightarrow> bool" where
  "pool_ok pool \<longleftrightarrow> length (hp_handles pool) \<le> kHandlePoolLimitPerPeerRpc"

definition peer_ok :: "PeerState \<Rightarrow> bool" where
  "peer_ok p \<longleftrightarrow> list_all pool_ok (peer_pools p) \<and> list_all waiter_ok (waiters p) \<and>
     (\<forall>l\<in>set_option (peer_pending_lookup p). \<not> lk_cancelled l)"

definition orphan_ok :: "LookupState \<Rightarrow> bool" where
  "orphan_ok l \<longleftrightarrow> lk_cancelled l \<and> lk_waiters l = []"

text \<open>The resources Mercury hands out.\<close>

fun from_hg :: "resource \<Rightarrow> bool" where
  "from_hg (Promise i) = False"
| "from_hg _ = True"

lemma from_hg_handles [simp]: "list_all from_hg (map Handle hs)"
  by (simp add: list_all_iff)

definition peers_ok :: "(string \<times> PeerState) list \<Rightarrow> bool" where
  "peers_ok ps \<longleftrightarrow> distinct (map fst ps) \<and> (\<forall>p\<in>snd ` set ps. peer_ok p)"

definition shard_ok :: "MercuryShard \<Rightarrow> bool" where
  "shard_ok m \<longleftrightarrow> peers_ok (mc_peers m) \<and> list_all inflight_ok (mc_inflight m) \<and>
     list_all orphan_ok (mc_orphaned_lookups m) \<and>
     list_all (\<lambda>st. ss_local_bulk st = None) (mc_handling m) \<and> list_all (\<lambda>st. ss_local_bulk st = None) (mc_responding m) \<and>
     list_all from_hg (mc_acquired m) \<and> list_all from_hg (mc_released m)"

text \<open>\<open>moves a b m m'\<close>: a step from \<open>m\<close> to \<open>m'\<close> that starts with the resources \<open>a\<close> in hand, of an object that belongs
  to no list of the state, and ends with \<open>b\<close> in hand. Nothing is lost and nothing counted twice on the way.\<close>

definition moves :: "resource multiset \<Rightarrow> resource multiset \<Rightarrow> MercuryShard \<Rightarrow> MercuryShard \<Rightarrow> bool" where
  "moves a b m m' \<longleftrightarrow>
     (shard_ok m \<longrightarrow> shard_ok m' \<and> account m' + b + acquired m = account m + a + acquired m')"

named_theorems effects

lemmas [effects] = on_rpc_forward_def on_rpc_receive_def on_rpc_error_def on_rpc_timeout_def on_bulk_transfer_def
  on_bulk_error_def record_handler_latency_def record_bulk_latency_def acquire_def release_def hg_addr_free_def
  complete_promise_def record_forward_latency_if_needed_def

lemmas accounts = moves_def account_def acquired_def released_def held_def shard_ok_def

section \<open>Lists and peers\<close>

lemma sum_list_update:
  fixes f :: "'v \<Rightarrow> 'a multiset"
  assumes "distinct (map fst xs)"
  shows "sum_list (map (f \<circ> snd) (AList.update k v xs)) + (case map_of xs k of None \<Rightarrow> {#} | Some w \<Rightarrow> f w) =
    sum_list (map (f \<circ> snd) xs) + f v"
  using assms by (induction xs) (auto simp: union_ac split: option.splits)

lemma sum_list_delete:
  fixes f :: "'v \<Rightarrow> 'a multiset"
  assumes "distinct (map fst xs)"
  shows "sum_list (map (f \<circ> snd) (AList.delete k xs)) + (case map_of xs k of None \<Rightarrow> {#} | Some w \<Rightarrow> f w) =
    sum_list (map (f \<circ> snd) xs)"
  using assms
proof (induction xs)
  case (Cons x xs)
  show ?case
  proof (cases "fst x = k")
    case True
    then have "AList.delete k xs = xs" using Cons.prems by (auto intro: delete_id)
    then show ?thesis using True by (cases x) (simp add: union_ac)
  next
    case False
    then show ?thesis using Cons by (cases x) (simp add: union_ac)
  qed
qed simp

lemma extract_split: "List.extract P xs = Some (ys, x, zs) \<Longrightarrow> xs = ys @ x # zs \<and> P x"
  by (simp add: extract_Some_iff)

lemma set_update_subset: "set (AList.update k v xs) \<subseteq> insert (k, v) (set xs)"
  by (induction xs) auto

lemma peers_ok_update: "peers_ok ps \<Longrightarrow> peer_ok p \<Longrightarrow> peers_ok (AList.update k p ps)"
  using set_update_subset [of k p ps] unfolding peers_ok_def by (auto simp: distinct_update)

lemma peers_ok_delete: "peers_ok ps \<Longrightarrow> peers_ok (AList.delete k ps)"
  unfolding peers_ok_def by (auto simp: AList.delete_eq intro: distinct_map_filter)

lemma peers_ok_lookup: "peers_ok ps \<Longrightarrow> map_of ps k = Some p \<Longrightarrow> peer_ok p"
  by (auto simp: peers_ok_def dest: map_of_SomeD)

lemma peers_own_update:
  "peers_ok ps \<Longrightarrow> map_of ps k = Some q \<Longrightarrow> peers_own (AList.update k p ps) + peer_owns q = peers_own ps + peer_owns p"
  "peers_ok ps \<Longrightarrow> map_of ps k = None \<Longrightarrow> peers_own (AList.update k p ps) = peers_own ps + peer_owns p"
  using sum_list_update [of ps peer_owns k p] by (simp_all add: peers_ok_def peers_own_def)

lemma peers_own_delete:
  "peers_ok ps \<Longrightarrow> map_of ps k = Some q \<Longrightarrow> peers_own (AList.delete k ps) + peer_owns q = peers_own ps"
  using sum_list_delete [of ps peer_owns k] by (simp add: peers_ok_def peers_own_def)

section \<open>Composition\<close>

lemma moves_trans:
  assumes "moves a b m m'" "moves b c m' m''"
  shows "moves a c m m''"
  unfolding moves_def
proof (intro impI conjI)
  assume ok: "shard_ok m"
  have ok': "shard_ok m'" and 1: "account m' + b + acquired m = account m + a + acquired m'"
    using assms(1) ok by (simp_all add: moves_def)
  show "shard_ok m''" using assms(2) ok' by (simp add: moves_def)
  have 2: "account m'' + c + acquired m' = account m' + b + acquired m''" using assms(2) ok' by (simp add: moves_def)
  have "(account m'' + c + acquired m) + (account m' + b + acquired m') =
      (account m' + b + acquired m) + (account m'' + c + acquired m')" by (simp only: add_ac)
  also have "\<dots> = (account m + a + acquired m') + (account m' + b + acquired m'')" by (simp only: 1 2)
  also have "\<dots> = (account m + a + acquired m'') + (account m' + b + acquired m')" by (simp only: add_ac)
  finally show "account m'' + c + acquired m = account m + a + acquired m''" by simp
qed

lemma moves_refl: "moves a a m m"
  by (simp add: moves_def)

lemma moves_frame: "moves a b m m' \<Longrightarrow> moves (a + c) (b + c) m m'"
  by (auto simp: moves_def add.assoc)

lemma moves_unframe: "moves a a m m' \<Longrightarrow> moves {#} {#} m m'"
  by (auto simp: moves_def)

lemma moves_ok: "moves a b m m' \<Longrightarrow> shard_ok m \<Longrightarrow> shard_ok m'"
  by (simp add: moves_def)

section \<open>The pools\<close>

definition in_pools :: "HandlePool list \<Rightarrow> nat multiset" where
  "in_pools ps = mset (concat (map hp_handles ps))"

lemma in_pools_simps [simp]:
  "in_pools [] = {#}"
  "in_pools (pool # ps) = mset (hp_handles pool) + in_pools ps"
  by (simp_all add: in_pools_def)

lemma peer_owns_pools:
  "peer_owns p = image_mset Handle (in_pools (peer_pools p)) + sum_list (map client_owns (waiters p))"
  by (simp add: peer_owns_def pooled_def in_pools_def)

lemma take_cached_handle_pools:
  "take_cached_handle ps r = (h, ps') \<Longrightarrow> list_all pool_ok ps \<Longrightarrow>
   list_all pool_ok ps' \<and> in_pools ps = in_pools ps' + (case h of None \<Rightarrow> {#} | Some x \<Rightarrow> {#x#})"
proof (induction ps arbitrary: ps' h)
  case (Cons pool ps)
  show ?case
  proof (cases "hp_rpc_id pool = r")
    case True
    show ?thesis
    proof (cases "hp_handles pool" rule: rev_cases)
      case Nil
      then show ?thesis using True Cons.prems by auto
    next
      case (snoc hs x)
      then show ?thesis using True Cons.prems by (auto simp: pool_ok_def)
    qed
  next
    case False
    obtain h1 ps1 where "take_cached_handle ps r = (h1, ps1)" by (cases "take_cached_handle ps r")
    then show ?thesis using False Cons.prems Cons.IH [of h1 ps1] by auto
  qed
qed simp

lemma recycle_into_pools:
  "recycle_into r h ps = (destroyed, ps') \<Longrightarrow> list_all pool_ok ps \<Longrightarrow>
   list_all pool_ok ps' \<and> mset destroyed + in_pools ps' = add_mset h (in_pools ps)"
proof (induction ps arbitrary: ps' destroyed)
  case Nil
  then show ?case by (auto simp: pool_ok_def kHandlePoolLimitPerPeerRpc_def)
next
  case (Cons pool ps)
  show ?case
  proof (cases "hp_rpc_id pool = r")
    case True
    then show ?thesis using Cons.prems by (cases "length (hp_handles pool) \<ge> kHandlePoolLimitPerPeerRpc") (auto simp: pool_ok_def)
  next
    case False
    obtain d1 ps1 where d: "recycle_into r h ps = (d1, ps1)" by (cases "recycle_into r h ps")
    have e: "destroyed = d1" "ps' = pool # ps1" using False Cons.prems(1) by (simp_all add: d)
    have "list_all pool_ok ps1 \<and> mset d1 + in_pools ps1 = add_mset h (in_pools ps)"
      using Cons.IH [OF d] Cons.prems(2) by simp
    then show ?thesis using Cons.prems(2) unfolding e in_pools_simps
      by (simp add: add.left_commute [of "mset d1"])
  qed
qed

section \<open>Operations on one RPC\<close>

lemma moves_effects:
  "moves a a m (on_rpc_forward m)" "moves a a m (on_rpc_receive m)" "moves a a m (on_rpc_error m)"
  "moves a a m (on_rpc_timeout m)" "moves a a m (on_bulk_transfer n m)" "moves a a m (on_bulk_error m)"
  "moves a a m (record_handler_latency m)" "moves a a m (record_bulk_latency m)" "moves a a m (hg_addr_free x m)"
  by (simp_all add: accounts effects)

lemma moves_release: "list_all from_hg rs \<Longrightarrow> moves (mset rs) {#} m (release rs m)"
  by (simp add: accounts effects)

lemma moves_acquire: "from_hg r \<Longrightarrow> moves a (a + {#r#}) m (acquire r m)"
  by (simp add: accounts effects)

lemma moves_peers:
  assumes hg: "list_all from_hg rs"
    and peers: "shard_ok m \<Longrightarrow> peers_ok ps \<and> peers_own ps + mset rs + b = peers_own (mc_peers m) + a"
  shows "moves a b m (release rs (m\<lparr>mc_peers := ps\<rparr>))"
  unfolding moves_def
proof (intro impI)
  assume ok: "shard_ok m"
  let ?m = "release rs (m\<lparr>mc_peers := ps\<rparr>)"
  define rest where "rest = released m + (sum_list (map client_owns (mc_inflight m)) +
     sum_list (map server_owns (mc_pulling m)) + sum_list (map server_owns (mc_handling m)) +
     sum_list (map server_owns (mc_responding m)))"
  have 1: "account m = peers_own (mc_peers m) + rest" unfolding account_def held_def rest_def by (simp only: add_ac)
  have "account ?m = (peers_own ps + mset rs) + rest"
    unfolding account_def held_def rest_def released_def release_def by simp
  then have "account ?m + b = (peers_own ps + mset rs + b) + rest" by (simp only: add_ac)
  also have "\<dots> = account m + a" using peers [OF ok] unfolding 1 by (simp add: add_ac)
  finally have "account ?m + b = account m + a" .
  moreover have "acquired ?m = acquired m" by (simp add: acquired_def release_def)
  moreover have "shard_ok ?m" using peers [OF ok] ok hg by (simp add: shard_ok_def release_def)
  ultimately show "shard_ok ?m \<and> account ?m + b + acquired m = account m + a + acquired ?m" by simp
qed

text \<open>An entry replaced, added or erased.\<close>

lemma moves_replace:
  assumes "map_of (mc_peers m) k = Some q"
    and hg: "list_all from_hg rs"
    and "peer_ok q \<Longrightarrow> peer_ok p \<and> peer_owns p + mset rs + b = peer_owns q + a"
  shows "moves a b m (release rs (set_peer k p m))"
  unfolding set_peer_def
proof (rule moves_peers [OF hg])
  assume "shard_ok m"
  then have ps: "peers_ok (mc_peers m)" by (simp add: shard_ok_def)
  note p = assms(3) [OF peers_ok_lookup [OF ps assms(1)]]
  let ?own = "peers_own (AList.update k p (mc_peers m))"
  have "?own + mset rs + b + peer_owns q = (?own + peer_owns q) + (mset rs + b)" by (simp only: add_ac)
  also have "\<dots> = (peers_own (mc_peers m) + peer_owns p) + (mset rs + b)"
    by (simp only: peers_own_update(1) [OF ps assms(1)])
  also have "\<dots> = peers_own (mc_peers m) + (peer_owns p + mset rs + b)" by (simp only: add_ac)
  also have "\<dots> = peers_own (mc_peers m) + (peer_owns q + a)" using p by simp
  also have "\<dots> = peers_own (mc_peers m) + a + peer_owns q" by (simp only: add_ac)
  finally show "peers_ok (AList.update k p (mc_peers m)) \<and> ?own + mset rs + b = peers_own (mc_peers m) + a"
    using peers_ok_update [OF ps] p by simp
qed

lemma moves_erase:
  assumes "map_of (mc_peers m) k = Some q" and hg: "list_all from_hg rs" and "mset rs + b = peer_owns q + a"
  shows "moves a b m (release rs (erase_peer k m))"
  unfolding erase_peer_def
proof (rule moves_peers [OF hg])
  assume "shard_ok m"
  then have ps: "peers_ok (mc_peers m)" by (simp add: shard_ok_def)
  let ?own = "peers_own (AList.delete k (mc_peers m))"
  have "?own + mset rs + b = ?own + (peer_owns q + a)" using assms(3) by (simp only: add.assoc)
  also have "\<dots> = (?own + peer_owns q) + a" by (simp only: add.assoc)
  finally show "peers_ok (AList.delete k (mc_peers m)) \<and> ?own + mset rs + b = peers_own (mc_peers m) + a"
    using peers_ok_delete [OF ps] by (simp only: peers_own_delete [OF ps assms(1)])
qed

lemma release_nil [simp]: "release [] m = m"
  by (simp add: release_def)

lemma peer_effects:
  "erase_peer k (hg_addr_free x (release rs m)) = hg_addr_free x (release rs (erase_peer k m))"
  "set_peer k p (hg_addr_free x (release rs m)) = hg_addr_free x (release rs (set_peer k p m))"
  by (cases m; simp add: erase_peer_def set_peer_def effects)+

lemma moves_peer_state: "moves a a m (snd (peer_state k m))"
proof (cases "map_of (mc_peers m) k")
  case None
  have "moves a a m (release [] (set_peer k new_peer m))"
    unfolding set_peer_def
  proof (rule moves_peers, simp)
    assume "shard_ok m"
    then have ps: "peers_ok (mc_peers m)" by (simp add: shard_ok_def)
    have "peer_ok new_peer" by (simp add: new_peer_def peer_ok_def waiters_def)
    with peers_ok_update [OF ps this, of k] peers_own_update(2) [OF ps None, of new_peer]
    show "peers_ok (AList.update k new_peer (mc_peers m)) \<and>
        peers_own (AList.update k new_peer (mc_peers m)) + mset [] + a = peers_own (mc_peers m) + a"
      by (simp add: new_peer_def peer_owns_pools waiters_def)
  qed
  with None show ?thesis by (simp add: peer_state_def)
qed (simp add: peer_state_def moves_refl)

lemma peer_state_lookup: "peer_state k m = (p, m') \<Longrightarrow> map_of (mc_peers m') k = Some p"
  by (auto simp: peer_state_def set_peer_def update_conv' split: option.splits)

lemma moves_recycle: "moves {#Handle h#} {#} m (recycle_handle peer r h m)"
proof (cases "map_of (mc_peers m) peer")
  case None
  then show ?thesis using moves_release [of "[Handle h]" m] by (simp add: recycle_handle_def)
next
  case (Some p)
  obtain d pools where d: "recycle_into r h (peer_pools p) = (d, pools)" by (cases "recycle_into r h (peer_pools p)")
  have "moves {#Handle h#} {#} m (release (map Handle d) (set_peer peer (p\<lparr>peer_pools := pools\<rparr>) m))"
  proof (rule moves_replace [OF Some from_hg_handles])
    assume p: "peer_ok p"
    then have "list_all pool_ok pools" and e: "in_pools pools + mset d = add_mset h (in_pools (peer_pools p))"
      using recycle_into_pools [OF d] by (simp_all add: peer_ok_def add.commute)
    moreover have "image_mset Handle (in_pools pools) + mset (map Handle d) =
        add_mset (Handle h) (image_mset Handle (in_pools (peer_pools p)))"
      using arg_cong [OF e, of "image_mset Handle"] by simp
    ultimately show "peer_ok (p\<lparr>peer_pools := pools\<rparr>) \<and>
        peer_owns (p\<lparr>peer_pools := pools\<rparr>) + mset (map Handle d) + {#} = peer_owns p + {#Handle h#}"
      using p by (simp add: peer_ok_def peer_owns_pools waiters_def add.commute add.left_commute)
  qed
  then show ?thesis by (simp add: recycle_handle_def Some d)
qed

lemma moves_drop: "moves a a m (drop_peer peer m)"
proof (cases "map_of (mc_peers m) peer")
  case None
  then show ?thesis by (simp add: drop_peer_def moves_refl)
next
  case (Some p)
  let ?rs = "map Handle (pooled p)"
  show ?thesis
  proof (cases "peer_pending_lookup p")
    case None
    have "moves a a m (release ?rs (erase_peer peer m))"
      by (rule moves_erase [OF Some from_hg_handles]) (simp add: peer_owns_def waiters_def None)
    then have "moves a a m (hg_addr_free (peer_addr p) (release ?rs (erase_peer peer m)))"
      by (rule moves_trans [OF _ moves_effects(9)])
    then show ?thesis by (simp add: drop_peer_def Some None peer_effects)
  next
    case pending: (Some l)
    have "moves a a m (release ?rs (set_peer peer (p\<lparr>peer_pools := [], peer_addr := None\<rparr>) m))"
      by (rule moves_replace [OF Some from_hg_handles]) (simp add: peer_owns_def peer_ok_def waiters_def pending pooled_def)
    then have "moves a a m (hg_addr_free (peer_addr p)
        (release ?rs (set_peer peer (p\<lparr>peer_pools := [], peer_addr := None\<rparr>) m)))"
      by (rule moves_trans [OF _ moves_effects(9)])
    then show ?thesis by (simp add: drop_peer_def Some pending peer_effects)
  qed
qed

lemma take_pending_spec:
  assumes "take_pending_lookup peer m = (Some l, m')"
  shows "moves {#} (sum_list (map client_owns (lk_waiters l))) m m'"
    and "shard_ok m \<Longrightarrow> list_all waiter_ok (lk_waiters l) \<and> \<not> lk_cancelled l"
proof -
  obtain p where p: "map_of (mc_peers m) peer = Some p" "peer_pending_lookup p = Some l"
    using assms by (auto simp: take_pending_lookup_def split: option.splits)
  show "shard_ok m \<Longrightarrow> list_all waiter_ok (lk_waiters l) \<and> \<not> lk_cancelled l"
    using peers_ok_lookup [OF _ p(1)] by (simp add: shard_ok_def peer_ok_def waiters_def p(2))
  let ?b = "sum_list (map client_owns (lk_waiters l))"
  have 1: "moves {#} ?b m (release [] (erase_peer peer m))" if "peer_pools p = []"
    by (rule moves_erase [OF p(1)]) (simp_all add: peer_owns_def waiters_def p(2) pooled_def that)
  have "moves {#} ?b m (release [] (set_peer peer (p\<lparr>peer_pending_lookup := None\<rparr>) m))"
    by (rule moves_replace [OF p(1)]) (simp_all add: peer_owns_def peer_ok_def waiters_def p(2) pooled_def)
  with 1 assms show "moves {#} ?b m m'" by (auto simp: take_pending_lookup_def p split: if_splits)
qed

lemma moves_cleanup: "moves (held_handles st) {#} m (cleanup_client st m)"
proof -
  let ?h = "case cs_handle st of None \<Rightarrow> {#} | Some h \<Rightarrow> {#Handle h#}"
  let ?b = "case cs_origin_bulk st of None \<Rightarrow> {#} | Some b \<Rightarrow> {#BulkHandle b#}"
  let ?m1 = "case cs_origin_bulk st of None \<Rightarrow> m | Some b \<Rightarrow> release [BulkHandle b] m"
  let ?m2 = "case cs_handle st of None \<Rightarrow> ?m1
    | Some h \<Rightarrow> if cs_recycle_handle st then recycle_handle (cs_peer st) (cs_rpc_id st) h ?m1 else release [Handle h] ?m1"
  have "moves ?b {#} m ?m1"
    using moves_release [of "[BulkHandle b]" m for b] by (cases "cs_origin_bulk st") (simp_all add: moves_refl)
  from moves_frame [OF this, of ?h] have 1: "moves (held_handles st) ?h m ?m1"
    by (simp add: held_handles_def add.commute)
  have 2: "moves ?h {#} ?m1 ?m2"
    using moves_release [of "[Handle h]" ?m1 for h] moves_recycle [of _ ?m1]
    by (cases "cs_handle st") (simp_all add: moves_refl)
  have "moves {#} {#} ?m2 (cleanup_client st m)"
    by (simp add: cleanup_client_def Let_def moves_refl moves_drop)
  then show ?thesis by (rule moves_trans [OF moves_trans [OF 1 2]])
qed

lemma moves_complete:
  assumes "\<not> cs_promise_done st" "complete_promise r st m = (st', m')"
  shows "moves (client_owns st) (client_owns st') m m'" "cs_promise_done st'" "cs_handle st' = cs_handle st"
    "held_handles st' = held_handles st"
  using assms by (auto simp: accounts effects client_owns_def held_handles_def)

lemma moves_latency:
  assumes "record_forward_latency_if_needed st m = (st', m')"
  shows "moves (client_owns st) (client_owns st') m m'" "cs_promise_done st' = cs_promise_done st"
    "cs_handle st' = cs_handle st" "held_handles st' = held_handles st"
  using assms by (auto simp: accounts effects client_owns_def held_handles_def split: if_splits)

lemma client_owns_done: "cs_promise_done st \<Longrightarrow> client_owns st = held_handles st"
  by (simp add: client_owns_def)

lemma client_owns_update [simp]:
  "client_owns (st\<lparr>cs_timer_armed := x\<rparr>) = client_owns st"
  "client_owns (st\<lparr>cs_drop_peer_on_cleanup := x\<rparr>) = client_owns st"
  "client_owns (st\<lparr>cs_recycle_handle := x\<rparr>) = client_owns st"
  "client_owns (st\<lparr>cs_addr := a\<rparr>) = client_owns st"
  by (simp_all add: client_owns_def held_handles_def)

text \<open>The end of an RPC: its latency is recorded and what it still holds is given back.\<close>

lemma moves_finish:
  assumes "cs_promise_done st" "record_forward_latency_if_needed st m = (st', m')"
  shows "moves (client_owns st) {#} m (cleanup_client st' m')"
  using moves_trans [OF moves_latency(1) [OF assms(2)]] moves_cleanup [of st' m'] assms(1)
    moves_latency(2) [OF assms(2)] by (simp add: client_owns_done)

lemma moves_fail: "moves (client_owns st) {#} m (fail_client msg st m)"
proof -
  let ?st = "st\<lparr>cs_timer_armed := False\<rparr>"
  obtain st1 m1 where 1: "(if cs_promise_done ?st then (?st, m) else complete_promise (Inl (RuntimeError msg)) ?st m) = (st1, m1)"
    by (rule prod.exhaust)
  obtain st2 m2 where 2: "record_forward_latency_if_needed st1 (on_rpc_error m1) = (st2, m2)" by (rule prod.exhaust)
  have "moves (client_owns st) (client_owns st1) m m1 \<and> cs_promise_done st1"
    using 1 moves_complete [of ?st "Inl (RuntimeError msg)" m st1 m1]
    by (cases "cs_promise_done st") (auto simp: moves_refl)
  then have "moves (client_owns st) (client_owns st1) m (on_rpc_error m1)" and d: "cs_promise_done st1"
    by (auto intro: moves_trans moves_effects)
  from moves_trans [OF this(1) moves_finish [OF d 2]]
  show ?thesis using 1 2 by (simp add: fail_client_def)
qed

lemma moves_inflight:
  "inflight_ok st \<Longrightarrow> moves (client_owns st) {#} m (m\<lparr>mc_inflight := mc_inflight m @ [st]\<rparr>)"
  by (simp add: accounts)

lemma client_owns_handle:
  "cs_handle st = None \<Longrightarrow> client_owns (st\<lparr>cs_handle := Some h\<rparr>) = client_owns st + {#Handle h#}"
  by (simp add: client_owns_def held_handles_def add.commute add.left_commute)

lemma client_owns_no_handle: "cs_handle st = None \<Longrightarrow> client_owns (st\<lparr>cs_handle := None\<rparr>) = client_owns st"
  by (simp add: client_owns_def held_handles_def)

lemma moves_create:
  assumes "\<not> cs_promise_done st"
  shows "moves (client_owns st) {#} m (create_and_forward hg st m)"
proof -
  let ?created = "case cs_handle st of Some h \<Rightarrow> (st, m)
      | None \<Rightarrow> (case hg_create hg of None \<Rightarrow> (st, m)
          | Some h \<Rightarrow> (st\<lparr>cs_handle := Some h\<rparr>, acquire (Handle h) m))"
  obtain st1 m1 where 1: "?created = (st1, m1)" by (rule prod.exhaust)
  have m1: "moves (client_owns st) (client_owns st1) m m1" "cs_promise_done st1 = cs_promise_done st"
    using 1 moves_acquire [where a = "client_owns st" and m = m]
    by (auto simp del: add_mset_add_single simp: moves_refl client_owns_handle split: option.splits)
  have fail: "moves (client_owns st1) {#} m1 (fail_client msg (st1\<lparr>cs_drop_peer_on_cleanup := True\<rparr>) m1)" for msg
    using moves_fail [of "st1\<lparr>cs_drop_peer_on_cleanup := True\<rparr>" m1 msg] by simp
  have "moves (client_owns st1) {#} m1 (m1\<lparr>mc_inflight := mc_inflight m1 @ [st1\<lparr>cs_timer_armed := True\<rparr>]\<rparr>)"
    if "cs_handle st1 \<noteq> None"
    using moves_inflight [of "st1\<lparr>cs_timer_armed := True\<rparr>" m1] that m1(2) assms by (simp add: inflight_ok_def)
  with fail have "moves (client_owns st1) {#} m1 (create_and_forward hg st m)"
    unfolding create_and_forward_def 1 Let_def prod.case by auto
  then show ?thesis by (rule moves_trans [OF m1(1)])
qed

lemma moves_start:
  assumes "cs_handle st = None"
  shows "moves (client_owns st) {#} m (start_client_forward hg st m)"
proof (cases "cs_promise_done st")
  case True
  then show ?thesis using moves_cleanup [of st m] by (simp add: start_client_forward_def client_owns_done)
next
  case False
  let ?a = "client_owns st"
  obtain p m1 where m1: "peer_state (cs_peer st) m = (p, m1)" by (rule prod.exhaust)
  obtain h pools where h: "take_cached_handle (peer_pools p) (cs_rpc_id st) = (h, pools)" by (rule prod.exhaust)
  let ?m2 = "set_peer (cs_peer st) (p\<lparr>peer_pools := pools\<rparr>) m1"
  let ?h = "case h of None \<Rightarrow> {#} | Some x \<Rightarrow> {#Handle x#}"
  obtain h3 m3 where m3: "(case h of None \<Rightarrow> (None, ?m2)
      | Some x \<Rightarrow> if hg_reset hg then (Some x, ?m2) else (None, release [Handle x] ?m2)) = (h3, m3)"
    by (rule prod.exhaust)
  have 1: "moves ?a ?a m m1" using moves_peer_state [of ?a m "cs_peer st"] by (simp add: m1)
  have "moves ?a (?a + ?h) m1 (release [] ?m2)"
  proof (rule moves_replace [OF peer_state_lookup [OF m1]], simp)
    assume "peer_ok p"
    then have ok: "list_all pool_ok pools" "list_all waiter_ok (waiters p)"
      "\<forall>l\<in>set_option (peer_pending_lookup p). \<not> lk_cancelled l"
      and e: "in_pools (peer_pools p) = in_pools pools + (case h of None \<Rightarrow> {#} | Some x \<Rightarrow> {#x#})"
      using take_cached_handle_pools [OF h] by (simp_all add: peer_ok_def)
    have "image_mset Handle (in_pools (peer_pools p)) = image_mset Handle (in_pools pools) + ?h"
      using e by (cases h) simp_all
    then show "peer_ok (p\<lparr>peer_pools := pools\<rparr>) \<and>
        peer_owns (p\<lparr>peer_pools := pools\<rparr>) + mset [] + (?a + ?h) = peer_owns p + ?a"
      using ok by (simp add: peer_ok_def peer_owns_pools waiters_def add.commute add.left_commute)
  qed
  then have 2: "moves ?a (?a + ?h) m1 ?m2" by simp
  have "moves ?h {#} ?m2 (release [Handle x] ?m2)" if "h = Some x" for x
    using moves_release [of "[Handle x]" ?m2] that by simp
  from moves_frame [OF this, of _ ?a] have 3: "moves (?a + ?h) (client_owns (st\<lparr>cs_handle := h3\<rparr>)) ?m2 m3"
    using m3 assms client_owns_handle [OF assms] client_owns_no_handle [OF assms]
    by (cases h) (auto simp: moves_refl add.commute split: if_splits)
  have "moves (client_owns (st\<lparr>cs_handle := h3\<rparr>)) {#} m3 (start_client_forward hg st m)"
    using moves_create [of "st\<lparr>cs_handle := h3\<rparr>" m3 hg] False
    by (simp add: start_client_forward_def m1 h m3 del: split_paired_All)
  then show ?thesis by (rule moves_trans [OF moves_trans [OF moves_trans [OF 1 2] 3]])
qed

section \<open>Lookups and completions\<close>

lemma moves_fail_all: "moves (sum_list (map client_owns sts)) {#} m (fold (fail_client msg) sts m)"
proof (induction sts arbitrary: m)
  case (Cons st sts)
  have "moves (client_owns st + sum_list (map client_owns sts)) (sum_list (map client_owns sts)) m (fail_client msg st m)"
    using moves_frame [OF moves_fail] by simp
  from moves_trans [OF this Cons.IH] show ?case by simp
qed (simp add: moves_refl)

lemma moves_fan_out:
  "fan_out hg peer sts m = Inr m' \<Longrightarrow> list_all waiter_ok sts \<Longrightarrow> moves (sum_list (map client_owns sts)) {#} m m'"
proof (induction sts arbitrary: m)
  case (Cons st sts)
  obtain p where p: "map_of (mc_peers m) peer = Some p" using Cons.prems(1) by (auto split: option.splits)
  let ?st = "st\<lparr>cs_addr := peer_addr p\<rparr>"
  have "cs_handle ?st = None" using Cons.prems(2) by (simp add: waiter_ok_def)
  from moves_frame [OF moves_start [OF this, of m "hg (cs_id st)"], of "sum_list (map client_owns sts)"]
  have "moves (client_owns st + sum_list (map client_owns sts)) (sum_list (map client_owns sts)) m
      (start_client_forward (hg (cs_id st)) ?st m)" by simp
  moreover have "moves (sum_list (map client_owns sts)) {#} (start_client_forward (hg (cs_id st)) ?st m) m'"
    using Cons.IH Cons.prems p by simp
  ultimately show ?case by (auto intro: moves_trans)
qed (simp add: moves_refl)

lemma moves_cache_address: "moves a a m (cache_address peer addr m)"
proof -
  obtain p m1 where m1: "peer_state peer m = (p, m1)" by (rule prod.exhaust)
  have 1: "moves a a m m1" using moves_peer_state [of a m peer] by (simp add: m1)
  have "moves a a m1 (release [] (set_peer peer (p\<lparr>peer_addr := Some addr\<rparr>) m1))"
    by (rule moves_replace [OF peer_state_lookup [OF m1]]) (simp_all add: peer_ok_def peer_owns_def waiters_def pooled_def)
  then have "moves a a m1 (cache_address peer addr m)"
    by (auto simp: cache_address_def m1 moves_refl moves_effects)
  then show ?thesis by (rule moves_trans [OF 1])
qed

lemma moves_resolve:
  assumes "resolve_lookup outcome hg l m = Inr m'" "list_all waiter_ok (lk_waiters l)" "\<not> lk_cancelled l"
  shows "moves (sum_list (map client_owns (lk_waiters l))) {#} m m'"
proof (cases outcome)
  case (Inl msg)
  then show ?thesis using assms(1,3) moves_fail_all by (auto simp: resolve_lookup_def)
next
  case (Inr addr)
  then have "fan_out hg (lk_peer l) (lk_waiters l) (cache_address (lk_peer l) addr m) = Inr m'"
    using assms(1,3) by (simp add: resolve_lookup_def)
  from moves_trans [OF moves_cache_address moves_fan_out [OF this assms(2)]] show ?thesis .
qed

lemma moves_orphaned:
  assumes "take_orphaned_lookup i m = (Some l, m')"
  shows "moves {#} {#} m m'" "shard_ok m \<Longrightarrow> lk_cancelled l"
  using assms by (auto simp: take_orphaned_lookup_def accounts orphan_ok_def dest!: extract_split split: option.splits)

lemma moves_take_inflight:
  "mc_inflight m = ys @ st # zs \<Longrightarrow> moves {#} (client_owns st) m (m\<lparr>mc_inflight := ys @ zs\<rparr>)"
  by (simp add: accounts)

lemma settle_forward_spec:
  assumes "settle_forward output st m = (st', m')"
  shows "moves (client_owns st) (client_owns st') m m' \<and> cs_promise_done st'"
proof (cases "cs_promise_done st")
  case True
  then show ?thesis using assms by (auto simp: settle_forward_def moves_refl split: sum.splits)
next
  case False
  have step: "moves (client_owns st0) (client_owns (fst c)) m (snd c) \<and> cs_promise_done (fst c)"
    if "c = complete_promise r st0 (if e then on_rpc_error m else m)" "\<not> cs_promise_done st0" for r e st0 c
  proof -
    let ?m = "if e then on_rpc_error m else m"
    have "complete_promise r st0 ?m = (fst c, snd c)" using that(1) by simp
    note c = moves_complete(1,2) [OF that(2) this]
    have "moves (client_owns st0) (client_owns st0) m ?m" by (simp add: moves_refl moves_effects)
    from moves_trans [OF this c(1)] c(2) show ?thesis ..
  qed
  show ?thesis
  proof (cases "output")
    case (Inl msg)
    with assms False have c: "(st', m') = complete_promise (Inl (RuntimeError (''HG_Forward failed: '' @ msg)))
        (st\<lparr>cs_drop_peer_on_cleanup := True\<rparr>) (on_rpc_error m)" by (simp add: settle_forward_def)
    show ?thesis using step [where e = True, simplified, OF c] False by simp
  next
    case (Inr reply)
    define c where "c = (case reply of
        Inl msg \<Rightarrow> complete_promise (Inl (RuntimeError (''HG_Get_output failed: '' @ msg))) st (on_rpc_error m)
      | Inr out \<Rightarrow> if ry_status out \<noteq> 0
          then complete_promise (Inl (RuntimeError ''remote Mercury RPC handler failed'')) st (on_rpc_error m)
          else complete_promise (Inr (ry_payload out)) st m)"
    have "\<exists>r e. c = complete_promise r st (if e then on_rpc_error m else m)"
    proof (cases reply)
      case (Inl msg)
      then show ?thesis unfolding c_def by (simp, metis)
    next
      case (Inr out)
      then show ?thesis unfolding c_def by (cases "ry_status out = 0") (simp, metis)+
    qed
    then have "moves (client_owns st) (client_owns (fst c)) m (snd c)" "cs_promise_done (fst c)"
      using step [OF _ False] by blast+
    moreover have "(st', m') = ((fst c)\<lparr>cs_recycle_handle := True\<rparr>, snd c)"
      unfolding assms [symmetric] settle_forward_def Inr sum.case c_def [symmetric] using False
      by (simp add: split_beta)
    ultimately show ?thesis by simp
  qed
qed

lemma moves_forward_cb: "moves {#} {#} m (forward_cb i output m)"
proof (cases "List.extract (\<lambda>st. cs_id st = i) (mc_inflight m)")
  case None
  then show ?thesis by (simp add: forward_cb_def moves_refl)
next
  case (Some x)
  then obtain ys st zs where x: "List.extract (\<lambda>st. cs_id st = i) (mc_inflight m) = Some (ys, st, zs)"
    by (cases x) auto
  let ?st = "st\<lparr>cs_timer_armed := False\<rparr>" and ?m = "m\<lparr>mc_inflight := ys @ zs\<rparr>"
  obtain st1 m1 where 1: "settle_forward output ?st ?m = (st1, m1)" by (rule prod.exhaust)
  obtain st2 m2 where 2: "record_forward_latency_if_needed st1 m1 = (st2, m2)" by (rule prod.exhaust)
  have "moves {#} (client_owns ?st) m ?m" using moves_take_inflight [of m ys st zs] extract_split [OF x] by simp
  then have "moves {#} (client_owns st1) m m1" by (rule moves_trans) (rule settle_forward_spec [OF 1, THEN conjunct1])
  then have "moves {#} {#} m (cleanup_client st2 m2)"
    by (rule moves_trans) (rule moves_finish [OF settle_forward_spec [OF 1, THEN conjunct2] 2])
  moreover have "forward_cb i output m = cleanup_client st2 m2"
    unfolding forward_cb_def x option.case prod.case 1 2 Let_def ..
  ultimately show ?thesis by simp
qed

lemma moves_timeout: "moves {#} {#} m (timeout_timer i m)"
proof (cases "List.extract (\<lambda>st. cs_id st = i \<and> cs_timer_armed st) (mc_inflight m)")
  case None
  then show ?thesis by (simp add: timeout_timer_def moves_refl)
next
  case (Some x)
  then obtain ys st zs where x: "List.extract (\<lambda>st. cs_id st = i \<and> cs_timer_armed st) (mc_inflight m) = Some (ys, st, zs)"
    by (cases x) auto
  have "mc_inflight m = ys @ st # zs" using extract_split [OF x] by (rule conjunct1)
  moreover have "timeout_timer i m =
      (let st' = st\<lparr>cs_timer_armed := False\<rparr>
       in if cs_promise_done st then m\<lparr>mc_inflight := ys @ st' # zs\<rparr>
          else let (st', m') = complete_promise (Inl (RuntimeError (''Mercury RPC timed out for peer: '' @ cs_peer st))) st' m;
                   (st', m') = record_forward_latency_if_needed st' (on_rpc_timeout (on_rpc_error m'))
               in m'\<lparr>mc_inflight := ys @ st' # zs\<rparr>)"
    unfolding timeout_timer_def x option.case prod.case Let_def split_beta by (cases "cs_promise_done st") simp_all
  ultimately show ?thesis
    by (cases "cs_promise_done st"; cases "cs_latency_recorded st")
      (simp_all add: accounts effects client_owns_def held_handles_def inflight_ok_def)
qed

lemma moves_lookup_cb:
  assumes "lookup_cb i outcome hg m = Inr m'"
  shows "moves {#} {#} m m'"
proof (cases "List.find (\<lambda>l. lk_id l = i) (lookups m)")
  case None
  then show ?thesis using assms by (simp add: lookup_cb_def moves_refl)
next
  case (Some raw)
  obtain found m1 where t: "take_pending_lookup (lk_peer raw) m = (found, m1)" by (rule prod.exhaust)
  show ?thesis
  proof (cases found)
    case f: (Some l)
    have res: "resolve_lookup outcome hg l m1 = Inr m'" using assms by (simp add: lookup_cb_def Some t f)
    note l = take_pending_spec [OF t [unfolded f]]
    have "moves {#} {#} m m'" if ok: "shard_ok m"
      by (rule moves_trans [OF l(1) moves_resolve [OF res]]) (use l(2) [OF ok] in simp_all)
    then show ?thesis by (simp add: moves_def)
  next
    case None
    then have m1: "m1 = m" using t by (auto simp: take_pending_lookup_def split: option.splits)
    obtain found' m2 where o: "take_orphaned_lookup i m = (found', m2)" by (rule prod.exhaust)
    show ?thesis
    proof (cases found')
      case None
      then have "m2 = m" using o by (auto simp: take_orphaned_lookup_def split: option.splits)
      then show ?thesis using assms \<open>found = None\<close> None by (simp add: lookup_cb_def Some t m1 o moves_refl)
    next
      case f: (Some l)
      have "moves {#} {#} m m'" if ok: "shard_ok m"
        using assms \<open>found = None\<close> moves_orphaned [OF o [unfolded f]] ok
        by (simp add: lookup_cb_def Some t m1 o f resolve_lookup_def)
      then show ?thesis by (simp add: moves_def)
    qed
  qed
qed

section \<open>Forwarding an RPC\<close>

lemma moves_send:
  assumes "waiter_ok st"
  shows "moves (client_owns st) {#} m (send_or_lookup hg st m)"
proof -
  let ?a = "client_owns st" and ?k = "cs_peer st"
  obtain p m1 where m1: "peer_state ?k m = (p, m1)" by (rule prod.exhaust)
  have 1: "moves ?a ?a m m1" using moves_peer_state [of ?a m ?k] by (simp add: m1)
  note p = peer_state_lookup [OF m1]
  have join: "moves ?a {#} m1 (set_peer ?k (p\<lparr>peer_pending_lookup := Some l\<rparr>) m1)"
    if "lk_waiters l = waiters p @ [st]" "\<not> lk_cancelled l \<or> peer_pending_lookup p = Some l'" "lk_cancelled l \<longrightarrow> lk_cancelled l'" for l l'
  proof -
    have "moves ?a {#} m1 (release [] (set_peer ?k (p\<lparr>peer_pending_lookup := Some l\<rparr>) m1))"
      by (rule moves_replace [OF p]) (use assms that in \<open>auto simp: peer_ok_def peer_owns_def waiters_def pooled_def\<close>)
    then show ?thesis by simp
  qed
  have "moves ?a {#} m1 (send_or_lookup hg st m)"
  proof (cases "peer_addr p")
    case (Some a)
    have "cs_handle (st\<lparr>cs_addr := Some a\<rparr>) = None" using assms by (simp add: waiter_ok_def)
    from moves_start [OF this, of m1 hg] show ?thesis by (simp add: send_or_lookup_def m1 Some)
  next
    case None
    show ?thesis
    proof (cases "peer_pending_lookup p")
      case (Some l)
      then show ?thesis
        using join [of "l\<lparr>lk_waiters := lk_waiters l @ [st]\<rparr>" l]
        by (simp add: send_or_lookup_def m1 None waiters_def)
    next
      case no_lookup: None
      let ?l = "\<lparr>lk_id = cs_id st, lk_peer = ?k, lk_waiters = [st], lk_cancelled = False\<rparr>"
      let ?m2 = "set_peer ?k (p\<lparr>peer_pending_lookup := Some ?l\<rparr>) m1"
      have 2: "moves ?a {#} m1 ?m2" using join [of ?l ?l] by (simp add: waiters_def no_lookup)
      obtain found m3 where t: "take_pending_lookup ?k ?m2 = (found, m3)" by (rule prod.exhaust)
      have "found = Some ?l" using t by (simp add: take_pending_lookup_def set_peer_def update_conv')
      with take_pending_spec(1) [OF t [unfolded this]]
      have "moves {#} {#} ?m2 (fold (fail_client msg) [st] m3)" for msg
        using moves_trans moves_fail_all [of "[st]" m3 msg] by fastforce
      with 2 \<open>found = Some ?l\<close> show ?thesis
        by (auto simp: send_or_lookup_def m1 None no_lookup t Let_def intro: moves_trans)
    qed
  qed
  then show ?thesis by (rule moves_trans [OF 1])
qed

lemma moves_bind: "moves a a m (snd (bind_rpc_to_mercury hg entry m))"
  by (simp add: bind_rpc_to_mercury_def Let_def accounts)

lemma moves_find_rpc: "moves a a m (snd (find_rpc_by_name name m))"
  by (simp add: find_rpc_by_name_def accounts split: option.split)

lemma moves_registry: "moves a a m (m\<lparr>mc_rpcs_by_name := x\<rparr>)"
  by (simp add: accounts)

lemma moves_register: "moves a a m (snd (register_handler hg name handler m))"
  unfolding register_handler_def Let_def
  by (simp add: moves_registry moves_trans [OF moves_registry moves_bind])

lemma moves_rpc_to_forward:
  assumes "rpc_to_forward hg rpc m = (r, m')"
  shows "moves a a m m'"
proof -
  let ?found = "case find_rpc_by_name rpc m of
      (Some entry, m) \<Rightarrow> (Inr (), m)
    | (None, m) \<Rightarrow> (case register_handler hg rpc False m of
        (Inl e, m) \<Rightarrow> (Inl e, m)
      | (Inr _, m) \<Rightarrow> (Inr (), snd (find_rpc_by_name rpc m)))"
  obtain e0 m0 where f: "find_rpc_by_name rpc m = (e0, m0)" by (rule prod.exhaust)
  obtain r1 m1 where g: "register_handler hg rpc False m0 = (r1, m1)" by (rule prod.exhaust)
  obtain r2 m2 where found: "?found = (r2, m2)" by (rule prod.exhaust)
  have 0: "moves a a m m0" using moves_find_rpc [of a m rpc] by (simp add: f)
  have 1: "moves a a m0 m1" using moves_register [of a m0 hg rpc False] by (simp add: g)
  have "m2 = m0 \<or> m2 = m1 \<or> m2 = snd (find_rpc_by_name rpc m1)"
    using found by (auto simp: f g split: option.splits sum.splits)
  then have 2: "moves a a m m2" using 0 moves_trans [OF 0 1] moves_trans [OF moves_trans [OF 0 1] moves_find_rpc] by auto
  have "m' = m2 \<or> (\<exists>entry. m' = snd (bind_rpc_to_mercury hg entry m2))"
    using assms unfolding rpc_to_forward_def found
    by (cases r2) (auto split: option.splits if_splits prod.splits sum.splits, (metis snd_conv)+)
  then show ?thesis using 2 moves_trans [OF 2 moves_bind] by auto
qed

lemma moves_next_id: "moves a (a + {#Promise (mc_next_id m)#}) m (m\<lparr>mc_next_id := Suc (mc_next_id m)\<rparr>)"
  by (simp add: accounts)

lemma moves_forward: "moves {#} {#} m (snd (forward hg peer rpc payload m))"
proof (cases "peer = mc_address m \<or> \<not> mc_running m \<or> \<not> mc_hg_class m \<or> \<not> mc_hg_context m")
  case True
  obtain e0 m0 where f: "find_rpc_by_name rpc m = (e0, m0)" by (rule prod.exhaust)
  have "moves {#} {#} m m0" using moves_find_rpc [of "{#}" m rpc] by (simp add: f)
  then show ?thesis using True by (auto simp: forward_def f moves_refl split: option.split)
next
  case False
  obtain r m1 where f: "rpc_to_forward hg rpc m = (r, m1)" by (rule prod.exhaust)
  note 1 = moves_rpc_to_forward [OF f]
  show ?thesis
  proof (cases r)
    case (Inl e)
    then show ?thesis using False 1 [of "{#}"] by (simp add: forward_def f)
  next
    case (Inr rpc_id)
    let ?large = "length payload \<ge> kBulkTransferThreshold"
    let ?bulk = "if ?large then hg_bulk_create hg else None"
    let ?m2 = "on_rpc_forward m1"
    let ?m3 = "case ?bulk of None \<Rightarrow> ?m2 | Some b \<Rightarrow> acquire (BulkHandle b) ?m2"
    let ?i = "mc_next_id ?m3" and ?b = "case ?bulk of None \<Rightarrow> {#} | Some b \<Rightarrow> {#BulkHandle b#}"
    let ?st = "new_client ?i peer rpc_id payload ?bulk"
    have 2: "moves {#} {#} m ?m2" by (rule moves_trans [OF 1 moves_effects(1)])
    show ?thesis
    proof (cases "?large \<and> hg_bulk_create hg = None")
      case True
      then show ?thesis using False moves_trans [OF 2 moves_effects(3)] by (simp add: forward_def f Inr)
    next
      case bulk: False
      have "moves {#} ?b ?m2 ?m3" using moves_acquire [where a = "{#}" and m = ?m2] by (auto simp: moves_refl split: option.split)
      from moves_trans [OF moves_trans [OF 2 this] moves_next_id]
      have "moves {#} (client_owns ?st) m (?m3\<lparr>mc_next_id := Suc ?i\<rparr>)"
        by (simp add: client_owns_def held_handles_def new_client_def)
      moreover have "waiter_ok ?st" by (simp add: waiter_ok_def new_client_def)
      ultimately have "moves {#} {#} m (send_or_lookup hg ?st (?m3\<lparr>mc_next_id := Suc ?i\<rparr>))"
        using moves_trans moves_send by blast
      moreover have "snd (forward hg peer rpc payload m) = send_or_lookup hg ?st (?m3\<lparr>mc_next_id := Suc ?i\<rparr>)"
        using False bulk by (auto simp add: forward_def f Inr Let_def)
      ultimately show ?thesis by (simp only:)
    qed
  qed
qed

section \<open>Starting and stopping\<close>

lemma moves_bind_unbound: "moves a a m (snd (bind_unbound hg entries m))"
proof (induction hg entries m rule: bind_unbound.induct)
  case (2 hg name entry entries m)
  obtain r m1 where b: "bind_rpc_to_mercury hg entry m = (r, m1)" by (rule prod.exhaust)
  have "moves a a m m1" using moves_bind [of a m hg entry] by (simp add: b)
  then show ?case using 2 b by (cases r) (auto intro: moves_trans)
qed (simp add: moves_refl)

lemma moves_arm: "moves a a m (arm_progress_timer active m)"
  by (simp add: arm_progress_timer_def accounts)

lemma moves_begin:
  "moves a a m (m\<lparr>mc_hg_class := c, mc_hg_context := x, mc_address := y, mc_running := r\<rparr>)"
  "moves a a m (m\<lparr>mc_hg_class := c\<rparr>)" "moves a a m (m\<lparr>mc_hg_class := c, mc_hg_context := x\<rparr>)"
  by (simp_all add: accounts)

lemma moves_start_shard: "moves {#} {#} m (snd (start hg address m))"
proof -
  let ?m1 = "m\<lparr>mc_hg_class := True, mc_hg_context := True, mc_address := address, mc_running := True\<rparr>"
  obtain r m2 where b: "bind_unbound hg (mc_rpcs_by_name m) ?m1 = (r, m2)" by (rule prod.exhaust)
  have "moves {#} {#} ?m1 m2" using moves_bind_unbound [of "{#}" ?m1 hg "mc_rpcs_by_name m"] by (simp add: b)
  then have "moves {#} {#} m m2" by (rule moves_trans [OF moves_begin(1)])
  then show ?thesis
    by (cases r) (auto simp: start_def b moves_refl moves_begin intro: moves_trans [OF _ moves_arm])
qed

lemma cancel_waiter_waiting:
  assumes "waiter_ok st"
  shows "cancel_waiter st m = m\<lparr>mc_completions := mc_completions m @
      [(cs_id st, Inl (RuntimeError ''Mercury shard stopped during address lookup''))],
    mc_released := mc_released m @ (case cs_origin_bulk st of None \<Rightarrow> [] | Some b \<Rightarrow> [BulkHandle b])\<rparr>"
  using assms by (cases m) (simp add: cancel_waiter_def cleanup_client_def waiter_ok_def effects split: option.split)

lemma moves_cancel: "waiter_ok st \<Longrightarrow> moves (client_owns st) {#} m (cancel_waiter st m)"
  by (simp add: cancel_waiter_waiting accounts client_owns_def held_handles_def waiter_ok_def split: option.split)

lemma cancel_waiter_peers: "waiter_ok st \<Longrightarrow> mc_peers (cancel_waiter st m) = mc_peers m"
  by (simp add: cancel_waiter_waiting)

lemma moves_cancel_all:
  "list_all waiter_ok sts \<Longrightarrow> moves (sum_list (map client_owns sts)) {#} m (fold cancel_waiter sts m)"
  "list_all waiter_ok sts \<Longrightarrow> mc_peers (fold cancel_waiter sts m) = mc_peers m"
proof (induction sts arbitrary: m)
  case (Cons st sts)
  {
    case 1
    have "moves (client_owns st + sum_list (map client_owns sts)) (sum_list (map client_owns sts)) m (cancel_waiter st m)"
      using moves_frame [OF moves_cancel] 1 by simp
    moreover have "moves (sum_list (map client_owns sts)) {#} (cancel_waiter st m) (fold cancel_waiter sts (cancel_waiter st m))"
      using Cons.IH(1) 1 by simp
    ultimately show ?case by (auto intro: moves_trans)
  next
    case 2
    then show ?case using Cons.IH(2) by (simp add: cancel_waiter_peers)
  }
qed (simp_all add: moves_refl)

lemma moves_orphan: "orphan_ok l \<Longrightarrow> moves a a m (m\<lparr>mc_orphaned_lookups := mc_orphaned_lookups m @ [l]\<rparr>)"
  by (simp add: accounts)

text \<open>\<^verbatim>\<open>clear_peer\<close> releases what the entry holds, while the entry itself stays in the map.\<close>

lemma moves_clear_peer:
  assumes "peer_ok p"
  shows "moves (peer_owns p) {#} m (clear_peer p m)" "mc_peers (clear_peer p m) = mc_peers m"
proof -
  have w: "list_all waiter_ok (waiters p)" using assms by (simp add: peer_ok_def)
  let ?m1 = "case peer_pending_lookup p of None \<Rightarrow> m | Some l \<Rightarrow> (let m = fold cancel_waiter (lk_waiters l) m
    in m\<lparr>mc_orphaned_lookups := mc_orphaned_lookups m @ [l\<lparr>lk_cancelled := True, lk_waiters := []\<rparr>]\<rparr>)"
  let ?hs = "map Handle (pooled p)"
  have c: "clear_peer p m = hg_addr_free (peer_addr p) (release ?hs ?m1)" by (simp add: clear_peer_def Let_def)
  have "moves (sum_list (map client_owns (waiters p))) {#} m ?m1"
  proof (cases "peer_pending_lookup p")
    case None
    then show ?thesis by (simp add: waiters_def moves_refl)
  next
    case (Some l)
    have "orphan_ok (l\<lparr>lk_cancelled := True, lk_waiters := []\<rparr>)" by (simp add: orphan_ok_def)
    from moves_trans [OF moves_cancel_all(1) [OF w, of m] moves_orphan [OF this]]
    show ?thesis by (simp add: waiters_def Some Let_def)
  qed
  from moves_frame [OF this, of "mset ?hs"] have "moves (peer_owns p) (mset ?hs) m ?m1"
    by (simp add: peer_owns_def add.commute)
  from moves_trans [OF moves_trans [OF this moves_release [OF from_hg_handles]] moves_effects(9)]
  show "moves (peer_owns p) {#} m (clear_peer p m)" by (simp add: c)
  show "mc_peers (clear_peer p m) = mc_peers m"
    using moves_cancel_all(2) [OF w] by (cases "peer_pending_lookup p") (simp_all add: c effects waiters_def Let_def)
qed

lemma moves_clear_fold:
  "\<forall>p\<in>snd ` set ps. peer_ok p \<Longrightarrow> moves (peers_own ps) {#} m (fold (clear_peer \<circ> snd) ps m)"
  "\<forall>p\<in>snd ` set ps. peer_ok p \<Longrightarrow> mc_peers (fold (clear_peer \<circ> snd) ps m) = mc_peers m"
proof (induction ps arbitrary: m)
  case (Cons x ps)
  {
    case 1
    have "moves (peer_owns (snd x) + peers_own ps) (peers_own ps) m (clear_peer (snd x) m)"
      using moves_frame [OF moves_clear_peer(1)] 1 by simp
    moreover have "moves (peers_own ps) {#} (clear_peer (snd x) m) (fold (clear_peer \<circ> snd) ps (clear_peer (snd x) m))"
      by (rule Cons.IH(1)) (use 1 in simp)
    ultimately have "moves (peers_own (x # ps)) {#} m (fold (clear_peer \<circ> snd) ps (clear_peer (snd x) m))"
      unfolding peers_own_def by (auto intro: moves_trans)
    then show ?case by (simp add: comp_def)
  next
    case 2
    then show ?case using Cons.IH(2) moves_clear_peer(2) by simp
  }
qed (simp_all add: peers_own_def moves_refl)

lemma moves_forget_peers:
  assumes "mc_peers m = ps"
  shows "moves {#} (peers_own ps) m (m\<lparr>mc_peers := []\<rparr>)"
  using moves_peers [of "[]" m "[]" "peers_own ps" "{#}"] assms by (simp add: peers_own_def peers_ok_def)

lemma moves_clear: "moves {#} {#} m (clear_all_peers m)"
proof -
  let ?ps = "mc_peers m" and ?m1 = "fold (clear_peer \<circ> snd) (mc_peers m) m"
  have "moves {#} {#} m (clear_all_peers m)" if "shard_ok m"
  proof -
    have ps: "\<forall>p\<in>snd ` set ?ps. peer_ok p" using that by (simp add: shard_ok_def peers_ok_def)
    have "moves {#} (peers_own ?ps) ?m1 (clear_all_peers m)"
      using moves_forget_peers [OF moves_clear_fold(2) [OF ps]] by (simp add: clear_all_peers_def)
    from moves_unframe [OF moves_trans [OF moves_clear_fold(1) [OF ps] this]] show ?thesis .
  qed
  then show ?thesis by (simp add: moves_def)
qed

lemma moves_stop: "moves {#} {#} m (stop m)"
proof -
  let ?m1 = "m\<lparr>mc_running := False, mc_progress_timer := None\<rparr>"
  let ?m2 = "if mc_hg_class ?m1 then clear_all_peers ?m1 else ?m1"
  have 1: "moves {#} {#} m ?m1" by (simp add: accounts)
  have 2: "moves {#} {#} ?m1 ?m2" using moves_clear [of ?m1] by (simp add: moves_refl)
  have "moves {#} {#} ?m2 (stop m)" if "mc_running m"
    using that by (simp add: stop_def Let_def) (simp add: accounts)
  then show ?thesis using moves_trans [OF moves_trans [OF 1 2]] by (auto simp: stop_def moves_refl)
qed

section \<open>The server side\<close>

lemma moves_respond:
  assumes "ss_local_bulk st = None"
  shows "moves (server_owns st) {#} m (respond_server hg st m)"
  using assms by (simp add: respond_server_def Let_def accounts effects server_owns_def)

lemma moves_run_handler:
  assumes "run_server_handler throws st m = Inr m'" "ss_local_bulk st = None"
  shows "moves (server_owns st) {#} m m'"
  using assms by (auto simp: run_server_handler_def accounts server_owns_def split: if_splits)

lemma moves_cleanup_bulk:
  assumes "cleanup_server_bulk st m = (st', m')"
  shows "moves (server_owns st) (server_owns st') m m'" "ss_local_bulk st' = None"
  using assms by (auto simp: cleanup_server_bulk_def accounts effects server_owns_def split: option.splits)

lemma server_owns_update [simp]:
  "server_owns (st\<lparr>ss_request := x\<rparr>) = server_owns st"
  "server_owns (st\<lparr>ss_response := x\<rparr>) = server_owns st"
  "server_owns (st\<lparr>ss_status := s\<rparr>) = server_owns st"
  by (simp_all add: server_owns_def)

lemma moves_bulk_error: "moves (server_owns st) {#} m (respond_bulk_error hg st m)"
proof -
  obtain st1 m1 where c: "cleanup_server_bulk st (on_bulk_error (on_rpc_error m)) = (st1, m1)" by (rule prod.exhaust)
  have "moves (server_owns st) (server_owns st) m (on_bulk_error (on_rpc_error m))"
    by (rule moves_trans [OF moves_effects(3) moves_effects(6)])
  from moves_trans [OF this moves_cleanup_bulk(1) [OF c]]
  show ?thesis
    using moves_trans moves_respond [of "st1\<lparr>ss_status := -1\<rparr>" m1 hg] moves_cleanup_bulk(2) [OF c]
    by (fastforce simp: respond_bulk_error_def c)
qed

lemma moves_pull:
  assumes "ss_local_bulk st = None"
  shows "moves (server_owns st) {#} m (pull_request hg st m)"
proof -
  let ?st = "st\<lparr>ss_request := replicate (rq_bulk_size (ss_input st)) 0\<rparr>"
  have err: "moves (server_owns st) {#} m (respond_bulk_error hg st m)"
    "moves (server_owns st) {#} m (respond_bulk_error hg ?st m)"
    using moves_bulk_error [of ?st m hg] by (simp_all add: moves_bulk_error)
  have bulk: "moves (server_owns st) (server_owns (?st\<lparr>ss_local_bulk := Some b\<rparr>)) m (acquire (BulkHandle b) m)" for b
    using moves_acquire [where a = "server_owns st" and r = "BulkHandle b" and m = m] assms by (simp add: server_owns_def add.commute)
  have pull: "moves (server_owns s) {#} m' (m'\<lparr>mc_pulling := mc_pulling m' @ [s]\<rparr>)" for s m'
    by (simp add: accounts)
  show ?thesis
    unfolding pull_request_def Let_def
    using err moves_trans [OF bulk pull] moves_trans [OF bulk moves_bulk_error]
    by (simp split: option.split)
qed

lemma moves_handle:
  assumes "handle_rpc throws hg h m = Inr m'"
  shows "moves {#Handle h#} {#} m m'"
proof -
  let ?m = "on_rpc_receive m"
  have err: "moves {#Handle h#} {#} m (release [Handle h] (on_rpc_error ?m))"
    using moves_trans [OF moves_trans [OF moves_effects(2) moves_effects(3)] moves_release [of "[Handle h]"]] by simp
  have received: "moves {#Handle h#} {#Handle h#} m ?m" by (rule moves_effects(2))
  let ?st = "\<lambda>request rpc input. \<lparr>ss_handle = h, ss_rpc = re_name rpc, ss_input = input, ss_input_loaded = True,
    ss_local_bulk = None, ss_request = request, ss_response = [], ss_status = 0\<rparr>"
  have pull: "moves {#Handle h#} {#} m (pull_request hg (?st [] rpc input) ?m)" for rpc input
    using moves_trans [OF received] moves_pull [of "?st [] rpc input" ?m hg] by (simp add: server_owns_def)
  have run: "moves {#Handle h#} {#} m m'"
    if "cleanup_server_bulk (?st (rq_eager input) rpc input) ?m = (st1, m1)" "run_server_handler throws st1 m1 = Inr m'"
    for rpc input st1 m1
    using moves_trans [OF moves_trans [OF received] moves_run_handler [OF that(2) moves_cleanup_bulk(2) [OF that(1)]]]
      moves_cleanup_bulk(1) [OF that(1)]
    by (simp add: server_owns_def)
  show ?thesis
  proof (cases "hg_get_info hg")
    case None
    then show ?thesis using assms err by (simp add: handle_rpc_def)
  next
    case info: (Some i)
    show ?thesis
    proof (cases "find_rpc_by_id i ?m")
      case None
      then show ?thesis using assms err by (simp add: handle_rpc_def info)
    next
      case rpc: (Some rpc)
      show ?thesis
        using assms err pull run
        by (cases "hg_get_input hg"; cases "re_handler rpc")
          (auto simp: handle_rpc_def info rpc Let_def split: if_splits prod.splits)
    qed
  qed
qed

lemma moves_dispatch:
  assumes "dispatch_cb throws hg h m = Inr m'"
  shows "moves {#} {#} m m'"
proof -
  let ?m = "acquire (Handle h) m"
  have 1: "moves {#} {#Handle h#} m ?m" using moves_acquire [where a = "{#}" and r = "Handle h" and m = m] by simp
  have "moves {#Handle h#} {#} ?m m'"
    using assms moves_handle moves_release [of "[Handle h]" ?m]
    by (cases "hg_get_info hg = None \<or> \<not> hg_registered_data hg") (auto simp: dispatch_cb_def)
  then show ?thesis by (rule moves_trans [OF 1])
qed

lemma moves_take_server:
  "mc_pulling m = ys @ st # zs \<Longrightarrow> moves {#} (server_owns st) m (m\<lparr>mc_pulling := ys @ zs\<rparr>)"
  "mc_handling m = ys @ st # zs \<Longrightarrow> moves {#} (server_owns st) m (m\<lparr>mc_handling := ys @ zs\<rparr>)"
  "mc_responding m = ys @ st # zs \<Longrightarrow> moves {#} (server_owns st) m (m\<lparr>mc_responding := ys @ zs\<rparr>)"
  by (simp_all add: accounts)

lemma taken_no_bulk:
  "shard_ok m \<Longrightarrow> mc_handling m = ys @ st # zs \<Longrightarrow> ss_local_bulk st = None"
  "shard_ok m \<Longrightarrow> mc_responding m = ys @ st # zs \<Longrightarrow> ss_local_bulk st = None"
  by (simp_all add: shard_ok_def)

lemma moves_if_ok: "(shard_ok m \<Longrightarrow> moves a b m m') \<Longrightarrow> moves a b m m'"
  by (simp add: moves_def)

lemma moves_handler_done: "moves {#} {#} m (handler_done hg h outcome m)"
proof (cases "List.extract (\<lambda>st. ss_handle st = h) (mc_handling m)")
  case None
  then show ?thesis by (simp add: handler_done_def moves_refl)
next
  case (Some x)
  then obtain ys st zs where x: "List.extract (\<lambda>st. ss_handle st = h) (mc_handling m) = Some (ys, st, zs)"
    by (cases x) auto
  note split = extract_split [OF x, THEN conjunct1]
  let ?m = "m\<lparr>mc_handling := ys @ zs\<rparr>"
  let ?st = "\<lambda>response status. st\<lparr>ss_response := response, ss_status := status\<rparr>"
  show ?thesis
  proof (rule moves_if_ok)
    assume "shard_ok m"
    then have "ss_local_bulk (?st response status) = None" for response status
      using taken_no_bulk(1) [OF _ split] by simp
    note respond = moves_respond [OF this, of _ _ _ hg]
    have taken: "moves {#} (server_owns (?st response status)) m ?m" for response status
      using moves_take_server(2) [OF split] by simp
    show "moves {#} {#} m (handler_done hg h outcome m)"
    proof (cases outcome)
      case (Inl e)
      then show ?thesis
        using moves_trans [OF moves_trans [OF taken moves_effects(3)] respond] by (simp add: handler_done_def x Let_def)
    next
      case (Inr response)
      then show ?thesis using moves_trans [OF taken respond] by (simp add: handler_done_def x Let_def)
    qed
  qed
qed

lemma moves_respond_cb: "moves {#} {#} m (respond_cb h m)"
proof (cases "List.extract (\<lambda>st. ss_handle st = h) (mc_responding m)")
  case None
  then show ?thesis by (simp add: respond_cb_def moves_refl)
next
  case (Some x)
  then obtain ys st zs where x: "List.extract (\<lambda>st. ss_handle st = h) (mc_responding m) = Some (ys, st, zs)"
    by (cases x) auto
  note split = extract_split [OF x, THEN conjunct1]
  show ?thesis
  proof (rule moves_if_ok)
    assume "shard_ok m"
    then have "server_owns st = mset [Handle (ss_handle st)]"
      using taken_no_bulk(2) [OF _ split] by (simp add: server_owns_def)
    with moves_take_server(3) [OF split]
    have "moves {#} (mset [Handle (ss_handle st)]) m (m\<lparr>mc_responding := ys @ zs\<rparr>)" by simp
    from moves_trans [OF this moves_release [of _ "m\<lparr>mc_responding := ys @ zs\<rparr>"]]
    show "moves {#} {#} m (respond_cb h m)" by (simp add: respond_cb_def x)
  qed
qed

lemma moves_bulk_pull:
  assumes "bulk_pull_cb throws hg h pulled m = Inr m'"
  shows "moves {#} {#} m m'"
proof (cases "List.extract (\<lambda>st. ss_handle st = h) (mc_pulling m)")
  case None
  then show ?thesis using assms by (simp add: bulk_pull_cb_def moves_refl)
next
  case (Some x)
  then obtain ys st zs where x: "List.extract (\<lambda>st. ss_handle st = h) (mc_pulling m) = Some (ys, st, zs)"
    by (cases x) auto
  note split = extract_split [OF x, THEN conjunct1]
  let ?m1 = "record_bulk_latency (m\<lparr>mc_pulling := ys @ zs\<rparr>)"
  let ?pulled = "case pulled of Some request \<Rightarrow> (st\<lparr>ss_request := request\<rparr>, on_bulk_transfer (length request) ?m1)
    | None \<Rightarrow> (st\<lparr>ss_request := [], ss_response := [], ss_status := -1\<rparr>, on_bulk_error (on_rpc_error ?m1))"
  obtain st2 m2 where p: "?pulled = (st2, m2)" by (rule prod.exhaust)
  obtain st3 m3 where c: "cleanup_server_bulk st2 m2 = (st3, m3)" by (rule prod.exhaust)
  have "moves {#} (server_owns st) m ?m1" by (rule moves_trans [OF moves_take_server(1) [OF split] moves_effects(8)])
  then have "moves {#} (server_owns st2) m m2"
    using p moves_trans moves_effects(5) moves_trans [OF moves_effects(3) moves_effects(6)]
    by (cases pulled) (force, force)
  then have 3: "moves {#} (server_owns st3) m m3" by (rule moves_trans [OF _ moves_cleanup_bulk(1) [OF c]])
  note none = moves_cleanup_bulk(2) [OF c]
  have "m' = respond_server hg st3 m3 \<or> run_server_handler throws st3 m3 = Inr m'"
    using assms unfolding bulk_pull_cb_def x option.case prod.case Let_def p c by (auto split: option.splits if_splits)
  then show ?thesis
    using moves_trans [OF 3 moves_respond [OF none]] moves_trans [OF 3 moves_run_handler [OF _ none]] by auto
qed

section \<open>The progress loop\<close>

lemma moves_callback: "run_callback throws cb m = Inr m' \<Longrightarrow> moves {#} {#} m m'"
  by (cases cb) (auto simp: moves_lookup_cb moves_forward_cb moves_dispatch moves_bulk_pull moves_respond_cb)

lemma moves_callbacks: "foldR (run_callback throws) cbs m = Inr m' \<Longrightarrow> moves {#} {#} m m'"
proof (induction cbs arbitrary: m)
  case (Cons cb cbs)
  then show ?case by (auto simp: rbind_eq_Inr_iff intro: moves_trans [OF moves_callback])
qed (simp add: moves_refl)

lemma moves_trigger:
  assumes "trigger_callbacks throws trig k triggered m = Some r"
  shows "\<forall>x m'. r = Inr (x, m') \<longrightarrow> moves {#} {#} m m'"
proof (rule trigger_callbacks.raw_induct
    [where P = "\<lambda>throws trig k triggered m r. \<forall>x m'. r = Inr (x, m') \<longrightarrow> moves {#} {#} m m'", OF _ assms])
  fix f throws trig k triggered m r
  assume IH: "\<And>throws trig k triggered m r. f throws trig k triggered m = Some r \<Longrightarrow>
      \<forall>x m'. r = Inr (x, m') \<longrightarrow> moves {#} {#} m m'"
    and ret: "(case trig k of None \<Rightarrow> Some (Inr (triggered, m))
      | Some cbs \<Rightarrow> (case foldR (run_callback throws) (take kMercuryTriggerBatch cbs) m of
          Inl e \<Rightarrow> Some (Inl e)
        | Inr m' \<Rightarrow> if cbs = [] then Some (Inr (triggered, m')) else f throws trig (Suc k) True m')) = Some r"
  show "\<forall>x m'. r = Inr (x, m') \<longrightarrow> moves {#} {#} m m'"
  proof (cases "trig k")
    case None
    then show ?thesis using ret by (auto simp: moves_refl)
  next
    case (Some cbs)
    show ?thesis
    proof (cases "foldR (run_callback throws) (take kMercuryTriggerBatch cbs) m")
      case (Inl e)
      then show ?thesis using ret Some by auto
    next
      case (Inr m1)
      show ?thesis
        using ret Some Inr moves_callbacks [OF Inr] IH [of throws trig "Suc k" True m1 r]
        by (auto split: if_splits intro: moves_trans)
    qed
  qed
qed

lemma moves_rounds:
  "progress_rounds throws trig prog round left progressed m = Some (Inr (x, m')) \<Longrightarrow> moves {#} {#} m m'"
proof (induction left arbitrary: round progressed m)
  case (Suc left)
  obtain triggered m1 where t: "trigger_callbacks throws (trig round) 0 False m = Some (Inr (triggered, m1))"
    using Suc.prems by (auto split: option.splits sum.splits)
  have "moves {#} {#} m m1" using moves_trigger [OF t] by simp
  then show ?case using Suc t by (auto split: if_splits intro: moves_trans)
qed (simp add: moves_refl)

lemma moves_progress:
  "progress_timer throws trig prog m = Some (Inr m') \<Longrightarrow> moves {#} {#} m m'"
  unfolding progress_timer_def progress_once_def
  by (auto split: option.splits sum.splits if_splits intro: moves_trans [OF moves_rounds moves_arm] moves_arm)

end
