(* ===== verification/Mercury_Steps.thy ===== *)
theory Mercury_Steps
  imports Mercury_Properties
begin

text \<open>The RPC layer as a state machine: its public operations, the two timers and the continuations of the RPC
  handlers interleave in any order, and Mercury answers every call as it likes. What holds in every state
  such a run reaches: the state is well-formed, every resource is accounted for, and every future is completed
  once and not lost.\<close>

section \<open>Steps\<close>

inductive mercury_step :: "(string \<Rightarrow> bytes \<Rightarrow> bool) \<Rightarrow> MercuryShard \<Rightarrow> MercuryShard \<Rightarrow> bool"
  for throws :: "string \<Rightarrow> bytes \<Rightarrow> bool" where
  register: "mercury_step throws m (snd (register_handler hg name handler m))"
| start: "mercury_step throws m (snd (start hg address m))"
| stop: "mercury_step throws m (stop m)"
| forward: "mercury_step throws m (snd (forward hg peer rpc payload m))"
| timeout: "mercury_step throws m (timeout_timer i m)"
| handled: "mercury_step throws m (handler_done hg h outcome m)"
| progress: "progress_timer throws trig prog m = Some (Inr m') \<Longrightarrow> mercury_step throws m m'"

definition reachable :: "(string \<Rightarrow> bytes \<Rightarrow> bool) \<Rightarrow> MercuryShard \<Rightarrow> bool" where
  "reachable throws = (mercury_step throws)\<^sup>*\<^sup>* new_impl"

lemma step_moves: "mercury_step throws m m' \<Longrightarrow> moves {#} {#} m m'"
  by (induction rule: mercury_step.induct)
    (auto simp: moves_register moves_start_shard moves_stop moves_forward moves_timeout moves_handler_done moves_progress)

lemma reachable_account:
  assumes "reachable throws m"
  shows "shard_ok m \<and> account m = acquired m"
  using assms unfolding reachable_def
proof (induction rule: rtranclp_induct)
  case base
  show ?case by (simp add: new_impl_def accounts peers_ok_def peers_own_def)
next
  case (step m m')
  have "account m' + acquired m = account m + acquired m'" and "shard_ok m'"
    using step_moves [OF step.hyps(2)] step.IH by (simp_all add: moves_def)
  with step.IH show ?case by simp
qed

lemma reachable_step: "reachable throws m \<Longrightarrow> mercury_step throws m m' \<Longrightarrow> reachable throws m'"
  unfolding reachable_def by (rule rtranclp.rtrancl_into_rtrancl)

lemma reachable_new: "reachable throws new_impl"
  by (simp add: reachable_def)

section \<open>Promises\<close>

definition clients :: "MercuryShard \<Rightarrow> ClientRpcState list" where
  "clients m = concat (map (waiters \<circ> snd) (mc_peers m)) @ mc_inflight m"

text \<open>Counting the promise \<open>i\<close> on both sides of the account.\<close>

lemma count_client_owns: "count (client_owns st) (Promise i) = (if cs_id st = i \<and> \<not> cs_promise_done st then 1 else 0)"
  by (simp add: client_owns_def held_handles_def split: option.split)

lemma count_sum_clients:
  "count (sum_list (map client_owns sts)) (Promise i) = length (filter (\<lambda>st. cs_id st = i \<and> \<not> cs_promise_done st) sts)"
  by (induction sts) (auto simp: count_client_owns)

lemma count_sum_servers: "count (sum_list (map server_owns sts)) (Promise i) = 0"
  by (induction sts) (auto simp: server_owns_def split: option.split)

lemma count_peers:
  "count (peers_own ps) (Promise i) =
     length (filter (\<lambda>st. cs_id st = i \<and> \<not> cs_promise_done st) (concat (map (waiters \<circ> snd) ps)))"
proof (induction ps)
  case (Cons p ps)
  have "count (mset (map Handle hs)) (Promise i) = 0" for hs by (auto simp: count_eq_zero_iff)
  then show ?case using Cons by (simp add: peers_own_def peer_owns_def count_sum_clients)
qed (simp add: peers_own_def)

lemma count_held:
  "count (held m) (Promise i) = length (filter (\<lambda>st. cs_id st = i \<and> \<not> cs_promise_done st) (clients m))"
  by (simp add: held_def clients_def count_peers count_sum_clients count_sum_servers)

lemma promise_balance:
  assumes "reachable throws m"
  shows "(if i < mc_next_id m then 1 else 0) = count (mset (map fst (mc_completions m))) i +
    length (filter (\<lambda>st. cs_id st = i \<and> \<not> cs_promise_done st) (clients m))"
proof -
  have ok: "shard_ok m" and bal: "account m = acquired m" using reachable_account [OF assms] by auto
  have none: "count (mset rs) (Promise i) = 0" if "list_all from_hg rs" for rs
    using that by (induction rs) (auto elim: from_hg.elims)
  have "count (mset (map Promise [0..<n])) (Promise i) = (if i < n then 1 else 0)" for n
    by (induction n) auto
  moreover have "count (mset (map (Promise \<circ> fst) cs)) (Promise i) = count (mset (map fst cs)) i" for cs :: "(nat \<times> bytes result) list"
    by (induction cs) auto
  ultimately show ?thesis
    using arg_cong [OF bal, of "\<lambda>rs. count rs (Promise i)"] ok
    by (simp add: account_def acquired_def released_def count_held none shard_ok_def)
qed

lemma indicator: "(c :: nat) \<le> 1 \<Longrightarrow> (0 < c) = P \<Longrightarrow> c = (if P then 1 else 0)"
  by auto

lemma one_of_two: "(c :: nat) + k = 1 \<Longrightarrow> (0 < c) \<noteq> (0 < k)"
  by (cases c) auto

lemma promise_once:
  assumes "reachable throws m"
  shows "count (mset (map fst (mc_completions m))) i \<le> 1"
    and "i < mc_next_id m \<Longrightarrow> count (mset (map fst (mc_completions m))) i +
      length (filter (\<lambda>st. cs_id st = i \<and> \<not> cs_promise_done st) (clients m)) = 1"
proof -
  define c where "c = count (mset (map fst (mc_completions m))) i"
  define k where "k = length (filter (\<lambda>st. cs_id st = i \<and> \<not> cs_promise_done st) (clients m))"
  have "(if i < mc_next_id m then 1 else 0) = c + k" unfolding c_def k_def by (rule promise_balance [OF assms])
  then have "c \<le> 1" "i < mc_next_id m \<Longrightarrow> c + k = 1" by (auto split: if_splits)
  then show "count (mset (map fst (mc_completions m))) i \<le> 1"
    and "i < mc_next_id m \<Longrightarrow> count (mset (map fst (mc_completions m))) i +
      length (filter (\<lambda>st. cs_id st = i \<and> \<not> cs_promise_done st) (clients m)) = 1"
    unfolding c_def k_def by blast+
qed

lemma timeout_completes:
  assumes ok: "shard_ok m" and st: "st \<in> set (mc_inflight m)" "\<not> cs_promise_done st"
  shows "cs_id st \<in> fst ` set (mc_completions (timeout_timer (cs_id st) m))"
proof -
  let ?P = "\<lambda>x. cs_id x = cs_id st \<and> cs_timer_armed x"
  have "inflight_ok x" if "x \<in> set (mc_inflight m)" for x using ok that by (simp add: shard_ok_def list_all_iff)
  note armed = this
  have "?P st" using armed [OF st(1)] st(2) by (simp add: inflight_ok_def)
  then have "List.extract ?P (mc_inflight m) \<noteq> None" using st(1) by (auto simp: extract_None_iff)
  then obtain ys x zs where x: "List.extract ?P (mc_inflight m) = Some (ys, x, zs)" by auto
  note x1 = extract_split [OF x, THEN conjunct1] and x2 = extract_split [OF x, THEN conjunct2]
  have "\<not> cs_promise_done x" "cs_id x = cs_id st" using armed [of x] x1 x2 by (auto simp: inflight_ok_def)
  then show ?thesis
    unfolding timeout_timer_def x option.case prod.case Let_def split_beta
    by (cases "cs_latency_recorded x") (simp_all add: effects)
qed

section \<open>The progress loop returns\<close>

text \<open>When every round of \<^verbatim>\<open>HG_Trigger\<close> calls drains the completion queue after \<open>n\<close> calls, \<^verbatim>\<open>progress_once\<close> returns,
  with a new state or with the exception of a handler.\<close>

lemma trigger_returns:
  assumes "case trig n of None \<Rightarrow> True | Some cbs \<Rightarrow> cbs = []" "k \<le> n"
  shows "\<exists>r. trigger_callbacks throws trig k triggered m = Some r"
  using assms(2)
proof (induction "n - k" arbitrary: k triggered m)
  case 0
  then have "k = n" by simp
  then show ?case using assms(1) by (subst trigger_callbacks.simps) (auto split: option.splits sum.splits)
next
  case (Suc d)
  then have "\<exists>r. trigger_callbacks throws trig (Suc k) True m' = Some r" for m' by simp
  then show ?case by (subst trigger_callbacks.simps) (simp split: option.split sum.split)
qed

lemma progress_returns:
  assumes "\<And>round. \<exists>n. case trig round n of None \<Rightarrow> True | Some cbs \<Rightarrow> cbs = []"
  shows "\<exists>r. progress_once throws trig prog m = Some r"
proof -
  have trigger: "\<exists>r. trigger_callbacks throws (trig round) 0 False m = Some r" for round m
    using assms [of round] trigger_returns [of "trig round" _ 0] by blast
  have "\<exists>r. progress_rounds throws trig prog round left progressed m = Some r" for round left progressed m
  proof (induction left arbitrary: round progressed m)
    case (Suc left)
    obtain r where "trigger_callbacks throws (trig round) 0 False m = Some r" using trigger by blast
    then show ?case using Suc by (cases r) auto
  qed simp
  then show ?thesis by (simp add: progress_once_def)
qed

section \<open>A run\<close>

text \<open>A shard at \<^verbatim>\<open>tcp://a\<close> forwards two appends to \<^verbatim>\<open>tcp://b\<close>; the second joins the address lookup of the first.\<close>

definition run_hg :: "nat \<Rightarrow> Hg" where
  "run_hg h = \<lparr>hg_init = True, hg_context_create = True, hg_register_name = (\<lambda>_. 9), hg_register_data = (\<lambda>_. True),
     hg_bulk_create = Some 50, hg_addr_lookup = True, hg_reset = True, hg_create = Some h, hg_forward = True,
     hg_get_info = None, hg_registered_data = True, hg_get_input = None, hg_bulk_transfer = True, hg_respond = True,
     hg_error = ''HG_TIMEOUT''\<rparr>"

definition no_throw :: "string \<Rightarrow> bytes \<Rightarrow> bool" where
  "no_throw rpc request = False"

definition run_two_forwards :: MercuryShard where
  "run_two_forwards =
     snd (forward (run_hg 1) ''b'' ''append'' [2] (snd (forward (run_hg 1) ''b'' ''append'' [1]
       (snd (start (run_hg 1) ''a'' new_impl)))))"

lemma run_two_reachable: "reachable throws run_two_forwards"
  unfolding run_two_forwards_def by (intro reachable_step [OF _ mercury_step.intros(4)]
    reachable_step [OF _ mercury_step.intros(2)] reachable_new)

lemmas run_simps = forward_def rpc_to_forward_def find_rpc_by_name_def register_handler_def bind_rpc_to_mercury_def
  send_or_lookup_def peer_state_def set_peer_def new_peer_def new_client_def make_input_def kBulkTransferThreshold_def
  start_def arm_progress_timer_def run_hg_def new_impl_def effects Let_def kMercuryIdleProgressInterval_def

lemmas lookup_simps = lookup_cb_def lookups_def map_filter_simps take_pending_lookup_def erase_peer_def
  resolve_lookup_def cache_address_def start_client_forward_def create_and_forward_def fail_client_def
  cleanup_client_def drop_peer_def pooled_def AList.delete_eq

definition run_client :: "nat \<Rightarrow> byte \<Rightarrow> ClientRpcState" where
  "run_client i b = new_client i ''b'' 9 [b] None"

lemma run_two_forwards_eq:
  "run_two_forwards = new_impl\<lparr>mc_running := True, mc_address := ''a'', mc_hg_class := True, mc_hg_context := True,
     mc_progress_timer := Some 5,
     mc_rpcs_by_name := [(''append'', \<lparr>re_name = ''append'', re_id = 9, re_handler = False\<rparr>)],
     mc_rpcs_by_id := [(9, ''append'')], mc_last_rpc := Some ''append'', mc_rpc_forwards := 2, mc_next_id := 2,
     mc_peers := [(''b'', \<lparr>peer_addr = None, peer_pools = [], peer_pending_lookup =
       Some \<lparr>lk_id = 0, lk_peer = ''b'', lk_waiters = [run_client 0 1, run_client 1 2], lk_cancelled = False\<rparr>\<rparr>)]\<rparr>"
proof -
  have "snd (start (run_hg 1) ''a'' new_impl) = new_impl\<lparr>mc_running := True, mc_address := ''a'', mc_hg_class := True,
      mc_hg_context := True, mc_progress_timer := Some 5\<rparr>" by (simp add: run_simps)
  then show ?thesis unfolding run_two_forwards_def by (simp add: run_client_def run_simps)
qed

text \<open>The lookup succeeds for both waiters; the first request is answered, the second stays on the wire.\<close>

definition run_callbacks :: "callback list" where
  "run_callbacks = [LookupDone 0 (Inr 7) (\<lambda>i. run_hg (100 + i)),
     ForwardDone 0 (Inr (Inr \<lparr>ry_status = 0, ry_payload = [42]\<rparr>))]"

definition run_trigger :: "nat \<Rightarrow> nat \<Rightarrow> callback list option" where
  "run_trigger round k = Some (if round = 0 \<and> k = 0 then run_callbacks else [])"

definition run_state :: MercuryShard where
  "run_state = run_two_forwards\<lparr>
     mc_peers := [(''b'', \<lparr>peer_addr = Some 7, peer_pools = [\<lparr>hp_rpc_id = 9, hp_handles = [100]\<rparr>],
       peer_pending_lookup = None\<rparr>)],
     mc_inflight := [(run_client 1 2)\<lparr>cs_addr := Some 7, cs_handle := Some 101, cs_timer_armed := True\<rparr>],
     mc_forward_latencies := 1, mc_acquired := [Handle 100, Handle 101], mc_completions := [(0, Inr [42])]\<rparr>"

lemma run_callbacks_eq: "foldR (run_callback throws) run_callbacks run_two_forwards = Inr run_state"
proof -
  have "lookup_cb 0 (Inr 7) (\<lambda>i. run_hg (100 + i)) run_two_forwards = Inr (run_two_forwards\<lparr>
     mc_peers := [(''b'', \<lparr>peer_addr = Some 7, peer_pools = [], peer_pending_lookup = None\<rparr>)],
     mc_inflight := [(run_client 0 1)\<lparr>cs_addr := Some 7, cs_handle := Some 100, cs_timer_armed := True\<rparr>,
       (run_client 1 2)\<lparr>cs_addr := Some 7, cs_handle := Some 101, cs_timer_armed := True\<rparr>],
     mc_acquired := [Handle 100, Handle 101]\<rparr>)"
    by (simp add: run_two_forwards_eq run_client_def run_simps lookup_simps)
  then show ?thesis
    by (simp add: run_callbacks_def run_state_def run_two_forwards_eq forward_cb_def extract_def settle_forward_def
        cleanup_client_def recycle_handle_def run_client_def run_simps)
qed

lemma run_progress_eq:
  "progress_timer throws run_trigger (\<lambda>_. False) run_two_forwards = Some (Inr (run_state\<lparr>mc_progress_timer := Some 1\<rparr>))"
proof -
  have "take kMercuryTriggerBatch run_callbacks = run_callbacks" by (simp add: run_callbacks_def kMercuryTriggerBatch_def)
  then have "trigger_callbacks throws (run_trigger 0) 0 False run_two_forwards = Some (Inr (True, run_state))"
    using run_callbacks_eq [of throws]
    by (subst trigger_callbacks.simps, simp add: run_trigger_def run_callbacks_def)
      (subst trigger_callbacks.simps, simp add: run_trigger_def)
  moreover have "trigger_callbacks throws (run_trigger (Suc 0)) 0 False run_state = Some (Inr (False, run_state))"
    by (subst trigger_callbacks.simps) (simp add: run_trigger_def)
  moreover have "mc_running run_two_forwards" "mc_hg_context run_two_forwards" "mc_running run_state"
    by (simp_all add: run_two_forwards_eq run_state_def)
  ultimately show ?thesis
    by (simp add: progress_timer_def progress_once_def kMercuryProgressRounds_def numeral_eq_Suc arm_progress_timer_def
        kMercuryActiveProgressInterval_def)
qed

lemma run_state_reachable: "reachable no_throw (run_state\<lparr>mc_progress_timer := Some 1\<rparr>)"
  by (rule reachable_step [OF run_two_reachable mercury_step.intros(7) [OF run_progress_eq]])

section \<open>What holds in every reachable state\<close>

text \<open>C15: In every state the RPC layer can reach, whatever Mercury answers and in whatever order requests, replies,
  timeouts, lookups and restarts come, the state is well-formed (one entry per peer, at most 128 idle handles per
  peer and RPC, no handle with an RPC that still waits for its peer's address, a running timer for every RPC on the
  wire that is not completed), and the handles, bulk handles and promises ever obtained are exactly those given back
  and those held by one object of the state: nothing leaks and nothing is given back twice.\<close>

theorem rpc_resources_accounted:
  assumes "reachable throws m"
  shows "shard_ok m \<and> acquired m = released m + held m"
  using reachable_account [OF assms] by (simp add: account_def)

theorem rpc_resources_accounted_witness:
  "reachable no_throw (run_state\<lparr>mc_progress_timer := Some 1\<rparr>) \<and>
   released (run_state\<lparr>mc_progress_timer := Some 1\<rparr>) = {#Promise 0#} \<and>
   acquired (run_state\<lparr>mc_progress_timer := Some 1\<rparr>) = {#Promise 0#} + held (run_state\<lparr>mc_progress_timer := Some 1\<rparr>)"
proof -
  have "released (run_state\<lparr>mc_progress_timer := Some 1\<rparr>) = {#Promise 0#}"
    by (simp add: released_def run_state_def run_two_forwards_eq new_impl_def)
  then show ?thesis using rpc_resources_accounted [OF run_state_reachable] run_state_reachable by simp
qed

text \<open>C16: Every future \<^verbatim>\<open>forward\<close> hands out is completed at most once and never lost: its promise is either
  completed, or it is open and owned by exactly one RPC that waits for an address lookup or is on the wire; and the
  timeout of an RPC on the wire completes it if nothing else did.\<close>

theorem rpc_futures_complete_once:
  assumes "reachable throws m"
  shows "distinct (map fst (mc_completions m)) \<and>
    (\<forall>i<mc_next_id m. (i \<in> fst ` set (mc_completions m)) \<noteq>
       (\<exists>st\<in>set (clients m). cs_id st = i \<and> \<not> cs_promise_done st)) \<and>
    (\<forall>st\<in>set (mc_inflight m). \<not> cs_promise_done st \<longrightarrow>
       cs_id st \<in> fst ` set (mc_completions (timeout_timer (cs_id st) m)))"
proof (intro conjI allI impI ballI)
  note once = promise_once [OF assms]
  show "distinct (map fst (mc_completions m))"
    unfolding distinct_count_atmost_1
  proof (intro allI)
    fix i
    let ?ids = "map fst (mc_completions m)"
    have "count (mset ?ids) i \<le> 1" by (rule once(1))
    moreover have "0 < count (mset ?ids) i \<longleftrightarrow> i \<in> set ?ids" unfolding count_greater_zero_iff set_mset_mset ..
    ultimately show "count (mset ?ids) i = (if i \<in> set ?ids then 1 else 0)" by (rule indicator)
  qed
  show "(i \<in> fst ` set (mc_completions m)) \<noteq> (\<exists>st\<in>set (clients m). cs_id st = i \<and> \<not> cs_promise_done st)"
    if "i < mc_next_id m" for i
  proof -
    have completed: "i \<in> fst ` set (mc_completions m) \<longleftrightarrow> 0 < count (mset (map fst (mc_completions m))) i"
      unfolding count_greater_zero_iff set_mset_mset by simp
    have open_rpc: "(\<exists>st\<in>set (clients m). cs_id st = i \<and> \<not> cs_promise_done st) \<longleftrightarrow>
        0 < length (filter (\<lambda>st. cs_id st = i \<and> \<not> cs_promise_done st) (clients m))"
      by (auto simp: filter_empty_conv)
    show ?thesis unfolding completed open_rpc by (rule one_of_two [OF once(2) [OF that]])
  qed
  show "cs_id st \<in> fst ` set (mc_completions (timeout_timer (cs_id st) m))"
    if "st \<in> set (mc_inflight m)" "\<not> cs_promise_done st" for st
    using timeout_completes [OF _ that] reachable_account [OF assms] by simp
qed

theorem rpc_futures_complete_once_witness:
  "reachable no_throw (run_state\<lparr>mc_progress_timer := Some 1\<rparr>) \<and>
   map fst (mc_completions run_state) = [0] \<and>
   (\<exists>st\<in>set (clients (run_state\<lparr>mc_progress_timer := Some 1\<rparr>)). cs_id st = 1 \<and> \<not> cs_promise_done st)"
proof -
  let ?m = "run_state\<lparr>mc_progress_timer := Some 1\<rparr>"
  have "map fst (mc_completions run_state) = [0]" "1 < mc_next_id ?m" "1 \<notin> fst ` set (mc_completions ?m)"
    by (simp_all add: run_state_def run_two_forwards_eq)
  with rpc_futures_complete_once [OF run_state_reachable] run_state_reachable show ?thesis by blast
qed

section \<open>Where the code falls short\<close>

text \<open>\<^verbatim>\<open>lookup_cb\<close> keeps a reference to the peer's entry while it starts one RPC after the other. When starting the
  first one fails, its cleanup erases the entry, and the reference is read again for the second.\<close>

theorem lookup_fan_out_dangles:
  "reachable throws run_two_forwards \<and>
   lookup_cb 0 (Inr 7) (\<lambda>i. (run_hg 3)\<lparr>hg_create := None\<rparr>) run_two_forwards = Inl OutOfBounds"
  using run_two_reachable
  by (simp add: run_two_forwards_eq run_client_def run_simps lookup_simps)

text \<open>An RPC that waits for an address lookup has no timer: its timeout does nothing.\<close>

theorem waiting_rpc_has_no_timeout:
  "reachable throws run_two_forwards \<and> 0 \<in> cs_id ` set (clients run_two_forwards) \<and>
   timeout_timer 0 run_two_forwards = run_two_forwards"
  using run_two_reachable
  by (simp add: timeout_timer_def extract_def run_two_forwards_eq new_impl_def clients_def waiters_def run_client_def new_client_def)

text \<open>A lookup that ends after \<^verbatim>\<open>stop\<close> leaves the address it resolved unreleased.\<close>

theorem cancelled_lookup_leaks_address:
  "lk_cancelled l \<Longrightarrow> resolve_lookup (Inr addr) hg l m = Inr m"
  by (simp add: resolve_lookup_def)

text \<open>A \<^verbatim>\<open>start\<close> that cannot bind a registered RPC fails, but the shard counts as running, so that starting it again
  succeeds at once without arming the progress timer.\<close>

theorem failed_start_stays_running:
  "let hg = (run_hg 1)\<lparr>hg_register_name := \<lambda>_. 0\<rparr>;
       m1 = snd (register_handler hg ''append'' True new_impl);
       m2 = snd (start hg ''a'' m1)
   in (\<exists>e. fst (start hg ''a'' m1) = Inl e) \<and> start (run_hg 1) ''a'' m2 = (Inr (), m2) \<and> mc_progress_timer m2 = None"
  by (simp add: run_simps)

end
