(* ===== verification/Mercury_Proc.thy ===== *)
theory Mercury_Proc
  imports Mercury_Shard
begin

text \<open>How a request and a reply of the RPC layer travel: the serialisers that \<^verbatim>\<open>mercury_shard.cpp\<close> hands to Mercury. One
  function encodes, decodes and frees, as the operation of the Mercury processor says. The primitives of Mercury are
  an argument; what they promise, that they append a layout when they encode and take it off again when they
  decode, is a hypothesis.\<close>

section \<open>The serialisers\<close>

datatype HgOp = HG_ENCODE | HG_DECODE | HG_FREE | HG_OP_OTHER

datatype hg_return = HG_SUCCESS | HG_INVALID_ARG | HG_NOMEM | HG_PROTOCOL_ERROR | HG_OVERFLOW

record HgBytes =
  hb_size :: nat
  hb_data :: "bytes option"

text \<open>The request and the reply as the structs Mercury sees, with the bytes behind a pointer.\<close>

record RawRequest =
  rr_mode :: int
  rr_eager :: HgBytes
  rr_bulk_size :: nat
  rr_bulk_handle :: "nat option"

record RawReply =
  rp_status :: int
  rp_payload :: HgBytes

text \<open>The calls of Mercury on a processor \<open>'p\<close>: each takes the value at its address and gives back what stands there
  afterwards. \<open>pr_malloc\<close> says whether an allocation succeeds.\<close>

record 'p HgProc =
  pr_op :: "'p \<Rightarrow> HgOp"
  pr_int32 :: "int \<Rightarrow> 'p \<Rightarrow> hg_return \<times> int \<times> 'p"
  pr_size :: "nat \<Rightarrow> 'p \<Rightarrow> hg_return \<times> nat \<times> 'p"
  pr_raw :: "bytes \<Rightarrow> 'p \<Rightarrow> hg_return \<times> bytes \<times> 'p"
  pr_bulk :: "nat option \<Rightarrow> 'p \<Rightarrow> hg_return \<times> nat option \<times> 'p"
  pr_malloc :: "nat \<Rightarrow> bool"

definition no_bytes :: HgBytes where
  "no_bytes = \<lparr>hb_size = 0, hb_data = None\<rparr>"

definition encode_bytes :: "'p HgProc \<Rightarrow> HgBytes \<Rightarrow> 'p \<Rightarrow> hg_return \<times> HgBytes \<times> 'p" where
  "encode_bytes hg b p =
     (case hb_data b of
        None \<Rightarrow> if hb_size b > 0 then (HG_INVALID_ARG, b, p) else (HG_SUCCESS, b, p)
      | Some d \<Rightarrow>
          if hb_size b = 0 then (HG_SUCCESS, b, p)
          else case pr_raw hg (take (hb_size b) d) p of (ret, _, p1) \<Rightarrow> (ret, b, p1))"

definition decode_bytes :: "'p HgProc \<Rightarrow> nat \<Rightarrow> 'p \<Rightarrow> hg_return \<times> HgBytes \<times> 'p" where
  "decode_bytes hg n p =
     (if n = 0 then (HG_SUCCESS, no_bytes, p)
      else if \<not> pr_malloc hg n then (HG_NOMEM, \<lparr>hb_size = n, hb_data = None\<rparr>, p)
      else case pr_raw hg (replicate n 0) p of
        (ret, d, p1) \<Rightarrow>
          if ret \<noteq> HG_SUCCESS then (ret, no_bytes, p1) else (HG_SUCCESS, \<lparr>hb_size = n, hb_data = Some d\<rparr>, p1))"

definition proc_hg_bytes :: "'p HgProc \<Rightarrow> HgBytes \<Rightarrow> 'p \<Rightarrow> hg_return \<times> HgBytes \<times> 'p" where
  "proc_hg_bytes hg b p =
     (case pr_size hg (hb_size b) p of
        (ret, n, p1) \<Rightarrow>
          let b1 = b\<lparr>hb_size := n\<rparr>
          in if ret \<noteq> HG_SUCCESS then (ret, b1, p1)
             else case pr_op hg p1 of
               HG_ENCODE \<Rightarrow> encode_bytes hg b1 p1
             | HG_DECODE \<Rightarrow> decode_bytes hg n p1
             | HG_FREE \<Rightarrow> (HG_SUCCESS, no_bytes, p1)
             | HG_OP_OTHER \<Rightarrow> (HG_PROTOCOL_ERROR, b1, p1))"

definition proc_hg_reply :: "'p HgProc \<Rightarrow> RawReply \<Rightarrow> 'p \<Rightarrow> hg_return \<times> RawReply \<times> 'p" where
  "proc_hg_reply hg reply p =
     (case pr_int32 hg (rp_status reply) p of
        (ret, status, p1) \<Rightarrow>
          if ret \<noteq> HG_SUCCESS then (ret, reply\<lparr>rp_status := status\<rparr>, p1)
          else case proc_hg_bytes hg (rp_payload reply) p1 of
            (ret, payload, p2) \<Rightarrow> (ret, \<lparr>rp_status = status, rp_payload = payload\<rparr>, p2))"

definition proc_bulk_handle :: "'p HgProc \<Rightarrow> RawRequest \<Rightarrow> 'p \<Rightarrow> hg_return \<times> RawRequest \<times> 'p" where
  "proc_bulk_handle hg request p =
     (if rr_mode request = mode_code Bulk then
        (case pr_bulk hg (rr_bulk_handle request) p of (ret, h, p1) \<Rightarrow> (ret, request\<lparr>rr_bulk_handle := h\<rparr>, p1))
      else if pr_op hg p = HG_DECODE then (HG_SUCCESS, request\<lparr>rr_bulk_handle := None\<rparr>, p)
      else (HG_SUCCESS, request, p))"

definition proc_hg_request :: "'p HgProc \<Rightarrow> RawRequest \<Rightarrow> 'p \<Rightarrow> hg_return \<times> RawRequest \<times> 'p" where
  "proc_hg_request hg request p =
     (case pr_int32 hg (rr_mode request) p of
        (ret, mode, p1) \<Rightarrow>
          let r1 = request\<lparr>rr_mode := mode\<rparr>
          in if ret \<noteq> HG_SUCCESS then (ret, r1, p1)
             else case proc_hg_bytes hg (rr_eager r1) p1 of
               (ret, eager, p2) \<Rightarrow>
                 let r2 = r1\<lparr>rr_eager := eager\<rparr>
                 in if ret \<noteq> HG_SUCCESS then (ret, r2, p2)
                    else case pr_size hg (rr_bulk_size r2) p2 of
                      (ret, n, p3) \<Rightarrow>
                        let r3 = r2\<lparr>rr_bulk_size := n\<rparr>
                        in if ret \<noteq> HG_SUCCESS then (ret, r3, p3) else proc_bulk_handle hg r3 p3)"

section \<open>What the primitives promise\<close>

text \<open>A layout for each kind of value, and the bytes a processor has written or has yet to read.\<close>

record 'p HgWire =
  lay_int32 :: "int \<Rightarrow> bytes"
  lay_size :: "nat \<Rightarrow> bytes"
  lay_bulk :: "nat \<Rightarrow> bytes"
  wi_written :: "'p \<Rightarrow> bytes"
  wi_rest :: "'p \<Rightarrow> bytes"

definition encodes :: "'p HgProc \<Rightarrow> 'p HgWire \<Rightarrow> ('p \<Rightarrow> hg_return \<times> 'v \<times> 'p) \<Rightarrow> 'v \<Rightarrow> bytes \<Rightarrow> bool" where
  "encodes hg wire f v bs \<longleftrightarrow>
     (\<forall>p v' p'. pr_op hg p = HG_ENCODE \<longrightarrow> f p = (HG_SUCCESS, v', p') \<longrightarrow>
        v' = v \<and> pr_op hg p' = HG_ENCODE \<and> wi_written wire p' = wi_written wire p @ bs)"

definition decodes :: "'p HgProc \<Rightarrow> 'p HgWire \<Rightarrow> ('p \<Rightarrow> hg_return \<times> 'v \<times> 'p) \<Rightarrow> 'v \<Rightarrow> bytes \<Rightarrow> bool" where
  "decodes hg wire f v bs \<longleftrightarrow>
     (\<forall>p suf. pr_op hg p = HG_DECODE \<longrightarrow> wi_rest wire p = bs @ suf \<longrightarrow>
        (\<exists>p'. f p = (HG_SUCCESS, v, p') \<and> pr_op hg p' = HG_DECODE \<and> wi_rest wire p' = suf))"

definition fits64 :: "nat \<Rightarrow> bool" where
  "fits64 n \<longleftrightarrow> n < 2 ^ 64"

definition proc_laws :: "'p HgProc \<Rightarrow> 'p HgWire \<Rightarrow> bool" where
  "proc_laws hg wire \<longleftrightarrow>
     (\<forall>v. i32 v \<longrightarrow> encodes hg wire (pr_int32 hg v) v (lay_int32 wire v)) \<and>
     (\<forall>n. fits64 n \<longrightarrow> encodes hg wire (pr_size hg n) n (lay_size wire n)) \<and>
     (\<forall>bs. encodes hg wire (pr_raw hg bs) bs bs) \<and>
     (\<forall>h. fits64 h \<longrightarrow> encodes hg wire (pr_bulk hg (Some h)) (Some h) (lay_bulk wire h)) \<and>
     (\<forall>v v0. i32 v \<longrightarrow> decodes hg wire (pr_int32 hg v0) v (lay_int32 wire v)) \<and>
     (\<forall>n n0. fits64 n \<longrightarrow> decodes hg wire (pr_size hg n0) n (lay_size wire n)) \<and>
     (\<forall>bs bs0. length bs0 = length bs \<longrightarrow> decodes hg wire (pr_raw hg bs0) bs bs) \<and>
     (\<forall>h h0. fits64 h \<longrightarrow> decodes hg wire (pr_bulk hg h0) (Some h) (lay_bulk wire h))"

section \<open>Round trips\<close>

text \<open>The structs for the bytes the caller holds: an empty payload may or may not have an address.\<close>

definition holds_bytes :: "HgBytes \<Rightarrow> bytes \<Rightarrow> bool" where
  "holds_bytes b bs \<longleftrightarrow> hb_size b = length bs \<and> (hb_data b = Some bs \<or> bs = [] \<and> hb_data b = None)"

definition raw_of :: "RawRequest \<Rightarrow> HgRequest \<Rightarrow> bool" where
  "raw_of raw input \<longleftrightarrow>
     rr_mode raw = rq_mode input \<and> holds_bytes (rr_eager raw) (rq_eager input) \<and>
     rr_bulk_size raw = rq_bulk_size input \<and> rr_bulk_handle raw = rq_bulk_handle input"

definition raw_reply_of :: "RawReply \<Rightarrow> HgReply \<Rightarrow> bool" where
  "raw_reply_of raw reply \<longleftrightarrow> rp_status raw = ry_status reply \<and> holds_bytes (rp_payload raw) (ry_payload reply)"

definition bytes_layout :: "'p HgWire \<Rightarrow> bytes \<Rightarrow> bytes" where
  "bytes_layout wire bs = lay_size wire (length bs) @ bs"

definition request_layout :: "'p HgWire \<Rightarrow> HgRequest \<Rightarrow> bytes" where
  "request_layout wire input =
     lay_int32 wire (rq_mode input) @ bytes_layout wire (rq_eager input) @ lay_size wire (rq_bulk_size input) @
     (case rq_bulk_handle input of None \<Rightarrow> [] | Some h \<Rightarrow> lay_bulk wire h)"

definition reply_layout :: "'p HgWire \<Rightarrow> HgReply \<Rightarrow> bytes" where
  "reply_layout wire reply = lay_int32 wire (ry_status reply) @ bytes_layout wire (ry_payload reply)"

text \<open>What a peer sends as the bulk handle in one of its requests, or none.\<close>

definition handle_of_mode :: "int \<Rightarrow> nat option \<Rightarrow> bool" where
  "handle_of_mode mode h \<longleftrightarrow>
     (case h of None \<Rightarrow> mode \<noteq> mode_code Bulk | Some h \<Rightarrow> mode = mode_code Bulk \<and> fits64 h)"

definition request_wf :: "HgRequest \<Rightarrow> bool" where
  "request_wf input \<longleftrightarrow>
     i32 (rq_mode input) \<and> fits64 (length (rq_eager input)) \<and> fits64 (rq_bulk_size input) \<and>
     handle_of_mode (rq_mode input) (rq_bulk_handle input)"

lemma encodesD:
  assumes "encodes hg wire f v bs" "pr_op hg p = HG_ENCODE" "f p = (HG_SUCCESS, v', p')"
  shows "v' = v" "pr_op hg p' = HG_ENCODE" "wi_written wire p' = wi_written wire p @ bs"
  using assms by (auto simp: encodes_def)

lemma decodesE:
  assumes "decodes hg wire f v bs" "pr_op hg p = HG_DECODE" "wi_rest wire p = bs @ suf"
  obtains p' where "f p = (HG_SUCCESS, v, p')" "pr_op hg p' = HG_DECODE" "wi_rest wire p' = suf"
  using assms by (auto simp: decodes_def)

lemma laws_encode:
  assumes "proc_laws hg wire"
  shows "i32 v \<Longrightarrow> encodes hg wire (pr_int32 hg v) v (lay_int32 wire v)"
    "fits64 n \<Longrightarrow> encodes hg wire (pr_size hg n) n (lay_size wire n)"
    "encodes hg wire (pr_raw hg bs) bs bs"
    "fits64 h \<Longrightarrow> encodes hg wire (pr_bulk hg (Some h)) (Some h) (lay_bulk wire h)"
  using assms by (simp_all add: proc_laws_def)

lemma laws_decode:
  assumes "proc_laws hg wire"
  shows "i32 v \<Longrightarrow> decodes hg wire (pr_int32 hg v0) v (lay_int32 wire v)"
    "fits64 n \<Longrightarrow> decodes hg wire (pr_size hg n0) n (lay_size wire n)"
    "length bs0 = length bs \<Longrightarrow> decodes hg wire (pr_raw hg bs0) bs bs"
    "fits64 h \<Longrightarrow> decodes hg wire (pr_bulk hg h0) (Some h) (lay_bulk wire h)"
  using assms by (simp_all add: proc_laws_def)

lemma proc_bytes_encodes:
  assumes "proc_laws hg wire" "fits64 (length bs)" "holds_bytes b bs"
  shows "encodes hg wire (proc_hg_bytes hg b) b (bytes_layout wire bs)"
  unfolding encodes_def
proof (intro allI impI)
  fix p b' p'
  assume op: "pr_op hg p = HG_ENCODE" and run: "proc_hg_bytes hg b p = (HG_SUCCESS, b', p')"
  have n64: "fits64 (hb_size b)" using assms(2,3) by (simp add: holds_bytes_def)
  obtain ret n p1 where size: "pr_size hg (hb_size b) p = (ret, n, p1)" by (cases "pr_size hg (hb_size b) p")
  then have "ret = HG_SUCCESS" using run by (auto simp: proc_hg_bytes_def Let_def split: if_splits)
  note n = encodesD [OF laws_encode(2) [OF assms(1) n64] op size [unfolded this]]
  have enc: "encode_bytes hg b p1 = (HG_SUCCESS, b', p')"
    using run size \<open>ret = HG_SUCCESS\<close> n(1,2) by (simp add: proc_hg_bytes_def)
  show "b' = b \<and> pr_op hg p' = HG_ENCODE \<and> wi_written wire p' = wi_written wire p @ bytes_layout wire bs"
  proof (cases "bs = []")
    case True
    then show ?thesis using enc n assms(3) by (auto simp: encode_bytes_def holds_bytes_def bytes_layout_def)
  next
    case False
    then have data: "hb_data b = Some bs" "hb_size b = length bs" using assms(3) by (auto simp: holds_bytes_def)
    obtain r d p2 where raw: "pr_raw hg bs p1 = (r, d, p2)" by (cases "pr_raw hg bs p1")
    then have e: "r = HG_SUCCESS" "b' = b" "p' = p2" using enc data False by (auto simp: encode_bytes_def)
    from encodesD [OF laws_encode(3) [OF assms(1)] n(2) raw [unfolded e(1)]] show ?thesis using e n(3) data by (simp add: bytes_layout_def)
  qed
qed

lemma proc_bytes_decodes:
  assumes "proc_laws hg wire" "\<forall>n. pr_malloc hg n" "fits64 (length bs)"
  shows "decodes hg wire (proc_hg_bytes hg b0) \<lparr>hb_size = length bs, hb_data = if bs = [] then None else Some bs\<rparr>
    (bytes_layout wire bs)"
  unfolding decodes_def
proof (intro allI impI)
  fix p suf
  assume op: "pr_op hg p = HG_DECODE" and rest: "wi_rest wire p = bytes_layout wire bs @ suf"
  let ?b = "\<lparr>hb_size = length bs, hb_data = if bs = [] then None else Some bs\<rparr>"
  obtain p1 where size: "pr_size hg (hb_size b0) p = (HG_SUCCESS, length bs, p1)" "pr_op hg p1 = HG_DECODE"
      "wi_rest wire p1 = bs @ suf"
    by (rule decodesE [OF laws_decode(2) [OF assms(1,3)] op]) (use rest in \<open>auto simp: bytes_layout_def\<close>)
  obtain p2 where "pr_raw hg (replicate (length bs) 0) p1 = (HG_SUCCESS, bs, p2)" "pr_op hg p2 = HG_DECODE"
      "wi_rest wire p2 = suf"
    by (rule decodesE [OF laws_decode(3) [OF assms(1) length_replicate] size(2,3)])
  then show "\<exists>p'. proc_hg_bytes hg b0 p = (HG_SUCCESS, ?b, p') \<and> pr_op hg p' = HG_DECODE \<and> wi_rest wire p' = suf"
    using size assms(2) by (cases "bs = []") (auto simp: proc_hg_bytes_def decode_bytes_def no_bytes_def)
qed

lemma proc_bulk_handle_encodes:
  assumes "proc_laws hg wire" "handle_of_mode (rr_mode raw) (rr_bulk_handle raw)"
  shows "encodes hg wire (proc_bulk_handle hg raw) raw (case rr_bulk_handle raw of None \<Rightarrow> [] | Some h \<Rightarrow> lay_bulk wire h)"
proof (cases "rr_bulk_handle raw")
  case None
  then show ?thesis using assms(2) by (auto simp: handle_of_mode_def encodes_def proc_bulk_handle_def)
next
  case (Some h)
  then have h: "rr_mode raw = mode_code Bulk" "fits64 h" using assms(2) by (simp_all add: handle_of_mode_def)
  have "pr_op hg p' = HG_ENCODE \<and> raw' = raw \<and> wi_written wire p' = wi_written wire p @ lay_bulk wire h"
    if op: "pr_op hg p = HG_ENCODE" and run: "proc_bulk_handle hg raw p = (HG_SUCCESS, raw', p')" for p raw' p'
  proof -
    obtain ret h' p1 where b: "pr_bulk hg (Some h) p = (ret, h', p1)" by (cases "pr_bulk hg (Some h) p")
    then have e: "ret = HG_SUCCESS" "raw' = raw\<lparr>rr_bulk_handle := h'\<rparr>" "p' = p1"
      using run Some h(1) by (auto simp: proc_bulk_handle_def)
    show ?thesis using encodesD [OF laws_encode(4) [OF assms(1) h(2)] op b [unfolded e(1)]] e Some by (cases raw) simp
  qed
  then show ?thesis using Some by (auto simp: encodes_def)
qed

lemma proc_bulk_handle_decodes:
  assumes "proc_laws hg wire" "handle_of_mode (rr_mode raw) h"
  shows "decodes hg wire (proc_bulk_handle hg raw) (raw\<lparr>rr_bulk_handle := h\<rparr>)
    (case h of None \<Rightarrow> [] | Some h \<Rightarrow> lay_bulk wire h)"
proof (cases h)
  case None
  then show ?thesis using assms(2) by (auto simp: handle_of_mode_def decodes_def proc_bulk_handle_def)
next
  case (Some h')
  then have h: "rr_mode raw = mode_code Bulk" "fits64 h'" using assms(2) by (simp_all add: handle_of_mode_def)
  have "decodes hg wire (pr_bulk hg (rr_bulk_handle raw)) (Some h') (lay_bulk wire h')" by (rule laws_decode(4) [OF assms(1) h(2)])
  then show ?thesis using Some h(1) unfolding decodes_def by (fastforce simp: proc_bulk_handle_def)
qed

text \<open>Once it succeeds, the encoder has written the layout of the request, and the decoder takes a request with the
  same contents off that layout, whatever stood in the struct before.\<close>

lemma proc_request_encodes:
  assumes "proc_laws hg wire" "raw_of raw input" "request_wf input"
  shows "encodes hg wire (proc_hg_request hg raw) raw (request_layout wire input)"
  unfolding encodes_def
proof (intro allI impI)
  fix p raw' p'
  assume op: "pr_op hg p = HG_ENCODE" and run: "proc_hg_request hg raw p = (HG_SUCCESS, raw', p')"
  have fits: "i32 (rr_mode raw)" "fits64 (length (rq_eager input))" "fits64 (rr_bulk_size raw)"
    and wf: "handle_of_mode (rr_mode raw) (rr_bulk_handle raw)"
    using assms(2,3) by (simp_all add: raw_of_def request_wf_def)
  have held: "holds_bytes (rr_eager raw) (rq_eager input)" using assms(2) by (simp add: raw_of_def)
  obtain r1 mode p1 where m: "pr_int32 hg (rr_mode raw) p = (r1, mode, p1)" by (cases "pr_int32 hg (rr_mode raw) p")
  then have r1: "r1 = HG_SUCCESS" using run by (auto simp: proc_hg_request_def Let_def split: if_splits)
  note e1 = encodesD [OF laws_encode(1) [OF assms(1) fits(1)] op m [unfolded r1]]
  obtain r2 b p2 where b: "proc_hg_bytes hg (rr_eager raw) p1 = (r2, b, p2)" by (cases "proc_hg_bytes hg (rr_eager raw) p1")
  then have r2: "r2 = HG_SUCCESS" using run m r1 by (auto simp: proc_hg_request_def Let_def split: if_splits)
  note e2 = encodesD [OF proc_bytes_encodes [OF assms(1) fits(2) held] e1(2) b [unfolded r2]]
  obtain r3 n p3 where s: "pr_size hg (rr_bulk_size raw) p2 = (r3, n, p3)" by (cases "pr_size hg (rr_bulk_size raw) p2")
  then have r3: "r3 = HG_SUCCESS" using run m r1 b r2 by (auto simp: proc_hg_request_def Let_def split: if_splits)
  note e3 = encodesD [OF laws_encode(2) [OF assms(1) fits(3)] e2(2) s [unfolded r3]]
  have same: "raw\<lparr>rr_mode := mode, rr_eager := b, rr_bulk_size := n\<rparr> = raw" using e1(1) e2(1) e3(1) by simp
  have last: "proc_bulk_handle hg raw p3 = (HG_SUCCESS, raw', p')"
    using run m r1 b r2 s r3 same by (simp add: proc_hg_request_def Let_def)
  note e4 = encodesD [OF proc_bulk_handle_encodes [OF assms(1) wf] e3(2) last]
  show "raw' = raw \<and> pr_op hg p' = HG_ENCODE \<and> wi_written wire p' = wi_written wire p @ request_layout wire input"
    using e4 e3(3) e2(3) e1(3) assms(2) by (simp add: request_layout_def raw_of_def)
qed

lemma proc_request_decodes:
  assumes "proc_laws hg wire" "\<forall>n. pr_malloc hg n" "request_wf input"
  shows "\<exists>raw. raw_of raw input \<and> decodes hg wire (proc_hg_request hg raw0) raw (request_layout wire input)"
proof (intro exI conjI)
  let ?b = "\<lparr>hb_size = length (rq_eager input), hb_data = if rq_eager input = [] then None else Some (rq_eager input)\<rparr>"
  let ?raw3 = "raw0\<lparr>rr_mode := rq_mode input, rr_eager := ?b, rr_bulk_size := rq_bulk_size input\<rparr>"
  let ?raw = "?raw3\<lparr>rr_bulk_handle := rq_bulk_handle input\<rparr>"
  show "raw_of ?raw input" by (simp add: raw_of_def holds_bytes_def)
  have fits: "i32 (rq_mode input)" "fits64 (length (rq_eager input))" "fits64 (rq_bulk_size input)"
    and wf: "handle_of_mode (rr_mode ?raw3) (rq_bulk_handle input)"
    using assms(3) by (simp_all add: request_wf_def)
  have "\<exists>p'. proc_hg_request hg raw0 p = (HG_SUCCESS, ?raw, p') \<and> pr_op hg p' = HG_DECODE \<and> wi_rest wire p' = suf"
    if op: "pr_op hg p = HG_DECODE" and rest: "wi_rest wire p = request_layout wire input @ suf" for p suf
  proof -
    note rest' = rest [unfolded request_layout_def append_assoc]
    obtain p1 where 1: "pr_int32 hg (rr_mode raw0) p = (HG_SUCCESS, rq_mode input, p1)" "pr_op hg p1 = HG_DECODE"
      and rest1: "wi_rest wire p1 = bytes_layout wire (rq_eager input) @ lay_size wire (rq_bulk_size input) @
        (case rq_bulk_handle input of None \<Rightarrow> [] | Some h \<Rightarrow> lay_bulk wire h) @ suf"
      by (rule decodesE [OF laws_decode(1) [OF assms(1) fits(1)] op rest'])
    obtain p2 where 2: "proc_hg_bytes hg (rr_eager raw0) p1 = (HG_SUCCESS, ?b, p2)" "pr_op hg p2 = HG_DECODE"
      and rest2: "wi_rest wire p2 = lay_size wire (rq_bulk_size input) @
        (case rq_bulk_handle input of None \<Rightarrow> [] | Some h \<Rightarrow> lay_bulk wire h) @ suf"
      by (rule decodesE [OF proc_bytes_decodes [OF assms(1,2) fits(2)] 1(2) rest1])
    obtain p3 where 3: "pr_size hg (rr_bulk_size raw0) p2 = (HG_SUCCESS, rq_bulk_size input, p3)" "pr_op hg p3 = HG_DECODE"
      and rest3: "wi_rest wire p3 = (case rq_bulk_handle input of None \<Rightarrow> [] | Some h \<Rightarrow> lay_bulk wire h) @ suf"
      by (rule decodesE [OF laws_decode(2) [OF assms(1) fits(3)] 2(2) rest2])
    obtain p4 where 4: "proc_bulk_handle hg ?raw3 p3 = (HG_SUCCESS, ?raw, p4)" "pr_op hg p4 = HG_DECODE"
      and rest4: "wi_rest wire p4 = suf"
      by (rule decodesE [OF proc_bulk_handle_decodes [OF assms(1) wf] 3(2) rest3])
    show ?thesis using 1(1) 2(1) 3(1) 4 rest4 by (simp add: proc_hg_request_def Let_def)
  qed
  then show "decodes hg wire (proc_hg_request hg raw0) ?raw (request_layout wire input)" by (simp add: decodes_def)
qed

lemma proc_reply_encodes:
  assumes "proc_laws hg wire" "raw_reply_of raw reply" "i32 (ry_status reply)" "fits64 (length (ry_payload reply))"
  shows "encodes hg wire (proc_hg_reply hg raw) raw (reply_layout wire reply)"
  unfolding encodes_def
proof (intro allI impI)
  fix p raw' p'
  assume op: "pr_op hg p = HG_ENCODE" and run: "proc_hg_reply hg raw p = (HG_SUCCESS, raw', p')"
  have raw: "i32 (rp_status raw)" "holds_bytes (rp_payload raw) (ry_payload reply)" "rp_status raw = ry_status reply"
    using assms(2,3) by (simp_all add: raw_reply_of_def)
  obtain r1 status p1 where s: "pr_int32 hg (rp_status raw) p = (r1, status, p1)" by (cases "pr_int32 hg (rp_status raw) p")
  then have r1: "r1 = HG_SUCCESS" using run by (auto simp: proc_hg_reply_def split: if_splits)
  note e1 = encodesD [OF laws_encode(1) [OF assms(1) raw(1)] op s [unfolded r1]]
  obtain r2 b p2 where b: "proc_hg_bytes hg (rp_payload raw) p1 = (r2, b, p2)" by (cases "proc_hg_bytes hg (rp_payload raw) p1")
  then have r2: "r2 = HG_SUCCESS" "raw' = \<lparr>rp_status = status, rp_payload = b\<rparr>" "p' = p2"
    using run s r1 by (auto simp: proc_hg_reply_def)
  note e2 = encodesD [OF proc_bytes_encodes [OF assms(1,4) raw(2)] e1(2) b [unfolded r2(1)]]
  show "raw' = raw \<and> pr_op hg p' = HG_ENCODE \<and> wi_written wire p' = wi_written wire p @ reply_layout wire reply"
    using e1(1,3) e2 r2 raw(3) by (simp add: reply_layout_def)
qed

lemma proc_reply_decodes:
  assumes "proc_laws hg wire" "\<forall>n. pr_malloc hg n" "i32 (ry_status reply)" "fits64 (length (ry_payload reply))"
  shows "\<exists>raw. raw_reply_of raw reply \<and> decodes hg wire (proc_hg_reply hg raw0) raw (reply_layout wire reply)"
proof (intro exI conjI)
  let ?b = "\<lparr>hb_size = length (ry_payload reply), hb_data = if ry_payload reply = [] then None else Some (ry_payload reply)\<rparr>"
  let ?raw = "\<lparr>rp_status = ry_status reply, rp_payload = ?b\<rparr>"
  show "raw_reply_of ?raw reply" by (simp add: raw_reply_of_def holds_bytes_def)
  have "\<exists>p'. proc_hg_reply hg raw0 p = (HG_SUCCESS, ?raw, p') \<and> pr_op hg p' = HG_DECODE \<and> wi_rest wire p' = suf"
    if op: "pr_op hg p = HG_DECODE" and rest: "wi_rest wire p = reply_layout wire reply @ suf" for p suf
  proof -
    obtain p1 where 1: "pr_int32 hg (rp_status raw0) p = (HG_SUCCESS, ry_status reply, p1)" "pr_op hg p1 = HG_DECODE"
      and rest1: "wi_rest wire p1 = bytes_layout wire (ry_payload reply) @ suf"
      by (rule decodesE [OF laws_decode(1) [OF assms(1,3)] op rest [unfolded reply_layout_def append_assoc]])
    obtain p2 where 2: "proc_hg_bytes hg (rp_payload raw0) p1 = (HG_SUCCESS, ?b, p2)" "pr_op hg p2 = HG_DECODE"
      and rest2: "wi_rest wire p2 = suf"
      by (rule decodesE [OF proc_bytes_decodes [OF assms(1,2,4)] 1(2) rest1])
    show ?thesis using 1(1) 2 rest2 by (simp add: proc_hg_reply_def)
  qed
  then show "decodes hg wire (proc_hg_reply hg raw0) ?raw (reply_layout wire reply)" by (simp add: decodes_def)
qed

lemma crosses:
  assumes "encodes hg wire f v bs" "decodes hg wire g v' bs" "pr_op hg p = HG_ENCODE" "wi_written wire p = []"
    and "f p = (HG_SUCCESS, w, p')" "pr_op hg q = HG_DECODE" "wi_rest wire q = wi_written wire p'"
  obtains q' where "g q = (HG_SUCCESS, v', q')" "wi_rest wire q' = []"
proof -
  have "wi_rest wire q = bs @ []" using encodesD(3) [OF assms(1,3,5)] assms(4,7) by simp
  then show ?thesis using decodesE [OF assms(2,6)] that by blast
qed

text \<open>A request that the client has serialised, and a reply of the server, arrive with the contents they were sent with.\<close>

theorem request_crosses_mercury:
  assumes "proc_laws hg wire" "\<forall>n. pr_malloc hg n" "request_wf input" "raw_of raw input"
    and "pr_op hg p = HG_ENCODE" "wi_written wire p = []" "proc_hg_request hg raw p = (HG_SUCCESS, w, p')"
    and "pr_op hg q = HG_DECODE" "wi_rest wire q = wi_written wire p'"
  shows "\<exists>raw' q'. proc_hg_request hg raw0 q = (HG_SUCCESS, raw', q') \<and> raw_of raw' input \<and> wi_rest wire q' = []"
proof -
  obtain raw' where raw': "raw_of raw' input" "decodes hg wire (proc_hg_request hg raw0) raw' (request_layout wire input)"
    using proc_request_decodes [OF assms(1-3)] by blast
  show ?thesis by (rule crosses [OF proc_request_encodes [OF assms(1,4,3)] raw'(2) assms(5-9)]) (use raw'(1) in blast)
qed

theorem reply_crosses_mercury:
  assumes "proc_laws hg wire" "\<forall>n. pr_malloc hg n" "i32 (ry_status reply)" "fits64 (length (ry_payload reply))"
    and "raw_reply_of raw reply"
    and "pr_op hg p = HG_ENCODE" "wi_written wire p = []" "proc_hg_reply hg raw p = (HG_SUCCESS, w, p')"
    and "pr_op hg q = HG_DECODE" "wi_rest wire q = wi_written wire p'"
  shows "\<exists>raw' q'. proc_hg_reply hg raw0 q = (HG_SUCCESS, raw', q') \<and> raw_reply_of raw' reply \<and> wi_rest wire q' = []"
proof -
  obtain raw' where raw': "raw_reply_of raw' reply" "decodes hg wire (proc_hg_reply hg raw0) raw' (reply_layout wire reply)"
    using proc_reply_decodes [OF assms(1-4)] by blast
  show ?thesis by (rule crosses [OF proc_reply_encodes [OF assms(1,5,3,4)] raw'(2) assms(6-10)]) (use raw'(1) in blast)
qed

text \<open>Every request that \<^verbatim>\<open>forward\<close> builds is one of those.\<close>

lemma forwarded_request_wf:
  assumes "fits64 (length payload)" "pred_option fits64 bulk"
  shows "request_wf (make_input payload bulk)"
  using assms by (cases bulk) (simp_all add: make_input_def request_wf_def handle_of_mode_def i32_def fits64_def)

section \<open>An instance of the primitives\<close>

primrec le_bytes :: "nat \<Rightarrow> nat \<Rightarrow> bytes" where
  "le_bytes 0 n = []"
| "le_bytes (Suc k) n = word_of_nat n # le_bytes k (n div 256)"

primrec le_value :: "bytes \<Rightarrow> nat" where
  "le_value [] = 0"
| "le_value (b # bs) = unat b + 256 * le_value bs"

lemma le_bytes_length [simp]: "length (le_bytes k n) = k"
  by (induction k arbitrary: n) simp_all

lemma le_value_bytes: "n < 256 ^ k \<Longrightarrow> le_value (le_bytes k n) = n"
  by (induction k arbitrary: n) (simp_all add: unat_of_nat less_mult_imp_div_less mult.commute)

text \<open>A processor over one buffer: little-endian integers, taken off the front when it decodes.\<close>

type_synonym buffer_proc = "HgOp \<times> bytes"

definition buffer_step :: "(bytes \<Rightarrow> 'v) \<Rightarrow> ('v \<Rightarrow> bytes) \<Rightarrow> nat \<Rightarrow> 'v \<Rightarrow> buffer_proc \<Rightarrow> hg_return \<times> 'v \<times> buffer_proc" where
  "buffer_step dec enc k v = (\<lambda>(op, bs).
     case op of
       HG_ENCODE \<Rightarrow> (HG_SUCCESS, v, (op, bs @ enc v))
     | HG_DECODE \<Rightarrow> if length bs < k then (HG_OVERFLOW, v, (op, bs)) else (HG_SUCCESS, dec (take k bs), (op, drop k bs))
     | _ \<Rightarrow> (HG_SUCCESS, v, (op, bs)))"

definition buffer_hg :: "buffer_proc HgProc" where
  "buffer_hg =
     \<lparr>pr_op = fst, pr_int32 = buffer_step (\<lambda>bs. cast_i32 (int (le_value bs))) (\<lambda>v. le_bytes 4 (nat (v mod 2 ^ 32))) 4,
      pr_size = buffer_step le_value (le_bytes 8) 8, pr_raw = (\<lambda>bs. buffer_step id id (length bs) bs),
      pr_bulk = buffer_step (\<lambda>bs. Some (le_value bs)) (\<lambda>h. le_bytes 8 (the h)) 8, pr_malloc = (\<lambda>_. True)\<rparr>"

definition buffer_wire :: "buffer_proc HgWire" where
  "buffer_wire =
     \<lparr>lay_int32 = (\<lambda>v. le_bytes 4 (nat (v mod 2 ^ 32))), lay_size = le_bytes 8, lay_bulk = le_bytes 8,
      wi_written = snd, wi_rest = snd\<rparr>"

lemma buffer_step_encodes: "encodes buffer_hg buffer_wire (buffer_step dec enc k v) v (enc v)"
  by (auto simp: encodes_def buffer_step_def buffer_hg_def buffer_wire_def)

lemma buffer_step_decodes:
  assumes "length bs = k" "dec bs = v"
  shows "decodes buffer_hg buffer_wire (buffer_step dec enc k v0) v bs"
  using assms by (auto simp: decodes_def buffer_step_def buffer_hg_def buffer_wire_def)

lemma le_int32:
  assumes "i32 v"
  shows "cast_i32 (int (le_value (le_bytes 4 (nat (v mod 2 ^ 32))))) = v"
proof -
  have "(word_of_int (v mod 2 ^ 32) :: 32 word) = word_of_int v"
    by transfer (simp add: take_bit_eq_mod)
  then have "cast_i32 (v mod 2 ^ 32) = v" using assms cast_i32_id [of v] by (simp add: cast_i32_def)
  then show ?thesis by (subst le_value_bytes) (simp_all add: nat_less_iff)
qed

lemma buffer_laws: "proc_laws buffer_hg buffer_wire"
proof -
  have lay: "lay_int32 buffer_wire = (\<lambda>v. le_bytes 4 (nat (v mod 2 ^ 32)))" "lay_size buffer_wire = le_bytes 8"
    "lay_bulk buffer_wire = le_bytes 8"
    by (simp_all add: buffer_wire_def)
  have prim: "pr_int32 buffer_hg = buffer_step (\<lambda>bs. cast_i32 (int (le_value bs))) (\<lambda>v. le_bytes 4 (nat (v mod 2 ^ 32))) 4"
    "pr_size buffer_hg = buffer_step le_value (le_bytes 8) 8"
    "pr_raw buffer_hg = (\<lambda>bs. buffer_step id id (length bs) bs)"
    "pr_bulk buffer_hg = buffer_step (\<lambda>bs. Some (le_value bs)) (\<lambda>h. le_bytes 8 (the h)) 8"
    by (simp_all add: buffer_hg_def)
  have value8: "le_value (le_bytes 8 n) = n" if "fits64 n" for n using that by (simp add: fits64_def le_value_bytes)
  have "encodes buffer_hg buffer_wire (pr_bulk buffer_hg (Some h)) (Some h) (lay_bulk buffer_wire h)" for h
    using buffer_step_encodes [of "\<lambda>bs. Some (le_value bs)" "\<lambda>h. le_bytes 8 (the h)" 8 "Some h"] by (simp add: lay prim)
  moreover have "encodes buffer_hg buffer_wire (pr_raw buffer_hg bs) bs bs" for bs
    using buffer_step_encodes [of id id "length bs" bs] by (simp add: prim)
  moreover have "encodes buffer_hg buffer_wire (pr_int32 buffer_hg v) v (lay_int32 buffer_wire v)"
    "encodes buffer_hg buffer_wire (pr_size buffer_hg n) n (lay_size buffer_wire n)" for v n
    unfolding lay prim by (rule buffer_step_encodes)+
  moreover have "decodes buffer_hg buffer_wire (pr_int32 buffer_hg v0) v (lay_int32 buffer_wire v)" if "i32 v" for v v0
    unfolding lay prim by (rule buffer_step_decodes) (simp_all only: le_bytes_length le_int32 [OF that])
  moreover have "decodes buffer_hg buffer_wire (pr_size buffer_hg n0) n (lay_size buffer_wire n)"
    "decodes buffer_hg buffer_wire (pr_bulk buffer_hg h0) (Some n) (lay_bulk buffer_wire n)" if "fits64 n" for n n0 h0
    unfolding lay prim by (rule buffer_step_decodes, simp_all only: le_bytes_length value8 [OF that])+
  moreover have "decodes buffer_hg buffer_wire (pr_raw buffer_hg bs0) bs bs" if "length bs0 = length bs" for bs bs0
    unfolding prim by (rule buffer_step_decodes) (simp_all add: that)
  ultimately show ?thesis unfolding proc_laws_def by blast
qed

theorem request_crosses_mercury_witness:
  "\<exists>w p' raw' q'. proc_hg_request buffer_hg \<lparr>rr_mode = 0, rr_eager = \<lparr>hb_size = 2, hb_data = Some [7, 9]\<rparr>, rr_bulk_size = 0,
       rr_bulk_handle = None\<rparr> (HG_ENCODE, []) = (HG_SUCCESS, w, p') \<and>
     proc_hg_request buffer_hg \<lparr>rr_mode = 0, rr_eager = no_bytes, rr_bulk_size = 0, rr_bulk_handle = None\<rparr>
       (HG_DECODE, snd p') = (HG_SUCCESS, raw', q') \<and> raw_of raw' (make_input [7, 9] None) \<and> snd q' = []"
proof -
  let ?raw = "\<lparr>rr_mode = 0, rr_eager = \<lparr>hb_size = 2, hb_data = Some [7, 9]\<rparr>, rr_bulk_size = 0, rr_bulk_handle = None\<rparr>"
  let ?blank = "\<lparr>rr_mode = 0, rr_eager = no_bytes, rr_bulk_size = 0, rr_bulk_handle = None\<rparr>"
  have run: "\<exists>w p'. proc_hg_request buffer_hg ?raw (HG_ENCODE, []) = (HG_SUCCESS, w, p')"
    by (simp add: proc_hg_request_def proc_hg_bytes_def encode_bytes_def proc_bulk_handle_def buffer_hg_def
        buffer_step_def Let_def)
  then obtain w p' where e: "proc_hg_request buffer_hg ?raw (HG_ENCODE, []) = (HG_SUCCESS, w, p')" by blast
  have v: "pr_op buffer_hg (op, bs) = op" "wi_written buffer_wire = snd" "wi_rest buffer_wire = snd" "\<forall>n. pr_malloc buffer_hg n"
    for op bs by (simp_all add: buffer_hg_def buffer_wire_def)
  have wf: "request_wf (make_input [7, 9] None)" "raw_of ?raw (make_input [7, 9] None)"
    by (rule forwarded_request_wf) (simp_all add: fits64_def raw_of_def make_input_def holds_bytes_def)
  have "\<exists>raw' q'. proc_hg_request buffer_hg ?blank (HG_DECODE, snd p') = (HG_SUCCESS, raw', q') \<and>
      raw_of raw' (make_input [7, 9] None) \<and> wi_rest buffer_wire q' = []"
    by (rule request_crosses_mercury [OF buffer_laws v(4) wf v(1) _ e v(1)]) (simp_all add: v(2,3))
  with e show ?thesis unfolding v(3) by blast
qed

end
