(* ===== verification/Broker_Main.thy ===== *)
theory Broker_Main
  imports Broker_Lifecycle
begin

text \<open>The broker process (\<^verbatim>\<open>main.cpp\<close>): the signals it waits for, the start of its shards, the loop that reloads the
  configuration on \<^verbatim>\<open>SIGHUP\<close> and ends on \<^verbatim>\<open>SIGINT\<close> and \<^verbatim>\<open>SIGTERM\<close>, and the cleanup. What the signals are and what the
  shards serve while the process waits are arguments, as are the file, Mercury, the sockets and the metrics server.\<close>

section \<open>Signals\<close>

datatype Event = Stop | Reload

record StopSignal =
  sg_pending :: "Event option"

definition stop_signal :: StopSignal where
  "stop_signal = \<lparr>sg_pending = None\<rparr>"

definition signaled :: "Event \<Rightarrow> StopSignal \<Rightarrow> StopSignal" where
  "signaled event sig = sig\<lparr>sg_pending := Some event\<rparr>"

text \<open>\<open>None\<close>: nothing is pending and the caller goes on waiting.\<close>

definition wait_signal :: "StopSignal \<Rightarrow> (Event \<times> StopSignal) option" where
  "wait_signal sig = (case sg_pending sig of None \<Rightarrow> None | Some event \<Rightarrow> Some (event, sig\<lparr>sg_pending := None\<rparr>))"

section \<open>The shards of the process\<close>

definition default_broker_config :: BrokerConfig where
  "default_broker_config =
     \<lparr>bc_node_id = 0, bc_cluster_generation = 0, bc_data_dir = ''mkmq-data'', bc_metrics_port = 9642,
      bc_fetch_max_wait_ms_cap = 100, bc_produce_wait_ms_cap = 100, bc_segment_bytes = 1024 * 1024 * 1024,
      bc_brokers = [], bc_topics = []\<rparr>"

definition new_broker_shard :: "disk \<Rightarrow> BrokerShard" where
  "new_broker_shard d =
     \<lparr>bs_config = default_broker_config, bs_table = empty_table, bs_disk = d, bs_stopping = False,
      bs_listening = False, bs_timer_armed = False, bs_gate_closed = False, bs_mercury_running = False,
      bs_kafka_requests = 0, bs_kafka_errors = 0, bs_produce_errors = 0, bs_fetch_errors = 0,
      bs_replica_appends = 0, bs_replica_errors = 0, bs_health_checks = 0, bs_health_failures = 0,
      bs_catchup_attempts = 0, bs_catchup_errors = 0, bs_catchup_records = 0\<rparr>"

text \<open>\<^verbatim>\<open>sharded::invoke_on_all\<close>: the call runs on every shard, and its future fails when one of them fails.\<close>

definition invoke_on_all ::
    "(nat \<Rightarrow> BrokerShard \<Rightarrow> unit result \<times> BrokerShard) \<Rightarrow> BrokerShard list \<Rightarrow> unit result \<times> BrokerShard list" where
  "invoke_on_all f shards =
     (let runs = map2 f [0..<length shards] shards in (when_all_succeed (map fst runs), map snd runs))"

section \<open>The main loop\<close>

text \<open>What the process meets from outside: \<open>env_load k\<close> is what \<^verbatim>\<open>load_config_file\<close> gives the \<open>k\<close>-th time, \<open>env_serve k\<close> what
  the shards do before the process wakes up for the \<open>k\<close>-th time.\<close>

record environment =
  env_dma :: nat
  env_load :: "nat \<Rightarrow> BrokerConfig result"
  env_serve :: "nat \<Rightarrow> BrokerShard list \<Rightarrow> BrokerShard list"
  env_mercury :: "nat \<Rightarrow> string \<Rightarrow> unit result"
  env_listen :: "nat \<Rightarrow> string \<Rightarrow> nat \<Rightarrow> unit result"
  env_metrics :: "nat \<Rightarrow> unit result"

text \<open>The loop over the bursts of signals that arrive between two resumptions of the thread. \<open>None\<close>: it still waits.\<close>

fun main_loop ::
    "environment \<Rightarrow> nat \<Rightarrow> Event list list \<Rightarrow> StopSignal \<Rightarrow> BrokerConfig \<times> BrokerShard list \<Rightarrow>
     unit result option \<times> BrokerConfig \<times> BrokerShard list" where
  "main_loop env k [] sig (config, shards) = (None, config, shards)"
| "main_loop env k (burst # bursts) sig (config, shards) =
     (let sig1 = fold signaled burst sig; shards1 = env_serve env k shards
      in case wait_signal sig1 of
           None \<Rightarrow> main_loop env k bursts sig1 (config, shards1)
         | Some (Stop, sig2) \<Rightarrow> (Some (Inr ()), config, shards1)
         | Some (Reload, sig2) \<Rightarrow>
             (case env_load env k of
                Inl e \<Rightarrow> (Some (Inl e), config, shards1)
              | Inr updated \<Rightarrow>
                  (case invoke_on_all (\<lambda>i. apply_config (env_dma env) i updated) shards1 of
                     (Inl e, shards2) \<Rightarrow> (Some (Inl e), config, shards2)
                   | (Inr _, shards2) \<Rightarrow> main_loop env (Suc k) bursts sig2 (updated, shards2))))"

definition start_shards :: "environment \<Rightarrow> BrokerConfig \<Rightarrow> disk list \<Rightarrow> unit result \<times> BrokerShard list" where
  "start_shards env config disks =
     invoke_on_all (\<lambda>i. start_broker (env_dma env) (env_mercury env i) (env_listen env i) i config)
       (map new_broker_shard disks)"

text \<open>The thread once the shards have been started, with \<open>started\<close> what that gave: the metrics server, the loop, and the
  deferred cleanup, which stops the shards whatever ended the thread.\<close>

definition run_node ::
    "environment \<Rightarrow> BrokerConfig \<Rightarrow> Event list list \<Rightarrow> unit result \<times> BrokerShard list \<Rightarrow>
     unit result option \<times> BrokerConfig \<times> BrokerShard list" where
  "run_node env config bursts = (\<lambda>(started, shards).
     case rbind started (\<lambda>_. env_metrics env (bc_metrics_port config)) of
       Inl e \<Rightarrow> (Some (Inl e), config, map stop_broker shards)
     | Inr _ \<Rightarrow>
         (case main_loop env 1 bursts stop_signal (config, shards) of
            (None, config1, shards1) \<Rightarrow> (None, config1, shards1)
          | (Some r, config1, shards1) \<Rightarrow> (Some r, config1, map stop_broker shards1)))"

definition broker_main ::
    "environment \<Rightarrow> bool \<Rightarrow> disk list \<Rightarrow> Event list list \<Rightarrow> unit result option \<times> BrokerConfig \<times> BrokerShard list" where
  "broker_main env config_given disks bursts =
     (if \<not> config_given then (Some (Inl (RuntimeError ''--config is required'')), default_broker_config, [])
      else case env_load env 0 of
        Inl e \<Rightarrow> (Some (Inl e), default_broker_config, [])
      | Inr config \<Rightarrow>
          if find_broker config (bc_node_id config) = None
          then (Some (Inl (RuntimeError ''configured node_id is missing from brokers'')), config, [])
          else run_node env config bursts (start_shards env config disks))"

section \<open>The shards agree on the configuration\<close>

definition node_in_order :: "BrokerConfig \<Rightarrow> BrokerShard list \<Rightarrow> bool" where
  "node_in_order config shards \<longleftrightarrow> (\<forall>sh\<in>set shards. shard_ok sh \<and> bs_config sh = config)"

definition stopped :: "BrokerShard \<Rightarrow> bool" where
  "stopped sh \<longleftrightarrow> bs_stopping sh \<and> bs_gate_closed sh \<and> \<not> bs_listening sh \<and> \<not> bs_timer_armed sh \<and> \<not> bs_mercury_running sh"

text \<open>What serving requests keeps: the number of shards, their order and their configuration.\<close>

definition serves :: "(nat \<Rightarrow> BrokerShard list \<Rightarrow> BrokerShard list) \<Rightarrow> bool" where
  "serves serve \<longleftrightarrow>
     (\<forall>k config shards. node_in_order config shards \<longrightarrow>
        length (serve k shards) = length shards \<and> node_in_order config (serve k shards))"

lemma invoke_on_all_success:
  assumes "invoke_on_all f shards = (Inr (), shards')"
  shows "length shards' = length shards" "i < length shards \<Longrightarrow> f i (shards ! i) = (Inr (), shards' ! i)"
proof -
  show "length shards' = length shards" using assms by (auto simp: invoke_on_all_def Let_def)
  assume i: "i < length shards"
  have "\<forall>r\<in>set (map fst (map2 f [0..<length shards] shards)). r = Inr ()"
    using assms by (auto simp: invoke_on_all_def Let_def when_all_succeed_def foldR_unit_iff)
  then have "fst (f i (shards ! i)) = Inr ()" using i by (force simp: set_zip)
  moreover have "snd (f i (shards ! i)) = shards' ! i" using assms i by (auto simp: invoke_on_all_def Let_def)
  ultimately show "f i (shards ! i) = (Inr (), shards' ! i)" by (simp add: prod_eq_iff)
qed

lemma started_node:
  assumes "start_shards env config disks = (Inr (), shards)"
  shows "node_in_order config shards \<and> length shards = length disks"
proof -
  note run = invoke_on_all_success [OF assms [unfolded start_shards_def]]
  have "shard_ok (shards ! i) \<and> bs_config (shards ! i) = config" if "i < length shards" for i
    using started_shard [OF run(2) [of i]] that run(1) by (simp add: new_broker_shard_def)
  then show ?thesis using run(1) by (auto simp: node_in_order_def in_set_conv_nth)
qed

lemma reloaded_node:
  assumes "invoke_on_all (\<lambda>i. apply_config dma i updated) shards = (Inr (), shards')" "node_in_order config shards"
  shows "node_in_order updated shards' \<and> length shards' = length shards"
proof -
  note run = invoke_on_all_success [OF assms(1)]
  have "shard_ok (shards' ! i) \<and> bs_config (shards' ! i) = updated" if "i < length shards" for i
    using reloaded_shard [OF run(2) [OF that]] assms(2) that by (simp add: node_in_order_def)
  then show ?thesis using run(1) by (auto simp: node_in_order_def in_set_conv_nth)
qed

lemma main_loop_keeps_order:
  assumes "serves (env_serve env)" "node_in_order config shards"
    and "main_loop env k bursts sig (config, shards) = (None, config', shards')"
  shows "node_in_order config' shards' \<and> length shards' = length shards"
  using assms(2,3)
proof (induction bursts arbitrary: k sig config shards)
  case Nil
  then show ?case by simp
next
  case (Cons burst bursts)
  let ?sig = "fold signaled burst sig" and ?shards = "env_serve env k shards"
  have served: "length ?shards = length shards" "node_in_order config ?shards"
    using assms(1) Cons.prems(1) by (simp_all add: serves_def)
  show ?case
  proof (cases "wait_signal ?sig")
    case None
    then show ?thesis using Cons.IH [OF served(2)] Cons.prems(2) served(1) by simp
  next
    case (Some woken)
    then obtain event sig2 where w: "wait_signal ?sig = Some (event, sig2)" by (cases woken) simp
    then have event: "event = Reload" using Cons.prems(2) by (cases event) simp_all
    then obtain updated where l: "env_load env k = Inr updated"
      using Cons.prems(2) w by (cases "env_load env k") simp_all
    obtain r shards2 where inv: "invoke_on_all (\<lambda>i. apply_config (env_dma env) i updated) ?shards = (r, shards2)"
      by (cases "invoke_on_all (\<lambda>i. apply_config (env_dma env) i updated) ?shards")
    then have r: "r = Inr ()" using Cons.prems(2) w l event by (cases r) simp_all
    then have "main_loop env (Suc k) bursts sig2 (updated, shards2) = (None, config', shards')"
      using Cons.prems(2) w l event inv by simp
    then show ?thesis using Cons.IH reloaded_node [OF inv [unfolded r] served(2)] served(1) by fastforce
  qed
qed

lemma stop_broker_stopped [simp]: "stopped (stop_broker sh)"
  by (simp add: stopped_def stop_broker_def)

lemma run_node_order:
  assumes "serves (env_serve env)" "started = Inr () \<longrightarrow> node_in_order config0 shards0"
    and "run_node env config0 bursts (started, shards0) = (outcome, config, shards)"
  shows "if outcome = None then length shards = length shards0 \<and> node_in_order config shards else list_all stopped shards"
proof (cases "rbind started (\<lambda>_. env_metrics env (bc_metrics_port config0))")
  case (Inl e)
  then show ?thesis using assms(3) by (auto simp: run_node_def list_all_iff)
next
  case (Inr u)
  then have order: "node_in_order config0 shards0" using assms(2) by (cases started) simp_all
  obtain r config1 shards1 where loop: "main_loop env 1 bursts stop_signal (config0, shards0) = (r, config1, shards1)"
    by (cases "main_loop env 1 bursts stop_signal (config0, shards0)")
  show ?thesis
    using assms(3) Inr loop main_loop_keeps_order [OF assms(1) order, of 1 bursts stop_signal]
    by (cases r) (auto simp: run_node_def list_all_iff)
qed


section \<open>Lost and fatal signals\<close>

lemma signaled_replaces: "signaled event sig = \<lparr>sg_pending = Some event\<rparr>"
  by (cases sig) (simp add: signaled_def)

text \<open>A signal that arrives while another one is pending takes its place: after \<^verbatim>\<open>SIGTERM\<close> and then \<^verbatim>\<open>SIGHUP\<close> the
  process behaves as if it had only been asked to reload.\<close>

theorem stop_request_lost:
  "main_loop env k ((burst @ [Stop, Reload]) # bursts) sig node = main_loop env k ([Reload] # bursts) sig node"
  by (cases node) (simp add: signaled_replaces)

text \<open>A reload that a shard rejects, or a file that cannot be loaded, ends the process: the error leaves the loop
  and the cleanup stops every shard.\<close>

theorem rejected_reload_ends_broker:
  assumes "env_load env 1 = Inr updated" "env_serve env 1 shards = shards" "sh \<in> set shards"
    and "validate_reload (bs_config sh) updated = Inl e"
  shows "\<exists>e' shards'. main_loop env 1 ([Reload] # bursts) sig (config, shards) = (Some (Inl e'), config, shards')"
proof -
  let ?f = "\<lambda>i. apply_config (env_dma env) i updated"
  obtain i where i: "i < length shards" "shards ! i = sh" using assms(3) by (auto simp: in_set_conv_nth)
  obtain r shards' where inv: "invoke_on_all ?f shards = (r, shards')" by (cases "invoke_on_all ?f shards")
  have "?f i (shards ! i) = (Inl e, sh)" using assms(4) i by (simp add: apply_config_def)
  then obtain e' where "r = Inl e'"
    using invoke_on_all_success(2) [of ?f shards shards' i] inv i by (cases r) auto
  then show ?thesis using assms(1,2) inv by (simp add: signaled_def wait_signal_def)
qed

section \<open>Samples\<close>

definition sample_environment :: environment where
  "sample_environment =
     \<lparr>env_dma = 4096, env_load = (\<lambda>_. Inr sample_config), env_serve = (\<lambda>_ shards. shards),
      env_mercury = (\<lambda>_ _. Inr ()), env_listen = (\<lambda>_ _ _. Inr ()), env_metrics = (\<lambda>_. Inr ())\<rparr>"


end
