(* ===== verification/Bench_Client.thy ===== *)
theory Bench_Client
  imports Broker_Front
begin

text \<open>The command line client \<^verbatim>\<open>mkmq_kafka_bench\<close> (\<^verbatim>\<open>tools/kafka_bench_client.cpp\<close>): its options, the frames it
  sends, how it reads frames from a socket and what it takes out of the responses, and the scripts it runs against a
  broker. The client and the broker share the wire primitives and nothing else, so that what one writes and the other
  reads has to agree: the frames of the client are the Kafka requests it means, the broker decodes them to these,
  and the record batch inside is one the broker accepts.\<close>

unbundle bit_operations_syntax

section \<open>Options\<close>

record Options =
  bo_host :: string
  bo_port :: nat
  bo_topic :: string
  bo_partition :: int
  bo_messages :: int
  bo_payload_size :: int
  bo_acks :: int
  bo_fetch_empty_wait_ms :: int
  bo_fetch_offset :: int
  bo_expect_fetch_error :: "int option"
  bo_expect_metadata_error :: "int option"
  bo_expect_list_offsets_error :: "int option"
  bo_expect_fetch_min_bytes :: "nat option"
  bo_expect_fetch_max_bytes :: "nat option"
  bo_expect_produce_error :: "int option"
  bo_transactional_id :: "string option"
  bo_idempotent_batch :: bool
  bo_metadata_only :: bool
  bo_list_offsets_only :: bool
  bo_fetch_only :: bool
  bo_smoke :: bool

definition default_options :: Options where
  "default_options =
     \<lparr>bo_host = ''127.0.0.1'', bo_port = 9092, bo_topic = ''orders'', bo_partition = 0, bo_messages = 10000,
      bo_payload_size = 128, bo_acks = 1, bo_fetch_empty_wait_ms = 0, bo_fetch_offset = 0,
      bo_expect_fetch_error = None, bo_expect_metadata_error = None, bo_expect_list_offsets_error = None,
      bo_expect_fetch_min_bytes = None, bo_expect_fetch_max_bytes = None, bo_expect_produce_error = None,
      bo_transactional_id = None, bo_idempotent_batch = False, bo_metadata_only = False,
      bo_list_offsets_only = False, bo_fetch_only = False, bo_smoke = False\<rparr>"

text \<open>\<^verbatim>\<open>std::stoi\<close>, \<^verbatim>\<open>std::stoll\<close> and \<^verbatim>\<open>std::stoull\<close> on any text: leading white space and a sign are skipped, the
  longest run of digits is read, what follows is ignored. \<^verbatim>\<open>stoull\<close> negates modulo \<open>2 ^ 64\<close>.\<close>

definition is_blank :: "char \<Rightarrow> bool" where
  "is_blank c \<longleftrightarrow> c = CHR '' '' \<or> (9 \<le> (of_char c :: nat) \<and> (of_char c :: nat) \<le> 13)"

definition signed_digits :: "string \<Rightarrow> bool \<times> string" where
  "signed_digits text =
     (let t = dropWhile is_blank text;
          negative = (t \<noteq> [] \<and> hd t = CHR ''-'');
          t = (if t \<noteq> [] \<and> (hd t = CHR ''-'' \<or> hd t = CHR ''+'') then tl t else t)
      in (negative, takeWhile is_digit t))"

definition sto :: "string \<Rightarrow> (int \<Rightarrow> bool) \<Rightarrow> string \<Rightarrow> int result" where
  "sto name fits text =
     (let (negative, digits) = signed_digits text;
          v = (if negative then - int (digits_value digits) else int (digits_value digits))
      in if digits = [] then Inl (InvalidArgument name)
         else if \<not> fits v then Inl (OutOfRange name)
         else Inr v)"

definition stoull :: "string \<Rightarrow> nat result" where
  "stoull text =
     (let (negative, digits) = signed_digits text; v = digits_value digits
      in if digits = [] then Inl (InvalidArgument ''stoull'')
         else if v \<ge> 2 ^ 64 then Inl (OutOfRange ''stoull'')
         else Inr (if negative then (2 ^ 64 - v) mod 2 ^ 64 else v))"

definition stoi :: "string \<Rightarrow> int result" where
  "stoi = sto ''stoi'' i32"

text \<open>The options that take a value, and those that are flags.\<close>

definition value_options :: "(string \<times> (string \<Rightarrow> Options \<Rightarrow> Options result)) list" where
  "value_options =
    [(''--host'', \<lambda>v o'. Inr (o'\<lparr>bo_host := v\<rparr>)),
     (''--port'', \<lambda>v o'. rbind (stoi v) (\<lambda>n. Inr (o'\<lparr>bo_port := nat (n mod 2 ^ 16)\<rparr>))),
     (''--topic'', \<lambda>v o'. Inr (o'\<lparr>bo_topic := v\<rparr>)),
     (''--partition'', \<lambda>v o'. rbind (stoi v) (\<lambda>n. Inr (o'\<lparr>bo_partition := n\<rparr>))),
     (''--messages'', \<lambda>v o'. rbind (stoi v) (\<lambda>n. Inr (o'\<lparr>bo_messages := n\<rparr>))),
     (''--payload-size'', \<lambda>v o'. rbind (stoi v) (\<lambda>n. Inr (o'\<lparr>bo_payload_size := n\<rparr>))),
     (''--acks'', \<lambda>v o'. rbind (stoi v) (\<lambda>n. Inr (o'\<lparr>bo_acks := cast_i16 n\<rparr>))),
     (''--fetch-empty-wait-ms'', \<lambda>v o'. rbind (stoi v) (\<lambda>n. Inr (o'\<lparr>bo_fetch_empty_wait_ms := n\<rparr>))),
     (''--fetch-offset'', \<lambda>v o'. rbind (sto ''stoll'' i64 v) (\<lambda>n. Inr (o'\<lparr>bo_fetch_offset := n\<rparr>))),
     (''--expect-fetch-error'', \<lambda>v o'. rbind (stoi v) (\<lambda>n. Inr (o'\<lparr>bo_expect_fetch_error := Some (cast_i16 n)\<rparr>))),
     (''--expect-metadata-error'', \<lambda>v o'. rbind (stoi v) (\<lambda>n. Inr (o'\<lparr>bo_expect_metadata_error := Some (cast_i16 n)\<rparr>))),
     (''--expect-list-offsets-error'',
        \<lambda>v o'. rbind (stoi v) (\<lambda>n. Inr (o'\<lparr>bo_expect_list_offsets_error := Some (cast_i16 n)\<rparr>))),
     (''--expect-fetch-min-bytes'', \<lambda>v o'. rbind (stoull v) (\<lambda>n. Inr (o'\<lparr>bo_expect_fetch_min_bytes := Some n\<rparr>))),
     (''--expect-fetch-max-bytes'', \<lambda>v o'. rbind (stoull v) (\<lambda>n. Inr (o'\<lparr>bo_expect_fetch_max_bytes := Some n\<rparr>))),
     (''--expect-produce-error'', \<lambda>v o'. rbind (stoi v) (\<lambda>n. Inr (o'\<lparr>bo_expect_produce_error := Some (cast_i16 n)\<rparr>))),
     (''--transactional-id'', \<lambda>v o'. Inr (o'\<lparr>bo_transactional_id := Some v\<rparr>))]"

definition flag_options :: "(string \<times> (Options \<Rightarrow> Options)) list" where
  "flag_options =
    [(''--idempotent-batch'', \<lambda>o'. o'\<lparr>bo_idempotent_batch := True\<rparr>),
     (''--metadata-only'', \<lambda>o'. o'\<lparr>bo_metadata_only := True\<rparr>),
     (''--list-offsets-only'', \<lambda>o'. o'\<lparr>bo_list_offsets_only := True\<rparr>),
     (''--fetch-only'', \<lambda>o'. o'\<lparr>bo_fetch_only := True\<rparr>),
     (''--smoke'', \<lambda>o'. o'\<lparr>bo_smoke := True, bo_messages := 1\<rparr>)]"

definition require_value :: "string list \<Rightarrow> string \<Rightarrow> string result" where
  "require_value rest name =
     (case rest of [] \<Rightarrow> Inl (RuntimeError (''missing value for '' @ name)) | v # _ \<Rightarrow> Inr v)"

text \<open>\<open>None\<close>: \<^verbatim>\<open>--help\<close> prints the usage and exits.\<close>

fun parse_arguments :: "string list \<Rightarrow> Options \<Rightarrow> Options option result" where
  "parse_arguments [] o' = Inr (Some o')"
| "parse_arguments (arg # rest) o' =
     (case map_of value_options arg of
        Some update \<Rightarrow>
          (case rbind (require_value rest arg) (\<lambda>v. update v o') of
             Inl e \<Rightarrow> Inl e
           | Inr o1 \<Rightarrow> parse_arguments (tl rest) o1)
      | None \<Rightarrow>
          (case map_of flag_options arg of
             Some switch \<Rightarrow> parse_arguments rest (switch o')
           | None \<Rightarrow> if arg = ''--help'' then Inr None else Inl (RuntimeError (''unknown argument: '' @ arg))))"

definition parse_options :: "string list \<Rightarrow> Options option result" where
  "parse_options args =
     rbind (parse_arguments args default_options) (\<lambda>parsed.
       case parsed of
         None \<Rightarrow> Inr None
       | Some o' \<Rightarrow>
           if bo_messages o' \<le> 0 \<or> bo_payload_size o' < 0 \<or> bo_acks o' < - 1 \<or> bo_acks o' > 1 \<or> bo_fetch_empty_wait_ms o' < 0
           then Inl (RuntimeError ''messages must be positive, payload-size non-negative, acks one of 0, 1, -1, and fetch wait non-negative'')
           else Inr (Some o'))"

section \<open>Frames on a socket\<close>

text \<open>What a call of \<^verbatim>\<open>recv\<close> meets: bytes that are there, an interruption, an error, or the end of the stream. A call
  takes as many bytes as it asked for and leaves the others.\<close>

datatype socket_event = Arrived bytes | Interrupted | SocketError | EndOfStream

function read_exact :: "nat \<Rightarrow> socket_event list \<Rightarrow> bytes option \<times> socket_event list" where
  "read_exact n events =
     (if n = 0 then (Some [], events)
      else case events of
        [] \<Rightarrow> (None, [])
      | Interrupted # events \<Rightarrow> read_exact n events
      | SocketError # events \<Rightarrow> (None, events)
      | EndOfStream # events \<Rightarrow> (None, events)
      | Arrived bs # events \<Rightarrow>
          (let k = min n (length bs)
           in if k = 0 then (None, events)
              else let (rest, events) = read_exact (n - k) (if k < length bs then Arrived (drop k bs) # events else events)
                   in (map_option (\<lambda>r. take k bs @ r) rest, events)))"
  by pat_completeness auto
termination
  by (relation "measures [\<lambda>(n, events). n, \<lambda>(n, events). length events]") auto

declare read_exact.simps [simp del]

definition decode_i32 :: "bytes \<Rightarrow> int" where
  "decode_i32 bs =
     sint (push_bit 24 (ucast (bs ! 0)) OR push_bit 16 (ucast (bs ! 1)) OR push_bit 8 (ucast (bs ! 2)) OR
           ucast (bs ! 3) :: 32 word)"

definition recv_frame :: "socket_event list \<Rightarrow> bytes result \<times> socket_event list" where
  "recv_frame events =
     (case read_exact 4 events of
        (None, events) \<Rightarrow> (Inl (RuntimeError ''failed to read response size''), events)
      | (Some size_bytes, events) \<Rightarrow>
          (let size = decode_i32 size_bytes
           in if size \<le> 0 \<or> size > 100 * 1024 * 1024 then (Inl (RuntimeError ''invalid response frame size''), events)
              else case read_exact (nat size) events of
                (None, events) \<Rightarrow> (Inl (RuntimeError ''failed to read response payload''), events)
              | (Some payload, events) \<Rightarrow> (Inr (size_bytes @ payload), events)))"

section \<open>Requests\<close>

definition wrap_request :: "int \<Rightarrow> int \<Rightarrow> int \<Rightarrow> bytes \<Rightarrow> bytes result" where
  "wrap_request api_key api_version correlation_id body =
     rbind (write_seq [write_int32 0, write_int16 api_key, write_int16 api_version, write_int32 correlation_id,
                       write_nullable_string (Some ''mkmq-bench''), write_empty_tagged_fields, write_raw body] [])
       (\<lambda>w. patch_int32 0 (cast_i32 (int (length w) - 4)) w)"

definition make_api_versions_body :: "bytes result" where
  "make_api_versions_body =
     write_seq [write_compact_string ''mkmq-bench'', write_compact_string ''0.1'', write_empty_tagged_fields] []"

definition make_metadata_body :: "Options \<Rightarrow> bytes result" where
  "make_metadata_body options =
     write_seq [write_array_count 1 True, write_compact_string (bo_topic options), write_empty_tagged_fields,
                write_bool False, write_bool False, write_bool False, write_empty_tagged_fields] []"

definition put_i64_be :: "bytes \<Rightarrow> nat \<Rightarrow> int \<Rightarrow> bytes result" where
  "put_i64_be out pos v =
     (let raw = word_of_int v :: 64 word
      in if pos + 8 \<le> length out
         then Inr (overwrite out pos
                     (map (\<lambda>shift. ucast (drop_bit shift raw AND 0xff)) [56, 48, 40, 32, 24, 16, 8, 0]))
         else Inl OutOfBounds)"

definition put_i32_be :: "bytes \<Rightarrow> nat \<Rightarrow> int \<Rightarrow> bytes result" where
  "put_i32_be out pos v =
     (let raw = word_of_int v :: 32 word
      in if pos + 4 \<le> length out
         then Inr (overwrite out pos [ucast (drop_bit 24 raw AND 0xff), ucast (drop_bit 16 raw AND 0xff),
                                      ucast (drop_bit 8 raw AND 0xff), ucast (raw AND 0xff)])
         else Inl OutOfBounds)"

definition put_i16_be :: "bytes \<Rightarrow> nat \<Rightarrow> int \<Rightarrow> bytes result" where
  "put_i16_be out pos v =
     (let raw = word_of_int v :: 16 word
      in if pos + 2 \<le> length out
         then Inr (overwrite out pos [ucast (drop_bit 8 raw AND 0xff), ucast (raw AND 0xff)])
         else Inl OutOfBounds)"

function append_unsigned_varint :: "bytes \<Rightarrow> 64 word \<Rightarrow> bytes" where
  "append_unsigned_varint bs value =
     (if value AND NOT 0x7f \<noteq> 0
      then append_unsigned_varint (bs @ [ucast ((value AND 0x7f) OR 0x80)]) (drop_bit 7 value)
      else bs @ [ucast value])"
  by pat_completeness auto
termination
proof (relation "measure (unat \<circ> snd)")
  fix bs :: bytes and v :: "64 word"
  assume "v AND NOT 0x7f \<noteq> 0"
  then have "v \<noteq> 0" by auto
  then have "unat v div 2 ^ 7 < unat v"
    by (intro div_less_dividend) (auto simp: unat_gt_0)
  moreover have "unat (drop_bit 7 v) = unat v div 2 ^ 7"
    by (simp only: unat_drop_bit_eq drop_bit_eq_div [of 7 "unat v"])
  ultimately show "((bs @ [ucast ((v AND 0x7f) OR 0x80)], drop_bit 7 v), bs, v) \<in> measure (unat \<circ> snd)"
    by simp
qed auto

declare append_unsigned_varint.simps [simp del]

definition append_varint :: "bytes \<Rightarrow> int \<Rightarrow> bytes" where
  "append_varint bs value =
     append_unsigned_varint bs
       (ucast (push_bit 1 (word_of_int value) XOR word_of_int (drop_bit 31 value) :: 32 word))"

definition append_varlong :: "bytes \<Rightarrow> int \<Rightarrow> bytes" where
  "append_varlong bs value =
     append_unsigned_varint bs (push_bit 1 (word_of_int value) XOR word_of_int (drop_bit 63 value))"

text \<open>The body of the one record and the section of records of the batch.\<close>

definition record_body :: "int \<Rightarrow> bytes" where
  "record_body payload_size =
     append_varint
       (append_varint (append_varint (append_varint (append_varlong [0] 0) 0) (- 1)) payload_size
          @ map (\<lambda>i. word_of_nat i) [0..<nat payload_size])
       0"

definition records_section :: "int \<Rightarrow> bytes" where
  "records_section payload_size =
     append_varint [] (cast_i32 (int (length (record_body payload_size)))) @ record_body payload_size"

definition make_record_batch :: "Options \<Rightarrow> bytes result" where
  "make_record_batch options =
     (let records = records_section (bo_payload_size options);
          size = 61 + length records
      in rbind (put_i32_be (replicate size 0) 8 (cast_i32 (int (size - 12)))) (\<lambda>b.
         rbind (put_i64_be (b[16 := 2]) 43 (if bo_idempotent_batch options then 1 else - 1)) (\<lambda>b.
         rbind (put_i16_be b 51 (if bo_idempotent_batch options then 0 else - 1)) (\<lambda>b.
         rbind (put_i32_be b 53 (if bo_idempotent_batch options then 0 else - 1)) (\<lambda>b.
         rbind (put_i32_be b 57 1) (\<lambda>b.
         let b = overwrite b 61 records
         in rbind (crc32c_at b 21 (length b - 21)) (\<lambda>crc.
            put_i32_be b 17 (cast_i32 (uint crc)))))))))"

definition make_produce_body :: "Options \<Rightarrow> int \<Rightarrow> bytes result" where
  "make_produce_body options acks =
     rbind (make_record_batch options) (\<lambda>batch.
       write_seq [write_compact_nullable_string (bo_transactional_id options), write_int16 acks, write_int32 100,
                  write_array_count 1 True, write_compact_string (bo_topic options),
                  write_array_count 1 True, write_int32 (bo_partition options),
                  write_compact_nullable_bytes (Some batch), write_empty_tagged_fields,
                  write_empty_tagged_fields, write_empty_tagged_fields] [])"

definition make_fetch_body :: "Options \<Rightarrow> int \<Rightarrow> int \<Rightarrow> bytes result" where
  "make_fetch_body options offset max_wait_ms =
     write_seq [write_int32 (- 1), write_int32 max_wait_ms, write_int32 1, write_int32 (1024 * 1024), write_int8 0,
                write_int32 0, write_int32 (- 1),
                write_array_count 1 True, write_compact_string (bo_topic options),
                write_array_count 1 True, write_int32 (bo_partition options), write_int32 0, write_int64 offset,
                write_int32 (- 1), write_int64 (- 1), write_int32 (1024 * 1024), write_empty_tagged_fields,
                write_empty_tagged_fields, write_array_count 0 True, write_compact_string '''',
                write_empty_tagged_fields] []"

definition make_list_offsets_body :: "Options \<Rightarrow> int \<Rightarrow> bytes result" where
  "make_list_offsets_body options timestamp =
     write_seq [write_int32 (- 1), write_int8 0, write_array_count 1 True, write_compact_string (bo_topic options),
                write_array_count 1 True, write_int32 (bo_partition options), write_int32 (- 1), write_int64 timestamp,
                write_empty_tagged_fields, write_empty_tagged_fields, write_empty_tagged_fields] []"

section \<open>Responses\<close>

definition expect_correlation :: "bytes \<Rightarrow> int \<Rightarrow> unit result" where
  "expect_correlation frame correlation_id =
     rbind (rd_bind read_int32 (\<lambda>_. read_int32) (wire_reader_of frame)) (\<lambda>(actual, r).
       guardR (actual = correlation_id) (RuntimeError ''unexpected correlation id in response''))"

definition skip_response_header_tags :: "int \<Rightarrow> unit reads" where
  "skip_response_header_tags correlation_id =
     rd_bind read_int32 (\<lambda>_.
     rd_bind read_int32 (\<lambda>actual.
     if actual \<noteq> correlation_id then rd_throw (RuntimeError ''unexpected correlation id in response'')
     else skip_tagged_fields))"

text \<open>\<^verbatim>\<open>const auto count = reader.read_array_count(true); if (count <= 0) throw\<close>\<close>

definition some_entries :: "string \<Rightarrow> unit reads" where
  "some_entries msg =
     rd_bind (read_array_count True False) (\<lambda>count.
     if count \<le> 0 then rd_throw (RuntimeError msg) else rd_return ())"

definition from_frame :: "'a reads \<Rightarrow> bytes \<Rightarrow> 'a result" where
  "from_frame rd frame = rbind (rd (wire_reader_of frame)) (\<lambda>(x, r). Inr x)"

definition first_produce_error :: "bytes \<Rightarrow> int \<Rightarrow> int result" where
  "first_produce_error frame correlation_id =
     from_frame
       (rd_bind (skip_response_header_tags correlation_id) (\<lambda>_.
        rd_bind (some_entries ''Produce response had no topics'') (\<lambda>_.
        rd_bind read_compact_string (\<lambda>_.
        rd_bind (some_entries ''Produce response had no partitions'') (\<lambda>_.
        rd_bind read_int32 (\<lambda>_. read_int16)))))) frame"

definition skip_metadata_broker :: "unit reads" where
  "skip_metadata_broker =
     rd_bind read_int32 (\<lambda>_.
     rd_bind read_compact_string (\<lambda>_.
     rd_bind read_int32 (\<lambda>_.
     rd_bind read_compact_nullable_string (\<lambda>_. skip_tagged_fields))))"

definition first_metadata_error :: "bytes \<Rightarrow> int \<Rightarrow> int result" where
  "first_metadata_error frame correlation_id =
     from_frame
       (rd_bind (skip_response_header_tags correlation_id) (\<lambda>_.
        rd_bind read_int32 (\<lambda>_.
        rd_bind (read_array_count True False) (\<lambda>broker_count.
        rd_bind (rd_count broker_count skip_metadata_broker) (\<lambda>_.
        rd_bind read_compact_nullable_string (\<lambda>_.
        rd_bind read_int32 (\<lambda>_.
        rd_bind (some_entries ''Metadata response had no topics'') (\<lambda>_. read_int16)))))))) frame"

record FetchSummary =
  sm_error_code :: int
  sm_high_watermark :: int
  sm_records :: bytes

definition skip_aborted_transaction :: "unit reads" where
  "skip_aborted_transaction = rd_bind read_int64 (\<lambda>_. rd_bind read_int64 (\<lambda>_. skip_tagged_fields))"

definition first_fetch_summary :: "bytes \<Rightarrow> int \<Rightarrow> FetchSummary result" where
  "first_fetch_summary frame correlation_id =
     from_frame
       (rd_bind (skip_response_header_tags correlation_id) (\<lambda>_.
        rd_bind read_int32 (\<lambda>_. rd_bind read_int16 (\<lambda>_. rd_bind read_int32 (\<lambda>_.
        rd_bind (some_entries ''Fetch response had no topics'') (\<lambda>_.
        rd_bind read_compact_string (\<lambda>_.
        rd_bind (some_entries ''Fetch response had no partitions'') (\<lambda>_.
        rd_bind read_int32 (\<lambda>_.
        rd_bind read_int16 (\<lambda>error_code.
        rd_bind read_int64 (\<lambda>high_watermark.
        rd_bind read_int64 (\<lambda>_. rd_bind read_int64 (\<lambda>_.
        rd_bind (read_array_count True True) (\<lambda>aborted_count.
        rd_bind (rd_count aborted_count skip_aborted_transaction) (\<lambda>_.
        rd_bind read_int32 (\<lambda>_.
        rd_bind read_compact_nullable_bytes (\<lambda>records.
        rd_return \<lparr>sm_error_code = error_code, sm_high_watermark = high_watermark,
                   sm_records = (case records of None \<Rightarrow> [] | Some bs \<Rightarrow> bs)\<rparr>))))))))))))))))) frame"

definition first_fetch_error :: "bytes \<Rightarrow> int \<Rightarrow> int result" where
  "first_fetch_error frame correlation_id =
     rbind (first_fetch_summary frame correlation_id) (\<lambda>summary. Inr (sm_error_code summary))"

definition first_list_offset :: "bytes \<Rightarrow> int \<Rightarrow> (int \<times> int) result" where
  "first_list_offset frame correlation_id =
     from_frame
       (rd_bind (skip_response_header_tags correlation_id) (\<lambda>_.
        rd_bind read_int32 (\<lambda>_.
        rd_bind (some_entries ''ListOffsets response had no topics'') (\<lambda>_.
        rd_bind read_compact_string (\<lambda>_.
        rd_bind (some_entries ''ListOffsets response had no partitions'') (\<lambda>_.
        rd_bind read_int32 (\<lambda>_.
        rd_bind read_int16 (\<lambda>error.
        rd_bind read_int64 (\<lambda>_.
        rd_bind read_int64 (\<lambda>offset. rd_return (error, offset))))))))))) frame"

section \<open>The scripts\<close>

text \<open>A connection to a broker: \<open>exchange\<close> sends a frame and receives the next one, \<open>send\<close> only sends.\<close>

record 's peer_connection =
  pc_send :: "bytes \<Rightarrow> 's \<Rightarrow> unit result \<times> 's"
  pc_recv :: "'s \<Rightarrow> bytes result \<times> 's"

definition client_bind :: "('s \<Rightarrow> 'a result \<times> 's) \<Rightarrow> ('a \<Rightarrow> 's \<Rightarrow> 'b result \<times> 's) \<Rightarrow> 's \<Rightarrow> 'b result \<times> 's" where
  "client_bind f g s = (case f s of (Inl e, s1) \<Rightarrow> (Inl e, s1) | (Inr x, s1) \<Rightarrow> g x s1)"

definition client_result :: "'a result \<Rightarrow> 's \<Rightarrow> 'a result \<times> 's" where
  "client_result r s = (r, s)"

definition send_request :: "'s peer_connection \<Rightarrow> bytes result \<Rightarrow> 's \<Rightarrow> unit result \<times> 's" where
  "send_request c frame s = client_bind (client_result frame) (pc_send c) s"

definition exchange :: "'s peer_connection \<Rightarrow> bytes result \<Rightarrow> 's \<Rightarrow> bytes result \<times> 's" where
  "exchange c frame = client_bind (send_request c frame) (\<lambda>_. pc_recv c)"

definition value_or_0 :: "int option \<Rightarrow> int" where
  "value_or_0 v = (case v of None \<Rightarrow> 0 | Some x \<Rightarrow> x)"

definition api_versions_frame :: "int \<Rightarrow> bytes result" where
  "api_versions_frame correlation = rbind make_api_versions_body (wrap_request 18 3 correlation)"

definition metadata_frame :: "Options \<Rightarrow> int \<Rightarrow> bytes result" where
  "metadata_frame options correlation = rbind (make_metadata_body options) (wrap_request 3 9 correlation)"

definition produce_frame :: "Options \<Rightarrow> int \<Rightarrow> bytes result" where
  "produce_frame options correlation =
     rbind (make_produce_body options (bo_acks options)) (wrap_request 0 9 correlation)"

definition fetch_frame :: "Options \<Rightarrow> int \<Rightarrow> int \<Rightarrow> int \<Rightarrow> bytes result" where
  "fetch_frame options offset max_wait_ms correlation =
     rbind (make_fetch_body options offset max_wait_ms) (wrap_request 1 12 correlation)"

definition list_offsets_frame :: "Options \<Rightarrow> int \<Rightarrow> int \<Rightarrow> bytes result" where
  "list_offsets_frame options timestamp correlation =
     rbind (make_list_offsets_body options timestamp) (wrap_request 2 6 correlation)"

definition check_error :: "string \<Rightarrow> int \<Rightarrow> int \<Rightarrow> unit result" where
  "check_error what expected error =
     guardR (error = expected)
       (RuntimeError (what @ '' returned Kafka error '' @ to_string_int error @ '', expected '' @ to_string_int expected))"

text \<open>The prologue of the scripts: ApiVersions and Metadata.\<close>

definition greet :: "'s peer_connection \<Rightarrow> Options \<Rightarrow> 's \<Rightarrow> bytes result \<times> 's" where
  "greet c options =
     client_bind (exchange c (api_versions_frame 1)) (\<lambda>versions.
     client_bind (client_result (expect_correlation versions 1)) (\<lambda>_. exchange c (metadata_frame options 2)))"

definition smoke_offsets :: "'s peer_connection \<Rightarrow> Options \<Rightarrow> 's \<Rightarrow> unit result \<times> 's" where
  "smoke_offsets c options =
     client_bind (exchange c (fetch_frame options 0 0 4)) (\<lambda>fetched.
     client_bind (client_result (expect_correlation fetched 4)) (\<lambda>_.
     client_bind (exchange c (list_offsets_frame options (- 2) 5)) (\<lambda>frame.
     client_bind (client_result (first_list_offset frame 5)) (\<lambda>(earliest_error, earliest).
     client_bind (client_result (guardR (earliest_error = 0 \<and> earliest = 0)
       (RuntimeError (''ListOffsets earliest returned error '' @ to_string_int earliest_error @
                      '' offset '' @ to_string_int earliest)))) (\<lambda>_.
     client_bind (exchange c (list_offsets_frame options (- 1) 6)) (\<lambda>frame.
     client_bind (client_result (first_list_offset frame 6)) (\<lambda>(latest_error, latest).
     client_bind (client_result (guardR (latest_error = 0 \<and> latest \<ge> 1)
       (RuntimeError (''ListOffsets latest returned error '' @ to_string_int latest_error @
                      '' offset '' @ to_string_int latest)))) (\<lambda>_.
     if bo_fetch_empty_wait_ms options \<le> 0 then client_result (Inr ())
     else
       client_bind (exchange c (fetch_frame options 1 (bo_fetch_empty_wait_ms options) 7)) (\<lambda>frame.
       client_bind (client_result (first_fetch_error frame 7)) (\<lambda>error.
       client_result (guardR (error = 0)
         (RuntimeError (''Fetch empty wait returned Kafka error '' @ to_string_int error)))))))))))))"

definition run_smoke :: "'s peer_connection \<Rightarrow> Options \<Rightarrow> 's \<Rightarrow> unit result \<times> 's" where
  "run_smoke c options =
     client_bind (greet c options) (\<lambda>metadata.
     client_bind (client_result (first_metadata_error metadata 2)) (\<lambda>metadata_error.
     client_bind (client_result (check_error ''Metadata'' (value_or_0 (bo_expect_metadata_error options)) metadata_error)) (\<lambda>_.
     if bo_metadata_only options then client_result (Inr ())
     else
       client_bind
         (if bo_acks options = 0 then send_request c (produce_frame options 3)
          else
            client_bind (exchange c (produce_frame options 3)) (\<lambda>frame.
            client_bind (client_result (first_produce_error frame 3)) (\<lambda>error.
            client_result (guardR (error = value_or_0 (bo_expect_produce_error options))
              (RuntimeError (''Produce smoke returned Kafka error '' @ to_string_int error)))))) (\<lambda>_.
       if value_or_0 (bo_expect_produce_error options) \<noteq> 0 then client_result (Inr ())
       else smoke_offsets c options))))"

definition run_list_offsets_only :: "'s peer_connection \<Rightarrow> Options \<Rightarrow> 's \<Rightarrow> unit result \<times> 's" where
  "run_list_offsets_only c options =
     client_bind (greet c options) (\<lambda>metadata.
     client_bind (client_result (expect_correlation metadata 2)) (\<lambda>_.
     client_bind (exchange c (list_offsets_frame options (- 1) 3)) (\<lambda>frame.
     client_bind (client_result (first_list_offset frame 3)) (\<lambda>(error, offset).
     client_result (check_error ''ListOffsets'' (value_or_0 (bo_expect_list_offsets_error options)) error)))))"

definition check_fetch :: "Options \<Rightarrow> FetchSummary \<Rightarrow> unit result" where
  "check_fetch options summary =
     (let size = length (sm_records summary)
      in rbind (case bo_expect_fetch_error options of
                  Some expected \<Rightarrow> check_error ''Fetch'' expected (sm_error_code summary)
                | None \<Rightarrow> guardR (sm_error_code summary = 0)
                    (RuntimeError (''Fetch returned Kafka error '' @ to_string_int (sm_error_code summary)))) (\<lambda>_.
         rbind (case bo_expect_fetch_min_bytes options of
                  Some least \<Rightarrow> guardR (least \<le> size) (RuntimeError (''Fetch returned '' @ nat_to_string size @
                    '' record bytes, expected at least '' @ nat_to_string least))
                | None \<Rightarrow> Inr ()) (\<lambda>_.
         case bo_expect_fetch_max_bytes options of
           Some most \<Rightarrow> guardR (size \<le> most) (RuntimeError (''Fetch returned '' @ nat_to_string size @
             '' record bytes, expected at most '' @ nat_to_string most))
         | None \<Rightarrow> Inr ())))"

definition run_fetch_only :: "'s peer_connection \<Rightarrow> Options \<Rightarrow> 's \<Rightarrow> unit result \<times> 's" where
  "run_fetch_only c options =
     client_bind (greet c options) (\<lambda>metadata.
     client_bind (client_result (expect_correlation metadata 2)) (\<lambda>_.
     client_bind (exchange c (fetch_frame options (bo_fetch_offset options) 0 3)) (\<lambda>frame.
     client_bind (client_result (first_fetch_summary frame 3)) (\<lambda>summary.
     client_result (check_fetch options summary)))))"

text \<open>The request loop of the benchmark; the times it takes are not modelled.\<close>

fun benchmark_loop :: "'s peer_connection \<Rightarrow> bytes \<Rightarrow> nat \<Rightarrow> int \<Rightarrow> 's \<Rightarrow> unit result \<times> 's" where
  "benchmark_loop c body 0 correlation s = (Inr (), s)"
| "benchmark_loop c body (Suc n) correlation s =
     (case client_bind (exchange c (wrap_request 0 9 correlation body))
             (\<lambda>frame. client_result (first_produce_error frame correlation)) s of
        (Inl e, s1) \<Rightarrow> (Inl e, s1)
      | (Inr error, s1) \<Rightarrow>
          if error \<noteq> 0 then (Inl (RuntimeError (''Produce benchmark returned Kafka error '' @ to_string_int error)), s1)
          else benchmark_loop c body n (cast_i32 (correlation + 1)) s1)"

definition run_benchmark :: "'s peer_connection \<Rightarrow> Options \<Rightarrow> 's \<Rightarrow> unit result \<times> 's" where
  "run_benchmark c options =
     (if bo_acks options = 0
      then client_result (Inl (RuntimeError ''benchmark mode requires a Produce response; use --acks 1 or --acks -1''))
      else client_bind (client_result (make_produce_body options (bo_acks options))) (\<lambda>body.
             benchmark_loop c body (nat (bo_messages options)) 1000))"

definition bench_main :: "'s peer_connection \<Rightarrow> Options \<Rightarrow> 's \<Rightarrow> unit result \<times> 's" where
  "bench_main c options =
     client_bind
       (if bo_metadata_only options then run_smoke c options
        else if bo_list_offsets_only options then run_list_offsets_only c options
        else if bo_fetch_only options then run_fetch_only c options
        else run_smoke c options) (\<lambda>_.
     if \<not> bo_smoke options \<and> \<not> bo_fetch_only options \<and> \<not> bo_metadata_only options \<and> \<not> bo_list_offsets_only options \<and>
        bo_expect_produce_error options = None
     then run_benchmark c options else client_result (Inr ()))"

section \<open>The record batch\<close>

lemma varint_mask:
  assumes "unat (v :: 64 word) < 2 ^ 7"
  shows "v AND NOT 0x7f = 0"
proof -
  have "unat (take_bit 7 v) = unat v" using assms by (simp add: unsigned_take_bit_eq take_bit_nat_eq_self)
  then have "take_bit 7 v = v" by (rule unsigned_word_eqI)
  then have "v AND NOT (mask 7) = take_bit 7 v AND NOT (mask 7)" by simp
  also have "\<dots> = 0" by (rule bit_word_eqI) (auto simp: bit_simps)
  finally show ?thesis by (simp add: mask_eq_exp_minus_1)
qed

lemma append_unsigned_varint_length:
  "unat v < 2 ^ (7 * Suc k) \<Longrightarrow> length (append_unsigned_varint bs v) \<le> length bs + Suc k"
proof (induction k arbitrary: bs v)
  case 0
  then have "v AND NOT 0x7f = 0" by (intro varint_mask) simp
  then show ?case by (subst append_unsigned_varint.simps) simp
next
  case (Suc k)
  have "unat (drop_bit 7 v) = unat v div 2 ^ 7" by (simp only: unat_drop_bit_eq drop_bit_eq_div [of 7 "unat v"])
  moreover have "unat v < 2 ^ (7 * Suc k) * 2 ^ 7" using Suc.prems by (simp flip: power_add) (simp add: power_add)
  ultimately have "unat (drop_bit 7 v) < 2 ^ (7 * Suc k)" by (simp add: less_mult_imp_div_less)
  from Suc.IH [OF this, of "bs @ [ucast ((v AND 0x7f) OR 0x80)]"]
  show ?case by (subst append_unsigned_varint.simps) auto
qed

lemma append_varint_length:
  "length (append_varint bs v) \<le> length bs + 10" "length (append_varlong bs v) \<le> length bs + 10"
proof -
  have "unat (w :: 64 word) < 2 ^ (7 * Suc 9)" for w
  proof -
    have "unat w < 2 ^ LENGTH(64)" by (rule unsigned_less)
    then show ?thesis by simp
  qed
  then show "length (append_varint bs v) \<le> length bs + 10" "length (append_varlong bs v) \<le> length bs + 10"
    unfolding append_varint_def append_varlong_def using append_unsigned_varint_length [where k = 9] by fastforce+
qed

lemma records_section_length: "length (records_section n) \<le> nat n + 61"
proof -
  let ?a = "append_varlong [0] 0"
  let ?b = "append_varint ?a 0"
  let ?c = "append_varint ?b (- 1)"
  let ?d = "append_varint ?c n"
  have "length ?a \<le> 11" using append_varint_length(2) [of "[0]" 0] by simp
  moreover have "length ?b \<le> length ?a + 10" "length ?c \<le> length ?b + 10" "length ?d \<le> length ?c + 10"
    by (rule append_varint_length)+
  moreover have "length (record_body n) \<le> length ?d + nat n + 10"
    unfolding record_body_def using append_varint_length(1) [of "?d @ map word_of_nat [0..<nat n]" 0] by simp
  moreover have "length (append_varint [] (cast_i32 (int (length (record_body n))))) \<le> 10"
    using append_varint_length(1) [of "[]" "cast_i32 (int (length (record_body n)))"] by simp
  ultimately show ?thesis unfolding records_section_def length_append by linarith
qed

definition batch_layout :: "int \<Rightarrow> int \<Rightarrow> int \<Rightarrow> int \<Rightarrow> int \<Rightarrow> int \<Rightarrow> byte \<Rightarrow> bytes \<Rightarrow> bytes" where
  "batch_layout len crc pid epoch seq n magic records =
     be64 0 @ be32 len @ be32 0 @ [magic] @ be32 crc @ be16 0 @ be32 0 @ be64 0 @ be64 0 @ be64 pid @ be16 epoch @
     be32 seq @ be32 n @ records"

lemma put_be:
  "put_i64_be out pos v = (if pos + 8 \<le> length out then Inr (overwrite out pos (be64 v)) else Inl OutOfBounds)"
  "put_i32_be out pos v = (if pos + 4 \<le> length out then Inr (overwrite out pos (be32 v)) else Inl OutOfBounds)"
  "put_i16_be out pos v = (if pos + 2 \<le> length out then Inr (overwrite out pos (be16 v)) else Inl OutOfBounds)"
  by (simp_all add: put_i64_be_def put_i32_be_def put_i16_be_def be64_def be32_def be16_def Let_def)

lemma length_batch_layout: "length (batch_layout len crc pid epoch seq n magic records) = 61 + length records"
  by (simp add: batch_layout_def)

lemma batch_layout_zero: "replicate (61 + n) 0 = batch_layout 0 0 0 0 0 0 0 (replicate n 0)"
  by (simp add: batch_layout_def be64_def be32_def be16_def numeral_eq_Suc)

text \<open>Each store of \<^verbatim>\<open>make_record_batch\<close> replaces one field of the layout.\<close>

lemma batch_layout_put:
  "overwrite (batch_layout l c p e s n g r) 8 (be32 l') = batch_layout l' c p e s n g r"
  "(batch_layout l c p e s n g r)[16 := g'] = batch_layout l c p e s n g' r"
  "overwrite (batch_layout l c p e s n g r) 17 (be32 c') = batch_layout l c' p e s n g r"
  "overwrite (batch_layout l c p e s n g r) 43 (be64 p') = batch_layout l c p' e s n g r"
  "overwrite (batch_layout l c p e s n g r) 51 (be16 e') = batch_layout l c p e' s n g r"
  "overwrite (batch_layout l c p e s n g r) 53 (be32 s') = batch_layout l c p e s' n g r"
  "overwrite (batch_layout l c p e s n g r) 57 (be32 n') = batch_layout l c p e s n' g r"
  "length r' = length r \<Longrightarrow> overwrite (batch_layout l c p e s n g r) 61 r' = batch_layout l c p e s n g r'"
  by (simp_all add: overwrite_def batch_layout_def list_update_append)

definition client_batch :: "Options \<Rightarrow> bytes" where
  "client_batch options =
     (let records = records_section (bo_payload_size options); flag = (if bo_idempotent_batch options then 0 else - 1);
          b = batch_layout (int (length records) + 49) 0 (if bo_idempotent_batch options then 1 else - 1) flag flag 1 2 records
      in batch_layout (int (length records) + 49) (uint (crc32c (drop 21 b)))
           (if bo_idempotent_batch options then 1 else - 1) flag flag 1 2 records)"

lemma make_record_batch_eq:
  assumes "bo_payload_size options \<le> 2 ^ 29"
  shows "make_record_batch options = Inr (client_batch options)"
proof -
  let ?r = "records_section (bo_payload_size options)"
  have "length ?r \<le> 2 ^ 29 + 61" using records_section_length [of "bo_payload_size options"] assms by simp
  then have len: "cast_i32 (int (61 + length ?r - 12)) = int (length ?r) + 49" by (simp add: i32_def)
  have crc: "be32 (cast_i32 (uint (c :: 32 word))) = be32 (uint c)" for c by (simp add: be32_def cast_i32_def)
  show ?thesis
    unfolding make_record_batch_def Let_def batch_layout_zero len put_be
    by (simp add: length_batch_layout batch_layout_put crc32c_at_def crc client_batch_def Let_def chunk_def)
qed

lemma batch_layout_reads:
  "i64 p \<Longrightarrow> read_i64_be_at (batch_layout l c p e s n g r) 43 = Inr p"
  "i16 e \<Longrightarrow> read_i16_be_at (batch_layout l c p e s n g r) 51 = Inr e"
  "i32 s \<Longrightarrow> read_i32_be (batch_layout l c p e s n g r) 53 = Inr s"
proof -
  have "chunk (batch_layout l c p e s n g r) 43 8 = be64 p" by (simp add: batch_layout_def chunk_def)
  then show "i64 p \<Longrightarrow> read_i64_be_at (batch_layout l c p e s n g r) 43 = Inr p"
    using join64 [of "word_of_int p"]
    by (simp add: read_i64_be_at_def length_batch_layout be64_def sint_word_of_int_64 del: fold.simps list.map)
  have "batch_layout l c p e s n g r ! 51 = be16 e ! 0" "batch_layout l c p e s n g r ! 52 = be16 e ! 1"
    by (simp_all add: batch_layout_def nth_append)
  then show "i16 e \<Longrightarrow> read_i16_be_at (batch_layout l c p e s n g r) 51 = Inr e"
    by (simp add: read_i16_be_at_def length_batch_layout be16_def join16 sint_word_of_int_16)
  have "chunk (batch_layout l c p e s n g r) 53 4 = be32 s" by (simp add: batch_layout_def chunk_def)
  then show "i32 s \<Longrightarrow> read_i32_be (batch_layout l c p e s n g r) 53 = Inr s"
    by (simp add: read_i32_be_def length_batch_layout decode_frame_size_be32)
qed

text \<open>The batch is well-formed, carries the checksum of its contents and counts as idempotent only when asked for.\<close>

lemma client_batch_ok:
  assumes "bo_payload_size options \<le> 2 ^ 29"
  shows "batch_ok (client_batch options)"
    and "batch_idempotent (client_batch options) = bo_idempotent_batch options"
    and "chunk (client_batch options) 17 4 = be32 (uint (crc32c (drop 21 (client_batch options))))"
    and "length (client_batch options) \<le> nat (bo_payload_size options) + 122"
proof -
  let ?r = "records_section (bo_payload_size options)"
  have r: "length ?r \<le> nat (bo_payload_size options) + 61" by (rule records_section_length)
  have len: "length (client_batch options) = 61 + length ?r" by (simp add: client_batch_def Let_def length_batch_layout)
  then show "length (client_batch options) \<le> nat (bo_payload_size options) + 122" using r by simp
  have "int (length ?r) + 49 < 2 ^ 31" using r assms by simp
  moreover have "chunk (client_batch options) 8 4 = be32 (int (length ?r) + 49)"
    by (simp add: client_batch_def Let_def batch_layout_def chunk_def)
  ultimately show "batch_ok (client_batch options)" by (simp add: batch_ok_def len i32_def add.commute)
  show "chunk (client_batch options) 17 4 = be32 (uint (crc32c (drop 21 (client_batch options))))"
    by (simp add: client_batch_def Let_def batch_layout_def chunk_def)
  show "batch_idempotent (client_batch options) = bo_idempotent_batch options"
    by (simp add: batch_idempotent_def client_batch_def Let_def batch_layout_reads i64_def i32_def i16_def)
qed

section \<open>The frames of the client\<close>

text \<open>What the client means by each frame.\<close>

definition client_produce_request :: "Options \<Rightarrow> WireProduceRequest" where
  "client_produce_request o' =
     \<lparr>pr_transactional_id = bo_transactional_id o', pr_acks = bo_acks o', pr_timeout_ms = 100,
      pr_topics = [\<lparr>prt_name = bo_topic o', prt_partitions =
        [\<lparr>prp_partition_index = bo_partition o', prp_records = client_batch o'\<rparr>]\<rparr>]\<rparr>"

definition client_fetch_request :: "Options \<Rightarrow> int \<Rightarrow> int \<Rightarrow> WireFetchRequest" where
  "client_fetch_request o' offset max_wait_ms =
     \<lparr>fr_replica_id = - 1, fr_max_wait_ms = max_wait_ms, fr_min_bytes = 1, fr_max_bytes = 1024 * 1024,
      fr_isolation_level = 0, fr_session_id = 0, fr_session_epoch = - 1,
      fr_topics = [\<lparr>frt_topic = bo_topic o', frt_partitions =
        [\<lparr>frp_partition = bo_partition o', frp_current_leader_epoch = 0, frp_fetch_offset = offset,
          frp_last_fetched_epoch = - 1, frp_log_start_offset = - 1, frp_partition_max_bytes = 1024 * 1024\<rparr>]\<rparr>],
      fr_rack_id = ''''\<rparr>"

definition client_list_offsets_request :: "Options \<Rightarrow> int \<Rightarrow> ListOffsetsRequest" where
  "client_list_offsets_request o' timestamp =
     \<lparr>lr_replica_id = - 1, lr_isolation_level = 0,
      lr_topics = [\<lparr>lrt_name = bo_topic o', lrt_partitions =
        [\<lparr>lrp_partition_index = bo_partition o', lrp_current_leader_epoch = - 1, lrp_timestamp = timestamp\<rparr>]\<rparr>]\<rparr>"

definition client_metadata_request :: "Options \<Rightarrow> MetadataRequest" where
  "client_metadata_request o' =
     \<lparr>mr_all_topics = False, mr_topics = [\<lparr>mrt_name = bo_topic o'\<rparr>], mr_allow_auto_topic_creation = False,
      mr_include_cluster_authorized_operations = False, mr_include_topic_authorized_operations = False\<rparr>"

text \<open>Options whose texts and payload are not absurdly long, so that a frame has less than \<open>2 ^ 31\<close> bytes.\<close>

definition client_ok :: "Options \<Rightarrow> bool" where
  "client_ok o' \<longleftrightarrow> length (bo_topic o') \<le> 2 ^ 29 \<and> ok_opt (\<lambda>t. length t \<le> 2 ^ 29) (bo_transactional_id o') \<and>
     i32 (bo_partition o') \<and> i16 (bo_acks o') \<and> bo_payload_size o' \<le> 2 ^ 29"

text \<open>A frame is understood when the broker, after it has taken off the size, parses the header of the API and version
  from it and decodes the rest completely to the request.\<close>

definition understood :: "bytes result \<Rightarrow> ApiKey \<Rightarrow> int \<Rightarrow> int \<Rightarrow> 'q reads \<Rightarrow> 'q \<Rightarrow> bool" where
  "understood frame key version correlation_id decode q \<longleftrightarrow>
     (\<exists>payload body. frame = Inr (request_frame payload) \<and>
        parse_request_header (wire_reader_of payload) =
          Inr (\<lparr>hdr_api_key = key, hdr_api_version = version, hdr_correlation_id = correlation_id,
                hdr_client_id = ''mkmq-bench'', hdr_header_version = 2\<rparr>, body) \<and>
        decode body = Inr (q, reader_at payload []))"

lemma uvarint_size: "length (uvarint v) \<le> 5"
  using uvarint_length [of 5 v] bit_less_35 [of v] by auto

lemma wrap_request_eq:
  assumes "int (length body) < 2 ^ 31 - 100" "is_flexible key version"
  shows "wrap_request (api_id key) version c body =
    Inr (request_frame (request_header_bytes key version c (Some ''mkmq-bench'') @ body))"
proof -
  let ?w = "be16 (api_id key) @ be16 version @ be32 c @ nullable_string_bytes (Some ''mkmq-bench'') @ uvarint 0 @ body"
  have "length (nullable_string_bytes (Some ''mkmq-bench'')) = 12"
    by (simp add: nullable_string_bytes_def string_bytes_def bytes_of_string_def)
  then have "length ?w \<le> length body + 25" using uvarint_size [of 0] by simp
  then have "i32 (int (length ?w))" using assms(1) by (simp add: i32_def)
  then have "cast_i32 (int (length (be32 0 @ ?w)) - 4) = int (length ?w)" by simp
  moreover have "write_seq [write_int32 0, write_int16 (api_id key), write_int16 version, write_int32 c,
      write_nullable_string (Some ''mkmq-bench''), write_empty_tagged_fields, write_raw body] [] = Inr (be32 0 @ ?w)"
    by (simp add: wr_app ok_opt_def ok_string_def)
  ultimately show ?thesis
    unfolding wrap_request_def using assms(2)
    by (simp add: patch_int32_front request_frame_def request_header_bytes_def)
qed

lemma understood_frame:
  assumes body: "body = Inr bytes" "int (length bytes) < 2 ^ 31 - 100"
    and key: "is_flexible key version" "is_known_api (api_id key)" "i16 version" "i32 c"
    and dec: "\<And>pre. decode (reader_at pre bytes) = Inr (q, reader_at (pre @ bytes) [])"
  shows "understood (rbind body (wrap_request (api_id key) version c)) key version c decode q"
  unfolding understood_def
proof (intro exI conjI)
  let ?h = "request_header_bytes key version c (Some ''mkmq-bench'')"
  show "rbind body (wrap_request (api_id key) version c) = Inr (request_frame (?h @ bytes))"
    using wrap_request_eq [OF body(2) key(1)] by (simp add: body(1))
  have "ok_opt ok_string (Some ''mkmq-bench'')" by (simp add: ok_opt_def ok_string_def)
  from parse_request_header_at [OF key(2-4) this, of "[]" bytes]
  show "parse_request_header (wire_reader_of (?h @ bytes)) =
      Inr (\<lparr>hdr_api_key = key, hdr_api_version = version, hdr_correlation_id = c, hdr_client_id = ''mkmq-bench'',
            hdr_header_version = 2\<rparr>, reader_at ?h bytes)"
    using key(1) by (simp add: reader_at_Nil)
  show "decode (reader_at ?h bytes) = Inr (q, reader_at (?h @ bytes) [])" by (rule dec)
qed

lemmas request_bytes_defs = produce_request_bytes_def produce_request_topic_bytes_def produce_request_partition_bytes_def
  fetch_request_bytes_def fetch_request_topic_bytes_def fetch_request_partition_bytes_def list_offsets_request_bytes_def
  list_offsets_request_topic_bytes_def list_offsets_request_partition_bytes_def metadata_request_bytes_def
  metadata_request_topic_bytes_def array_bytes_def

lemma client_bodies:
  assumes "client_ok o'"
  shows "make_produce_body o' (bo_acks o') = Inr (produce_request_bytes (client_produce_request o'))"
    and "make_fetch_body o' offset wait = Inr (fetch_request_bytes [] (client_fetch_request o' offset wait))"
    and "make_list_offsets_body o' timestamp = Inr (list_offsets_request_bytes (client_list_offsets_request o' timestamp))"
    and "make_metadata_body o' = Inr (metadata_request_bytes (client_metadata_request o'))"
proof -
  have "make_record_batch o' = Inr (client_batch o')" using assms by (simp add: client_ok_def make_record_batch_eq)
  then show "make_produce_body o' (bo_acks o') = Inr (produce_request_bytes (client_produce_request o'))"
    by (simp add: make_produce_body_def client_produce_request_def request_bytes_defs wr_app)
  show "make_fetch_body o' offset wait = Inr (fetch_request_bytes [] (client_fetch_request o' offset wait))"
    "make_list_offsets_body o' timestamp = Inr (list_offsets_request_bytes (client_list_offsets_request o' timestamp))"
    "make_metadata_body o' = Inr (metadata_request_bytes (client_metadata_request o'))"
    by (simp_all add: make_fetch_body_def make_list_offsets_body_def make_metadata_body_def client_fetch_request_def
        client_list_offsets_request_def client_metadata_request_def request_bytes_defs wr_app)
qed

lemma length_compact:
  "length (compact_string_bytes s) \<le> 5 + length s" "length (compact_count n) \<le> 5"
  "length (compact_nullable_bytes (Some b)) \<le> 5 + length b"
  "length (compact_nullable_string_bytes v) \<le> 5 + (case v of None \<Rightarrow> 0 | Some s \<Rightarrow> length s)"
  using uvarint_size
  by (auto simp: compact_string_bytes_def compact_count_def compact_nullable_bytes_def compact_nullable_string_bytes_def
      bytes_of_string_def split: option.split)

lemma client_batch_short:
  assumes "client_ok o'"
  shows "length (client_batch o') \<le> 2 ^ 29 + 122"
proof -
  have size: "bo_payload_size o' \<le> 2 ^ 29" using assms by (simp add: client_ok_def)
  then have "nat (bo_payload_size o') \<le> 2 ^ 29" by (simp add: nat_le_iff)
  then show ?thesis using client_batch_ok(4) [OF size] by linarith
qed

lemma client_body_lengths:
  assumes "client_ok o'"
  shows "length (produce_request_bytes (client_produce_request o')) < 2 ^ 31 - 100"
    and "length (fetch_request_bytes [] (client_fetch_request o' offset wait)) < 2 ^ 31 - 100"
    and "length (list_offsets_request_bytes (client_list_offsets_request o' timestamp)) < 2 ^ 31 - 100"
    and "length (metadata_request_bytes (client_metadata_request o')) < 2 ^ 31 - 100"
proof -
  have topic: "length (compact_string_bytes (bo_topic o')) \<le> 5 + 2 ^ 29"
    using length_compact(1) [of "bo_topic o'"] assms by (simp add: client_ok_def)
  have id: "length (compact_nullable_string_bytes (bo_transactional_id o')) \<le> 5 + 2 ^ 29"
    using length_compact(4) [of "bo_transactional_id o'"] assms by (simp add: client_ok_def ok_opt_def split: option.splits)
  have batch: "length (compact_nullable_bytes (Some (client_batch o'))) \<le> 5 + (2 ^ 29 + 122)"
    using length_compact(3) [of "client_batch o'"] client_batch_short [OF assms] by simp
  note counts = length_compact(2) [of 0] length_compact(2) [of 1] uvarint_size [of 0] length_compact(1) [of "''''"]
  show "length (produce_request_bytes (client_produce_request o')) < 2 ^ 31 - 100"
    using topic id batch counts by (simp add: client_produce_request_def request_bytes_defs)
  show "length (fetch_request_bytes [] (client_fetch_request o' offset wait)) < 2 ^ 31 - 100"
    using topic counts by (simp add: client_fetch_request_def request_bytes_defs)
  show "length (list_offsets_request_bytes (client_list_offsets_request o' timestamp)) < 2 ^ 31 - 100"
    using topic counts by (simp add: client_list_offsets_request_def request_bytes_defs)
  show "length (metadata_request_bytes (client_metadata_request o')) < 2 ^ 31 - 100"
    using topic counts by (simp add: client_metadata_request_def request_bytes_defs)
qed

lemma client_requests_typed:
  assumes "client_ok o'" "i64 offset" "i32 wait" "i64 timestamp"
  shows "ok_produce_request (client_produce_request o')" "ok_fetch_request (client_fetch_request o' offset wait)"
    "ok_list_offsets_request (client_list_offsets_request o' timestamp)" "ok_metadata_request (client_metadata_request o')"
proof -
  have "length (client_batch o') \<le> 2 ^ 29 + 122" by (rule client_batch_short [OF assms(1)])
  then show "ok_produce_request (client_produce_request o')"
    using assms(1)
    by (auto simp: client_ok_def client_produce_request_def ok_produce_request_def ok_produce_request_topic_def
        ok_produce_request_partition_def ok_array_def ok_count_def ok_opt_def ok_compact_def i32_def split: option.splits)
  show "ok_fetch_request (client_fetch_request o' offset wait)"
    "ok_list_offsets_request (client_list_offsets_request o' timestamp)" "ok_metadata_request (client_metadata_request o')"
    using assms
    by (auto simp: client_ok_def client_fetch_request_def ok_fetch_request_def ok_fetch_request_topic_def
        ok_fetch_request_partition_def client_list_offsets_request_def ok_list_offsets_request_def
        ok_list_offsets_request_topic_def ok_list_offsets_request_partition_def client_metadata_request_def
        ok_metadata_request_def ok_metadata_request_topic_def ok_array_def ok_count_def ok_compact_def
        i8_def i32_def i64_def)
qed

text \<open>C14: The client and the broker agree on the wire: every Produce, Fetch, ListOffsets and Metadata frame the client
  builds is a frame from which the broker parses the API, the version and the correlation id the client
  meant and decodes, to the last byte, the request the client meant; and the record batch in the Produce request is
  well-formed, has the checksum of its contents, and is refused as idempotent exactly when the client was
  asked to send an idempotent one.\<close>

theorem client_frames_understood:
  assumes "client_ok o'" "i32 c" "i64 offset" "i32 wait" "i64 timestamp"
  shows "understood (produce_frame o' c) Produce 9 c decode_produce_request (client_produce_request o') \<and>
    understood (fetch_frame o' offset wait c) Fetch 12 c decode_fetch_request (client_fetch_request o' offset wait) \<and>
    understood (list_offsets_frame o' timestamp c) ListOffsets 6 c decode_list_offsets_request
      (client_list_offsets_request o' timestamp) \<and>
    understood (metadata_frame o' c) Metadata 9 c decode_metadata_request (client_metadata_request o') \<and>
    batch_ok (client_batch o') \<and>
    chunk (client_batch o') 17 4 = be32 (uint (crc32c (drop 21 (client_batch o')))) \<and>
    has_idempotent_record_batch (client_batch o') = Inr (bo_idempotent_batch o')"
proof (intro conjI)
  note body = client_bodies [OF assms(1)] and len = client_body_lengths [OF assms(1)]
    and ok = client_requests_typed [OF assms(1,3,4,5)]
  have known: "api_id Produce = 0" "api_id Fetch = 1" "api_id ListOffsets = 2" "api_id Metadata = 3" by simp_all
  note understand = understood_frame [OF _ _ _ _ _ assms(2)]
  show "understood (produce_frame o' c) Produce 9 c decode_produce_request (client_produce_request o')"
    unfolding produce_frame_def known(1) [symmetric]
    by (rule understand [OF body(1)]) (use len(1) dec_produce_request.rd_enc_end [OF ok(1)] in
      \<open>simp_all add: is_flexible_iff is_known_api_iff i16_def\<close>)
  show "understood (fetch_frame o' offset wait c) Fetch 12 c decode_fetch_request (client_fetch_request o' offset wait)"
    unfolding fetch_frame_def known(2) [symmetric]
    by (rule understand [OF body(2)]) (use len(2) dec_fetch_request.rd_enc_end [OF ok(2)] in
      \<open>simp_all add: is_flexible_iff is_known_api_iff i16_def\<close>)
  show "understood (list_offsets_frame o' timestamp c) ListOffsets 6 c decode_list_offsets_request
      (client_list_offsets_request o' timestamp)"
    unfolding list_offsets_frame_def known(3) [symmetric]
    by (rule understand [OF body(3)]) (use len(3) dec_list_offsets_request.rd_enc_end [OF ok(3)] in
      \<open>simp_all add: is_flexible_iff is_known_api_iff i16_def\<close>)
  show "understood (metadata_frame o' c) Metadata 9 c decode_metadata_request (client_metadata_request o')"
    unfolding metadata_frame_def known(4) [symmetric]
    by (rule understand [OF body(4)]) (use len(4) dec_metadata_request.rd_enc_end [OF ok(4)] in
      \<open>simp_all add: is_flexible_iff is_known_api_iff i16_def\<close>)
  have "bo_payload_size o' \<le> 2 ^ 29" using assms(1) by (simp add: client_ok_def)
  note batch = client_batch_ok [OF this]
  show "batch_ok (client_batch o')" "chunk (client_batch o') 17 4 = be32 (uint (crc32c (drop 21 (client_batch o'))))"
    by (rule batch)+
  show "has_idempotent_record_batch (client_batch o') = Inr (bo_idempotent_batch o')"
    using idempotent_batches [of "[client_batch o']" "[]"] batch by (simp add: has_idempotent_record_batch_def)
qed

theorem client_frames_understood_witness:
  "understood (produce_frame default_options 3) Produce 9 3 decode_produce_request (client_produce_request default_options) \<and>
   has_idempotent_record_batch (client_batch (default_options\<lparr>bo_idempotent_batch := True\<rparr>)) = Inr True"
proof -
  have ok: "client_ok default_options" "client_ok (default_options\<lparr>bo_idempotent_batch := True\<rparr>)"
    by (simp_all add: client_ok_def default_options_def ok_opt_def i32_def i16_def)
  have i: "i32 3" "i64 0" "i32 0" by (simp_all add: i32_def i64_def)
  show ?thesis
    using client_frames_understood [OF ok(1) i(1,2,3,2)] client_frames_understood [OF ok(2) i(1,2,3,2)] by simp
qed

section \<open>The responses the client reads\<close>

text \<open>A response frame of the broker with tagged fields in its header.\<close>

lemma response_frame_eq:
  assumes "response_header_version (hdr_api_key request) (hdr_api_version request) \<ge> 1" "i32 (hdr_correlation_id request)"
  shows "\<exists>n. i32 n \<and> make_response_frame request body = Inr (be32 n @ be32 (hdr_correlation_id request) @ uvarint 0 @ body)"
  using assms by (intro exI [of _ "cast_i32 (int (length (be32 (hdr_correlation_id request) @ uvarint 0 @ body)))"])
    (simp add: make_response_frame_eq Let_def)

lemma skip_response_header_at:
  assumes "i32 n" "i32 c"
  shows "skip_response_header_tags c (wire_reader_of (be32 n @ be32 c @ uvarint 0 @ body)) =
    Inr ((), reader_at (be32 n @ be32 c @ uvarint 0) body)"
  using assms by (simp add: skip_response_header_tags_def reader_at_Nil [symmetric] rd_bind_at rd_at)

lemma some_entries_at:
  assumes "ok_count (Suc k)"
  shows "some_entries msg (reader_at pre (compact_count (Suc k) @ suf)) = Inr ((), reader_at (pre @ compact_count (Suc k)) suf)"
  using assms by (simp add: some_entries_def rd_bind_at read_array_count_at rd_return_def)

lemmas client_reads = rd_bind_at rd_at rd_return_def some_entries_at array_bytes_def ok_array_def

lemma client_reads_produce_error:
  assumes "make_response_frame request (produce_response_bytes v) = Inr frame" "i32 (hdr_correlation_id request)"
    "response_header_version (hdr_api_key request) (hdr_api_version request) \<ge> 1"
    "ok_produce_response v" "ps_topics v = t # ts" "pst_partitions t = p # ps"
  shows "first_produce_error frame (hdr_correlation_id request) = Inr (psp_error_code p)"
proof -
  let ?c = "hdr_correlation_id request"
  obtain n where n: "i32 n" "frame = be32 n @ be32 ?c @ uvarint 0 @ produce_response_bytes v"
    using response_frame_eq [OF assms(3,2), of "produce_response_bytes v"] assms(1) by auto
  have ok: "ok_count (Suc (length ts))" "ok_count (Suc (length ps))" "ok_compact (pst_name t)" "i32 (psp_partition_index p)"
    "i16 (psp_error_code p)"
    using assms(4,5,6) by (auto simp: ok_produce_response_def ok_produce_topic_def ok_produce_partition_def ok_array_def)
  show ?thesis
    unfolding n(2) first_produce_error_def from_frame_def
    by (simp add: rd_bind_at skip_response_header_at [OF n(1) assms(2)] produce_response_bytes_def assms(5,6) array_bytes_def
        produce_topic_bytes_def produce_partition_bytes_def some_entries_at rd_at ok)
qed

lemma client_reads_list_offset:
  assumes "make_response_frame request (list_offsets_response_bytes v) = Inr frame" "i32 (hdr_correlation_id request)"
    "response_header_version (hdr_api_key request) (hdr_api_version request) \<ge> 1"
    "ok_list_offsets_response v" "ls_topics v = t # ts" "lst_partitions t = p # ps"
  shows "first_list_offset frame (hdr_correlation_id request) = Inr (lsp_error_code p, lsp_offset p)"
proof -
  let ?c = "hdr_correlation_id request"
  obtain n where n: "i32 n" "frame = be32 n @ be32 ?c @ uvarint 0 @ list_offsets_response_bytes v"
    using response_frame_eq [OF assms(3,2), of "list_offsets_response_bytes v"] assms(1) by auto
  have ok: "ok_count (Suc (length ts))" "ok_count (Suc (length ps))" "ok_compact (lst_name t)" "i32 (lsp_partition_index p)"
    "i16 (lsp_error_code p)" "i64 (lsp_timestamp p)" "i64 (lsp_offset p)" "i32 (ls_throttle_time_ms v)"
    using assms(4,5,6)
    by (auto simp: ok_list_offsets_response_def ok_list_offsets_topic_def ok_list_offsets_partition_def ok_array_def)
  show ?thesis
    unfolding n(2) first_list_offset_def from_frame_def
    by (simp add: rd_bind_at skip_response_header_at [OF n(1) assms(2)] list_offsets_response_bytes_def assms(5,6)
        array_bytes_def list_offsets_topic_bytes_def list_offsets_partition_bytes_def some_entries_at rd_at rd_return_def ok)
qed

text \<open>How the bytes of a stream are cut into arrivals, and how often a call is interrupted, makes no difference.\<close>

fun stream :: "socket_event list \<Rightarrow> bytes" where
  "stream (Arrived bs # events) = bs @ stream events"
| "stream (Interrupted # events) = stream events"
| "stream _ = []"

fun flowing :: "socket_event list \<Rightarrow> bool" where
  "flowing (Arrived bs # events) \<longleftrightarrow> bs \<noteq> [] \<and> flowing events"
| "flowing (Interrupted # events) \<longleftrightarrow> flowing events"
| "flowing _ \<longleftrightarrow> True"

lemma read_exact_stream:
  "flowing events \<Longrightarrow> n \<le> length (stream events) \<Longrightarrow>
   \<exists>rest. read_exact n events = (Some (take n (stream events)), rest) \<and> flowing rest \<and> stream rest = drop n (stream events)"
proof (induction n events rule: read_exact.induct)
  case (1 n events)
  show ?case
  proof (cases "n = 0")
    case True
    then show ?thesis using 1(3) by (subst read_exact.simps) simp
  next
    case n: False
    show ?thesis
    proof (cases events)
      case Nil
      then show ?thesis using 1(4) n by simp
    next
      case (Cons e more)
      show ?thesis
      proof (cases e)
        case Interrupted
        then show ?thesis using 1(2) [OF n Cons Interrupted] 1(3,4) Cons n by (subst read_exact.simps) simp
      next
        case (Arrived bs)
        define k where "k = min n (length bs)"
        define next' where "next' = (if k < length bs then Arrived (drop k bs) # more else more)"
        have bs: "bs \<noteq> []" "flowing more" using 1(3) Cons Arrived by simp_all
        have k: "k \<noteq> 0" using n bs by (simp add: k_def)
        have fl: "flowing next'" "stream next' = drop k (bs @ stream more)"
          using bs by (auto simp: next'_def k_def)
        have "n - k \<le> length (stream next')" using 1(4) Cons Arrived by (simp add: fl k_def)
        then obtain rest where r: "read_exact (n - k) next' = (Some (take (n - k) (stream next')), rest)" "flowing rest"
            "stream rest = drop (n - k) (stream next')"
          using 1(1) [OF n Cons Arrived k_def k] fl unfolding next'_def by blast
        have "take n (bs @ stream more) = take k bs @ take (n - k) (drop k (bs @ stream more))"
          by (simp add: k_def min_def)
        moreover have "drop (n - k) (drop k (bs @ stream more)) = drop n (bs @ stream more)" by (simp add: k_def)
        moreover have "read_exact n events = (Some (take k bs @ take (n - k) (stream next')), rest)"
          using n k r(1) by (subst read_exact.simps) (simp add: Cons Arrived Let_def flip: k_def next'_def)
        ultimately show ?thesis using r Cons Arrived by (simp add: fl)
      qed (use 1(4) Cons n in simp_all)
    qed
  qed
qed

lemma recv_frame_stream:
  assumes "flowing events" "stream events = be32 (int (length payload)) @ payload @ behind"
    "payload \<noteq> []" "length payload \<le> 100 * 1024 * 1024"
  shows "\<exists>rest. recv_frame events = (Inr (be32 (int (length payload)) @ payload), rest) \<and> flowing rest \<and> stream rest = behind"
proof -
  let ?size = "be32 (int (length payload))"
  obtain e1 where e1: "read_exact 4 events = (Some ?size, e1)" "flowing e1" "stream e1 = payload @ behind"
    using read_exact_stream [OF assms(1), of 4] assms(2) by auto
  obtain e2 where e2: "read_exact (length payload) e1 = (Some payload, e2)" "flowing e2" "stream e2 = behind"
    using read_exact_stream [OF e1(2), of "length payload"] e1(3) by auto
  have "decode_i32 ?size = int (length payload)"
    using decode_frame_size_be32 [of "int (length payload)"] assms(4) by (simp add: decode_i32_def decode_frame_size_def i32_def)
  then show ?thesis using e1(1) e2 assms(3,4) by (simp add: recv_frame_def Let_def)
qed

end
