(* ===== verification/Schema_Generator.thy ===== *)
theory Schema_Generator
  imports Api Decimal
begin

text \<open>The generator of the Kafka schema table (\<^verbatim>\<open>tools/generate_kafka_schemas.py\<close>): the version ranges of Kafka's schema
  files, the checks on a schema, and the loop that collects the rows of the table. The schema files belong to Kafka
  and are an argument. The text templates of the generated sources are not modelled here: what they produce
  is the generated codec, which has a theory of its own.\<close>

section \<open>The fixed versions\<close>

definition FIXED :: "(string \<times> int) list" where
  "FIXED = [(''ApiVersions'', 3), (''Metadata'', 9), (''Produce'', 9), (''Fetch'', 12), (''ListOffsets'', 6)]"

definition ADVERTISED_MIN :: "(string \<times> int) list" where
  "ADVERTISED_MIN = [(''ApiVersions'', 0), (''Produce'', 3), (''Fetch'', 4)]"

definition EXPECTED_FIELDS :: "(string \<times> string list) list" where
  "EXPECTED_FIELDS =
     [(''ApiVersionsRequest'', [''ClientSoftwareName'', ''ClientSoftwareVersion'']),
      (''ApiVersionsResponse'', [''ErrorCode'', ''ApiKeys'', ''ThrottleTimeMs'']),
      (''MetadataRequest'', [''Topics'', ''AllowAutoTopicCreation'', ''IncludeClusterAuthorizedOperations'',
         ''IncludeTopicAuthorizedOperations'']),
      (''MetadataResponse'', [''ThrottleTimeMs'', ''Brokers'', ''ClusterId'', ''ControllerId'', ''Topics'',
         ''ClusterAuthorizedOperations'']),
      (''ProduceRequest'', [''TransactionalId'', ''Acks'', ''TimeoutMs'', ''TopicData'']),
      (''ProduceResponse'', [''Responses'', ''ThrottleTimeMs'']),
      (''FetchRequest'', [''ReplicaId'', ''MaxWaitMs'', ''MinBytes'', ''MaxBytes'', ''IsolationLevel'', ''SessionId'',
         ''SessionEpoch'', ''Topics'', ''ForgottenTopicsData'', ''RackId'']),
      (''FetchResponse'', [''ThrottleTimeMs'', ''ErrorCode'', ''SessionId'', ''Responses'']),
      (''ListOffsetsRequest'', [''ReplicaId'', ''IsolationLevel'', ''Topics'']),
      (''ListOffsetsResponse'', [''ThrottleTimeMs'', ''Topics''])]"

record FixedApi =
  fa_api_key :: int
  fa_name :: string
  fa_version :: int
  fa_min_version :: int
  fa_request_flexible :: bool
  fa_response_flexible :: bool

section \<open>Version ranges\<close>

text \<open>\<^verbatim>\<open>str.strip\<close>, \<^verbatim>\<open>str.split\<close> and \<^verbatim>\<open>int\<close> of Python, on code points below 256.\<close>

definition py_space :: "char \<Rightarrow> bool" where
  "py_space c \<longleftrightarrow> (let n = (of_char c :: nat) in 9 \<le> n \<and> n \<le> 13 \<or> 28 \<le> n \<and> n \<le> 32 \<or> n = 133 \<or> n = 160)"

definition py_strip :: "string \<Rightarrow> string" where
  "py_strip s = rev (dropWhile py_space (rev (dropWhile py_space s)))"

fun py_split :: "char \<Rightarrow> string \<Rightarrow> string list" where
  "py_split c [] = [[]]"
| "py_split c (x # xs) =
     (if x = c then [] # py_split c xs
      else case py_split c xs of [] \<Rightarrow> [[x]] | p # ps \<Rightarrow> (x # p) # ps)"

definition py_int :: "string \<Rightarrow> int option" where
  "py_int s =
     (let t = py_strip s;
          negative = (t \<noteq> [] \<and> hd t = CHR ''-'');
          u = (if t \<noteq> [] \<and> (hd t = CHR ''-'' \<or> hd t = CHR ''+'') then tl t else t);
          groups = py_split CHR ''_'' u
      in if list_all (\<lambda>g. g \<noteq> [] \<and> list_all is_digit g) groups
         then Some (if negative then - int (digits_value (concat groups)) else int (digits_value (concat groups)))
         else None)"

definition between_part :: "string \<Rightarrow> int \<Rightarrow> bool" where
  "between_part part version \<longleftrightarrow>
     CHR ''-'' \<in> set part \<and>
     (case py_int (takeWhile (\<lambda>c. c \<noteq> CHR ''-'') part) of
        None \<Rightarrow> False
      | Some start \<Rightarrow>
          start \<le> version \<and>
          (case py_int (tl (dropWhile (\<lambda>c. c \<noteq> CHR ''-'') part)) of None \<Rightarrow> False | Some end' \<Rightarrow> version \<le> end'))"

definition version_part :: "string \<Rightarrow> int \<Rightarrow> bool" where
  "version_part part version =
     (if part = [] \<or> part = ''none'' then False
      else if part = to_string_int version then True
      else if last part = CHR ''+'' then
        (case py_int (butlast part) of
           None \<Rightarrow> False
         | Some n \<Rightarrow> if version \<ge> n then True else between_part part version)
      else between_part part version)"

definition version_in_range :: "string \<Rightarrow> int \<Rightarrow> bool" where
  "version_in_range expr version \<longleftrightarrow>
     expr \<noteq> [] \<and> list_ex (\<lambda>piece. version_part (py_strip piece) version) (py_split CHR '','' expr)"

section \<open>Schemas\<close>

text \<open>The keys of a schema that the generator reads; a missing key is \<open>None\<close>, and reading it with \<^verbatim>\<open>get\<close> gives the
  empty text.\<close>

record field =
  jf_name :: "string option"
  jf_versions :: "string option"

record schema =
  js_name :: "string option"
  js_api_key :: "int option"
  js_valid_versions :: "string option"
  js_flexible_versions :: "string option"
  js_fields :: "field list"

datatype generator_error = KeyError string | GeneratorError string | FileError string

type_synonym 'a generated = "generator_error + 'a"

definition or_empty :: "string option \<Rightarrow> string" where
  "or_empty v = (case v of None \<Rightarrow> [] | Some s \<Rightarrow> s)"

definition key_value :: "string \<Rightarrow> 'a option \<Rightarrow> 'a generated" where
  "key_value key v = (case v of None \<Rightarrow> Inl (KeyError key) | Some x \<Rightarrow> Inr x)"

fun fields_in :: "field list \<Rightarrow> int \<Rightarrow> string list generated" where
  "fields_in [] version = Inr []"
| "fields_in (f # fs) version =
     (if version_in_range (or_empty (jf_versions f)) version then
        (case key_value ''name'' (jf_name f) of
           Inl e \<Rightarrow> Inl e
         | Inr name \<Rightarrow> (case fields_in fs version of Inl e \<Rightarrow> Inl e | Inr out \<Rightarrow> Inr (name # out)))
      else fields_in fs version)"

definition schema_fields :: "schema \<Rightarrow> int \<Rightarrow> string list generated" where
  "schema_fields schema version = fields_in (js_fields schema) version"

fun comma_separated :: "string list \<Rightarrow> string" where
  "comma_separated [] = []"
| "comma_separated [p] = p"
| "comma_separated (p # ps) = p @ '', '' @ comma_separated ps"

definition ends_with :: "string \<Rightarrow> string \<Rightarrow> bool" where
  "ends_with suffix s \<longleftrightarrow> length suffix \<le> length s \<and> drop (length s - length suffix) s = suffix"

definition validate_schema_shape :: "string \<Rightarrow> schema \<Rightarrow> int \<Rightarrow> unit generated" where
  "validate_schema_shape name schema version =
     (case key_value ''name'' (js_name schema) of
        Inl e \<Rightarrow> Inl e
      | Inr schema_name \<Rightarrow>
          (case map_of EXPECTED_FIELDS schema_name of
             None \<Rightarrow> Inl (GeneratorError (''missing expected field shape for '' @ schema_name))
           | Some expected \<Rightarrow>
               (case schema_fields schema version of
                  Inl e \<Rightarrow> Inl e
                | Inr actual \<Rightarrow>
                    let missing = filter (\<lambda>f. f \<notin> set actual) expected
                    in if missing \<noteq> [] then
                         Inl (GeneratorError (schema_name @ '' v'' @ to_string_int version @
                                              '' missing expected fields: '' @ comma_separated missing))
                       else if schema_name \<noteq> name @ (if ends_with ''Request'' schema_name then ''Request'' else ''Response'') then
                         Inl (GeneratorError (''unexpected schema name '' @ schema_name @ '' for '' @ name))
                       else Inr ())))"

definition check_schema :: "string \<Rightarrow> string \<Rightarrow> schema \<Rightarrow> int \<Rightarrow> unit generated" where
  "check_schema name kind schema version =
     (if \<not> version_in_range (or_empty (js_valid_versions schema)) version then
        Inl (GeneratorError (name @ '' '' @ kind @ '' schema does not support v'' @ to_string_int version))
      else validate_schema_shape name schema version)"

definition min_version_of :: "string \<Rightarrow> int \<Rightarrow> int" where
  "min_version_of name version = (case map_of ADVERTISED_MIN name of None \<Rightarrow> version | Some v \<Rightarrow> v)"

definition checked_api :: "string \<Rightarrow> int \<Rightarrow> schema \<Rightarrow> schema \<Rightarrow> FixedApi generated" where
  "checked_api name version request response =
     (let request_flexible = version_in_range (or_empty (js_flexible_versions request)) version;
          response_flexible = version_in_range (or_empty (js_flexible_versions response)) version
      in if \<not> request_flexible \<or> \<not> response_flexible then
           Inl (GeneratorError (name @ '' v'' @ to_string_int version @ '' must be flexible on request and response''))
         else case key_value ''apiKey'' (js_api_key request) of
           Inl e \<Rightarrow> Inl e
         | Inr api_key \<Rightarrow>
             Inr \<lparr>fa_api_key = api_key, fa_name = name, fa_version = version, fa_min_version = min_version_of name version,
                  fa_request_flexible = request_flexible, fa_response_flexible = response_flexible\<rparr>)"

definition generate_api :: "(string \<Rightarrow> schema generated) \<Rightarrow> string \<times> int \<Rightarrow> FixedApi generated" where
  "generate_api read_schema = (\<lambda>(name, version).
     case read_schema (name @ ''Request'') of
       Inl e \<Rightarrow> Inl e
     | Inr request \<Rightarrow>
         (case read_schema (name @ ''Response'') of
            Inl e \<Rightarrow> Inl e
          | Inr response \<Rightarrow>
              (case check_schema name ''request'' request version of
                 Inl e \<Rightarrow> Inl e
               | Inr _ \<Rightarrow>
                   (case check_schema name ''response'' response version of
                      Inl e \<Rightarrow> Inl e
                    | Inr _ \<Rightarrow> checked_api name version request response))))"

fun generate_apis :: "(string \<Rightarrow> schema generated) \<Rightarrow> (string \<times> int) list \<Rightarrow> FixedApi list generated" where
  "generate_apis read_schema [] = Inr []"
| "generate_apis read_schema (entry # entries) =
     (case generate_api read_schema entry of
        Inl e \<Rightarrow> Inl e
      | Inr api \<Rightarrow> (case generate_apis read_schema entries of Inl e \<Rightarrow> Inl e | Inr apis \<Rightarrow> Inr (api # apis)))"

text \<open>The row of the table in the generated source.\<close>

definition schema_row :: "FixedApi \<Rightarrow> FixedKafkaApi" where
  "schema_row api =
     \<lparr>fixed_api_key = fa_api_key api, fixed_name = fa_name api, fixed_min_version = fa_min_version api,
      fixed_max_version = fa_version api, fixed_flexible = (fa_request_flexible api \<and> fa_response_flexible api)\<rparr>"

section \<open>What a range means\<close>

text \<open>The version ranges of Kafka's schemas, as they are written and what they contain.\<close>

datatype version_range = Exactly nat | From nat | Between nat nat | NoVersions

fun range_text :: "version_range \<Rightarrow> string" where
  "range_text (Exactly n) = nat_to_string n"
| "range_text (From n) = nat_to_string n @ ''+''"
| "range_text (Between m n) = nat_to_string m @ ''-'' @ nat_to_string n"
| "range_text NoVersions = ''none''"

fun in_version_range :: "version_range \<Rightarrow> nat \<Rightarrow> bool" where
  "in_version_range (Exactly n) v \<longleftrightarrow> v = n"
| "in_version_range (From n) v \<longleftrightarrow> n \<le> v"
| "in_version_range (Between m n) v \<longleftrightarrow> m \<le> v \<and> v \<le> n"
| "in_version_range NoVersions v \<longleftrightarrow> False"

definition plain :: "char \<Rightarrow> bool" where
  "plain c \<longleftrightarrow> is_digit c \<or> c \<in> set ''+-none''"

lemma plain_not: "plain c \<Longrightarrow> \<not> py_space c \<and> c \<noteq> CHR '','' \<and> c \<noteq> CHR ''_''"
  by (auto simp: plain_def py_space_def is_digit_def Let_def)

lemma digits_plain: "list_all is_digit s \<Longrightarrow> list_all plain s"
  by (auto simp: list_all_iff plain_def)

lemma range_text_plain: "list_all plain (range_text r)" and range_text_not_Nil: "range_text r \<noteq> []"
  using digits_plain [OF nat_to_string_digits] by (cases r; simp add: plain_def)+

lemma strip_plain: "list_all plain s \<Longrightarrow> py_strip s = s"
proof -
  have "dropWhile py_space s = s" if "list_all plain s" for s
    using that plain_not by (cases s) auto
  then show "list_all plain s \<Longrightarrow> py_strip s = s" by (simp add: py_strip_def list_all_rev)
qed

lemma strip_blank_plain: "list_all plain s \<Longrightarrow> py_strip (CHR '' '' # s) = s"
  using strip_plain [of s] by (simp add: py_strip_def py_space_def)

lemma split_none: "c \<notin> set s \<Longrightarrow> py_split c s = [s]"
  by (induction s) auto

lemma split_first: "c \<notin> set s \<Longrightarrow> py_split c (s @ c # rest) = s # py_split c rest"
  by (induction s) auto

lemma int_digits:
  assumes "list_all is_digit s" "s \<noteq> []"
  shows "py_int s = Some (int (digits_value s))"
proof -
  have "is_digit (hd s)" using assms by (simp add: list_all_iff)
  then have no: "CHR ''_'' \<notin> set s" "hd s \<noteq> CHR ''-''" "hd s \<noteq> CHR ''+''"
    using assms(1) by (auto simp: list_all_iff is_digit_def)
  show ?thesis using assms no by (simp add: py_int_def strip_plain digits_plain split_none Let_def)
qed

lemma int_nat_to_string [simp]: "py_int (nat_to_string n) = Some (int n)"
  by (simp add: int_digits nat_to_string_digits)

lemma nat_to_string_no: "\<not> is_digit c \<Longrightarrow> c \<notin> set (nat_to_string n)"
  using nat_to_string_digits [of n] by (auto simp: list_all_iff)

lemma not_digits [simp]: "\<not> is_digit CHR ''+''" "\<not> is_digit CHR ''n''"
  by (simp_all add: is_digit_def)

lemma last_nat_to_string: "is_digit (last (nat_to_string n))"
  using nat_to_string_digits [of n] by (simp add: list_all_iff)

lemma nat_to_string_not_none: "nat_to_string n @ s \<noteq> ''none''"
proof
  assume "nat_to_string n @ s = ''none''"
  then have "hd (nat_to_string n) = CHR ''n''" by (metis hd_append2 list.sel(1) nat_to_string_not_Nil)
  then show False using nat_to_string_no [of "CHR ''n''" n] by (metis hd_in_set nat_to_string_not_Nil not_digits(2))
qed

lemma between_part_plain: "CHR ''-'' \<notin> set part \<Longrightarrow> \<not> between_part part v"
  by (simp add: between_part_def)

lemma span_minus:
  "takeWhile (\<lambda>c. c \<noteq> CHR ''-'') (nat_to_string m @ CHR ''-'' # s) = nat_to_string m"
  "dropWhile (\<lambda>c. c \<noteq> CHR ''-'') (nat_to_string m @ CHR ''-'' # s) = CHR ''-'' # s"
proof -
  have "\<And>c. c \<in> set (nat_to_string m) \<Longrightarrow> c \<noteq> CHR ''-''" using nat_to_string_no_minus [of m] by blast
  then show "takeWhile (\<lambda>c. c \<noteq> CHR ''-'') (nat_to_string m @ CHR ''-'' # s) = nat_to_string m"
    "dropWhile (\<lambda>c. c \<noteq> CHR ''-'') (nat_to_string m @ CHR ''-'' # s) = CHR ''-'' # s"
    by (simp_all add: takeWhile_append2 dropWhile_append2)
qed

lemma version_part_range: "version_part (range_text r) (int v) \<longleftrightarrow> in_version_range r v"
proof (cases r)
  case (Exactly n)
  have "nat_to_string n \<noteq> ''none''" using nat_to_string_not_none [of n "[]"] by simp
  moreover have "last (nat_to_string n) \<noteq> CHR ''+''" using last_nat_to_string [of n] not_digits by metis
  ultimately show ?thesis
    using Exactly between_part_plain [OF nat_to_string_no_minus] by (auto simp: version_part_def to_string_int_def)
next
  case (From n)
  have "nat_to_string n @ ''+'' \<noteq> nat_to_string v" using nat_to_string_no [OF not_digits(1), of v] by (metis in_set_conv_decomp)
  then show ?thesis
    using From nat_to_string_not_none [of n] nat_to_string_no_minus [of n]
    by (simp add: version_part_def to_string_int_def between_part_plain butlast_append)
next
  case (Between m n)
  have "nat_to_string m @ ''-'' @ nat_to_string n \<noteq> nat_to_string v"
    using nat_to_string_no_minus [of v] by (metis append_Cons in_set_conv_decomp append_Nil)
  moreover have "last (nat_to_string m @ ''-'' @ nat_to_string n) \<noteq> CHR ''+''"
    using last_nat_to_string [of n] not_digits(1) by (metis append_is_Nil_conv last_appendR nat_to_string_not_Nil)
  ultimately show ?thesis
    using Between nat_to_string_not_none [of m] by (simp add: version_part_def to_string_int_def between_part_def span_minus)
next
  case NoVersions
  then show ?thesis by (simp add: version_part_def)
qed

lemma split_ranges:
  "py_split CHR '','' (comma_separated (map range_text (r # rs))) =
     range_text r # map (\<lambda>r. CHR '' '' # range_text r) rs"
proof (induction rs arbitrary: r)
  case Nil
  have "CHR '','' \<notin> set (range_text r)" using range_text_plain [of r] plain_not by (auto simp: list_all_iff)
  then show ?case by (simp add: split_none)
next
  case (Cons r' rs)
  have "CHR '','' \<notin> set (range_text r)" using range_text_plain [of r] plain_not by (auto simp: list_all_iff)
  moreover have "py_split CHR '','' (CHR '' '' # comma_separated (map range_text (r' # rs))) =
      map (\<lambda>r. CHR '' '' # range_text r) (r' # rs)"
    using Cons.IH [of r'] by simp
  ultimately show ?case by (simp add: split_first)
qed

text \<open>A list of ranges, written as Kafka writes it, contains a version exactly when one of the ranges does.\<close>

theorem version_in_range_exact:
  "version_in_range (comma_separated (map range_text rs)) (int v) \<longleftrightarrow> (\<exists>r\<in>set rs. in_version_range r v)"
proof (cases rs)
  case Nil
  then show ?thesis by (simp add: version_in_range_def)
next
  case (Cons r rs')
  have "comma_separated (map range_text rs) \<noteq> []"
    using range_text_not_Nil [of r] Cons by (cases rs') simp_all
  then show ?thesis
    unfolding version_in_range_def Cons split_ranges
    by (simp add: list_ex_iff strip_plain [OF range_text_plain] strip_blank_plain [OF range_text_plain] version_part_range)
qed

section \<open>The generated table\<close>

lemma generated_row:
  assumes "generate_api read_schema (name, version) = Inr api"
  obtains request where "read_schema (name @ ''Request'') = Inr request" "js_api_key request = Some (fa_api_key api)"
    "schema_row api = \<lparr>fixed_api_key = fa_api_key api, fixed_name = name, fixed_min_version = min_version_of name version,
       fixed_max_version = version, fixed_flexible = True\<rparr>"
  using assms
  by (auto simp: generate_api_def checked_api_def key_value_def schema_row_def Let_def split: sum.splits if_splits option.splits)

lemma generate_apis_rows:
  assumes "generate_apis read_schema entries = Inr apis"
    and "\<And>name version request. (name, version) \<in> set entries \<Longrightarrow> read_schema (name @ ''Request'') = Inr request \<Longrightarrow>
       js_api_key request = Some (key name)"
  shows "map schema_row apis = map (\<lambda>(name, version). \<lparr>fixed_api_key = key name, fixed_name = name,
     fixed_min_version = min_version_of name version, fixed_max_version = version, fixed_flexible = True\<rparr>) entries"
  using assms
proof (induction entries arbitrary: apis)
  case Nil
  then show ?case by simp
next
  case (Cons entry entries)
  obtain name version where entry: "entry = (name, version)" by (cases entry)
  obtain api where api: "generate_api read_schema (name, version) = Inr api"
    using Cons.prems(1) entry by (cases "generate_api read_schema (name, version)") simp_all
  obtain rest where rest: "generate_apis read_schema entries = Inr rest"
    using Cons.prems(1) entry api by (cases "generate_apis read_schema entries") simp_all
  obtain request where r: "read_schema (name @ ''Request'') = Inr request" "js_api_key request = Some (fa_api_key api)"
    "schema_row api = \<lparr>fixed_api_key = fa_api_key api, fixed_name = name, fixed_min_version = min_version_of name version,
       fixed_max_version = version, fixed_flexible = True\<rparr>"
    using generated_row [OF api] by blast
  then have "fa_api_key api = key name" using Cons.prems(2) entry by force
  moreover have "apis = api # rest" using Cons.prems(1) entry api rest by simp
  moreover have "map schema_row rest = map (\<lambda>(name, version). \<lparr>fixed_api_key = key name, fixed_name = name,
     fixed_min_version = min_version_of name version, fixed_max_version = version, fixed_flexible = True\<rparr>) entries"
    by (rule Cons.IH [OF rest]) (metis Cons.prems(2) list.set_intros(2))
  ultimately show ?case using entry r(3) by simp
qed

text \<open>When the generator accepts Kafka's schemas, and these have the API keys of the protocol, the table it renders is the
  one that is checked in and that the broker advertises.\<close>

theorem generated_table_checked_in:
  assumes "generate_apis read_schema FIXED = Inr apis"
    and "\<And>api request. is_known_api (api_id api) \<Longrightarrow> read_schema (api_name api @ ''Request'') = Inr request \<Longrightarrow>
       js_api_key request = Some (api_id api)"
  shows "map schema_row apis = fixed_kafka_apis"
proof -
  let ?keys = "[(''ApiVersions'', 18), (''Metadata'', 3), (''Produce'', 0), (''Fetch'', 1), (''ListOffsets'', 2 :: int)]"
  have names: "api_name ApiVersions = ''ApiVersions''" "api_name Metadata = ''Metadata''" "api_name Produce = ''Produce''"
    "api_name Fetch = ''Fetch''" "api_name ListOffsets = ''ListOffsets''"
    by (simp_all add: api_table)
  have known: "is_known_api (api_id api)" if "api \<in> {ApiVersions, Metadata, Produce, Fetch, ListOffsets}" for api
    using that by (auto simp: is_known_api_iff)
  have "js_api_key request = Some (the (map_of ?keys name))"
    if f: "(name, version) \<in> set FIXED" and r: "read_schema (name @ ''Request'') = Inr request" for name version request
  proof -
    have "name \<in> set [api_name ApiVersions, api_name Metadata, api_name Produce, api_name Fetch, api_name ListOffsets]"
      unfolding names using f by (auto simp: FIXED_def)
    then obtain api where api: "api \<in> {ApiVersions, Metadata, Produce, Fetch, ListOffsets}" "name = api_name api" by auto
    have "js_api_key request = Some (api_id api)" using assms(2) [OF known [OF api(1)]] r api(2) by simp
    moreover have "api_id api = the (map_of ?keys (api_name api))" using api(1) by (auto simp: names)
    ultimately show ?thesis using api(2) by simp
  qed
  from generate_apis_rows [OF assms(1) this] show ?thesis
    by (simp add: FIXED_def fixed_kafka_apis_def min_version_of_def ADVERTISED_MIN_def)
qed

text \<open>Schemas that the generator accepts: every expected field in all versions.\<close>

definition sample_schema :: "string \<Rightarrow> int \<Rightarrow> string list \<Rightarrow> schema" where
  "sample_schema name key fs =
     \<lparr>js_name = Some name, js_api_key = Some key, js_valid_versions = Some ''0+'', js_flexible_versions = Some ''0+'',
      js_fields = map (\<lambda>f. \<lparr>jf_name = Some f, jf_versions = Some ''0+''\<rparr>) fs\<rparr>"

definition sample_schemas :: "string \<Rightarrow> schema generated" where
  "sample_schemas file =
     (case map_of EXPECTED_FIELDS file of
        None \<Rightarrow> Inl (FileError file)
      | Some fs \<Rightarrow>
          Inr (sample_schema file
            (the (map_of [(''A'', 18), (''M'', 3), (''P'', 0), (''F'', 1), (''L'', 2)] (take 1 file))) fs))"

lemma all_versions: "0 \<le> v \<Longrightarrow> version_in_range ''0+'' v"
proof -
  have zero: "nat_to_string 0 = ''0''" by code_simp
  show "0 \<le> v \<Longrightarrow> version_in_range ''0+'' v" using version_in_range_exact [of "[From 0]" "nat v"] by (simp add: zero)
qed

lemma sample_fields: "0 \<le> v \<Longrightarrow> schema_fields (sample_schema name key fs) v = Inr fs"
proof -
  assume "0 \<le> v"
  then have "fields_in (map (\<lambda>f. \<lparr>jf_name = Some f, jf_versions = Some ''0+''\<rparr>) fs) v = Inr fs"
    by (induction fs) (simp_all add: or_empty_def key_value_def all_versions)
  then show ?thesis by (simp add: schema_fields_def sample_schema_def)
qed

lemma sample_checked:
  assumes "0 \<le> v" "map_of EXPECTED_FIELDS file = Some fs"
    and "file = name @ (if ends_with ''Request'' file then ''Request'' else ''Response'')"
  shows "check_schema name kind (sample_schema file key fs) v = Inr ()"
proof -
  have "js_name (sample_schema file key fs) = Some file" "js_valid_versions (sample_schema file key fs) = Some ''0+''"
    by (simp_all add: sample_schema_def)
  then show ?thesis
    using assms by (simp add: check_schema_def validate_schema_shape_def key_value_def or_empty_def all_versions sample_fields)
qed

lemma sample_generated:
  assumes "0 \<le> v" "map_of EXPECTED_FIELDS (name @ ''Request'') = Some fs" "map_of EXPECTED_FIELDS (name @ ''Response'') = Some fs'"
  shows "\<exists>api. generate_api sample_schemas (name, v) = Inr api"
proof -
  obtain key where r: "sample_schemas (name @ ''Request'') = Inr (sample_schema (name @ ''Request'') key fs)"
    using assms(2) by (simp add: sample_schemas_def)
  obtain key' where s: "sample_schemas (name @ ''Response'') = Inr (sample_schema (name @ ''Response'') key' fs')"
    using assms(3) by (simp add: sample_schemas_def)
  have "check_schema name kind (sample_schema (name @ ''Request'') key fs) v = Inr ()" for kind
    by (rule sample_checked [OF assms(1,2)]) (simp add: ends_with_def)
  moreover have "check_schema name kind (sample_schema (name @ ''Response'') key' fs') v = Inr ()" for kind
    by (rule sample_checked [OF assms(1,3)]) (simp add: ends_with_def)
  moreover have "js_flexible_versions (sample_schema f k fs) = Some ''0+''" "js_api_key (sample_schema f k fs) = Some k"
    for f k fs by (simp_all add: sample_schema_def)
  ultimately show ?thesis
    using assms(1) r s by (simp add: generate_api_def checked_api_def or_empty_def all_versions key_value_def Let_def)
qed

lemma sample_accepted: "\<exists>apis. generate_apis sample_schemas FIXED = Inr apis"
proof -
  have "\<exists>api. generate_api sample_schemas (''ApiVersions'', 3) = Inr api"
    by (rule sample_generated) (simp_all add: EXPECTED_FIELDS_def)
  moreover have "\<exists>api. generate_api sample_schemas (''Metadata'', 9) = Inr api"
    by (rule sample_generated) (simp_all add: EXPECTED_FIELDS_def)
  moreover have "\<exists>api. generate_api sample_schemas (''Produce'', 9) = Inr api"
    by (rule sample_generated) (simp_all add: EXPECTED_FIELDS_def)
  moreover have "\<exists>api. generate_api sample_schemas (''Fetch'', 12) = Inr api"
    by (rule sample_generated) (simp_all add: EXPECTED_FIELDS_def)
  moreover have "\<exists>api. generate_api sample_schemas (''ListOffsets'', 6) = Inr api"
    by (rule sample_generated) (simp_all add: EXPECTED_FIELDS_def)
  ultimately show ?thesis unfolding FIXED_def by (elim exE) (simp only: generate_apis.simps sum.case, blast)
qed

theorem generated_table_checked_in_witness:
  "\<exists>apis. generate_apis sample_schemas FIXED = Inr apis \<and> map schema_row apis = fixed_kafka_apis"
proof -
  obtain apis where run: "generate_apis sample_schemas FIXED = Inr apis" using sample_accepted by blast
  have "js_api_key request = Some (api_id api)"
    if "is_known_api (api_id api)" "sample_schemas (api_name api @ ''Request'') = Inr request" for api request
    using that by (cases api) (auto simp: is_known_api_iff api_table sample_schemas_def EXPECTED_FIELDS_def sample_schema_def)
  from generated_table_checked_in [OF run this] run show ?thesis by blast
qed

end
