(* ===== verification/Spec2Isabelle.thy ===== *)
theory Spec2Isabelle
  imports Crc32c Catch_Up Broker_Lifecycle Broker_Service Mercury_Steps Mercury_Proc Broker_Main Bench_Client Schema_Generator
begin

text \<open>
  Verification of mkmq, a message broker that speaks the Kafka protocol, keeps each partition as
  a log in segment files, and replicates partitions between brokers over Mercury RPC. This
  theory imports the whole development and documents it. Paths are relative to \<^verbatim>\<open>src/\<close>.

  \<^bold>\<open>The program.\<close> A broker process (\<^verbatim>\<open>src/main.cpp\<close>) loads a configuration (\<^verbatim>\<open>src/config.cpp\<close>) and
  starts one \<^verbatim>\<open>BrokerShard\<close> per core (\<^verbatim>\<open>src/broker_shard.cpp\<close>). A shard accepts connections, reads
  request frames and hands them to the protocol layer (\<^verbatim>\<open>src/kafka_protocol.cpp\<close>), which parses the header
  (\<^verbatim>\<open>src/protocol/\<close>), decodes the body (\<^verbatim>\<open>src/generated/kafka_codec.cpp\<close>) and calls the operations of the
  shard for every partition. The shard sends a request to the shard that owns the partition. There
  the partition log (\<^verbatim>\<open>src/partition_log_shard.cpp\<close>) appends to or reads from its files. An append on a leader
  is sent to the other brokers of the in-sync set as an RPC (\<^verbatim>\<open>src/mercury_shard.cpp\<close>); a timer pings peers
  and lets followers fetch what they miss. \<^verbatim>\<open>src/tools/kafka_bench_client.cpp\<close> is a client of the
  broker, \<^verbatim>\<open>tools/generate_kafka_schemas.py\<close> generates the codec.

  \<^bold>\<open>Conventions.\<close> \<^verbatim>\<open>Mkmq_Prelude\<close> has the shared types. Signed C++ integers are \<open>int\<close>s with the range
  predicates \<open>i8\<close>, \<open>i16\<close>, \<open>i32\<close>, \<open>i64\<close>, and a conversion that can wrap is written out (\<open>cast_i32\<close>); sizes are
  \<open>nat\<close>s, and a subtraction of sizes that wraps is written out; bytes and checksums are words. An exception is a value of the
  type \<open>error\<close>, a function that can throw returns \<open>'a result\<close>. A read outside a buffer is the error
  \<open>OutOfBounds\<close>, which no check of the source raises: a theorem that excludes it shows memory
  safety. An operation on an object takes the state and returns it. A Seastar future is the value it
  ends with; where the order of two completions matters (the write and the index entry of an append,
  the steps of the RPC layer) each part is an operation of its own. The files are a map from names
  to bytes. Calls into Mercury, YAML, sockets and the network are arguments.

  \<^bold>\<open>Wire format.\<close> \<^verbatim>\<open>Wire\<close> models \<^verbatim>\<open>wire.cpp\<close> (\<^verbatim>\<open>WireReader\<close> as a buffer with a position, \<^verbatim>\<open>WireWriter\<close> as a function on
  bytes). \<^verbatim>\<open>Wire_Format\<close> states the contract of a codec as the locales \<open>wire_encoder\<close>, \<open>wire_decoder\<close>,
  \<open>wire_format\<close>, and interprets them on every primitive. \<^verbatim>\<open>Api\<close> has the API table and the
  headers, \<^verbatim>\<open>Kafka_Codec\<close> the generated structs, decoders and encoders: round trips for every message,
  and memory safety of the decoders on any bytes. \<^verbatim>\<open>Crc32c\<close> shows that the chunked checksum is the bytewise
  CRC-32C, and that it sees a change inside one byte. \<^verbatim>\<open>Record_Batch\<close> has the record batches: rewriting of offsets, the
  idempotence check, the record count.

  \<^bold>\<open>Configuration and helpers.\<close> \<^verbatim>\<open>Decimal\<close>, \<^verbatim>\<open>Config\<close> and \<^verbatim>\<open>Broker_Detail\<close> model \<^verbatim>\<open>config.cpp\<close> and
  \<^verbatim>\<open>broker_shard_detail.cpp\<close>: validation accepts exactly the configurations of a declarative
  specification, a segment file name determines its partition and offset, replication payloads round-trip, an accepted
  reload moves no partition. The YAML library is a record of functions.

  \<^bold>\<open>Partition log.\<close> \<^verbatim>\<open>Log_Format\<close> has frames, index entries and files, \<^verbatim>\<open>Partition_Log\<close> the state and
  the write side, \<^verbatim>\<open>Log_Read\<close> the fetches, \<^verbatim>\<open>Log_Recovery\<close> start, recovery and stop. \<^verbatim>\<open>Log_Append\<close> has the
  invariant and the locale \<open>append_only_log\<close>, a list of record sets on consecutive offsets to which an
  append adds one; it is interpreted on the leader's and on the follower's append. \<^verbatim>\<open>Log_Properties\<close>
  shows the behaviour of the operations. \<^verbatim>\<open>Log_Image\<close>, \<^verbatim>\<open>Log_Restart\<close>, \<^verbatim>\<open>Log_Durable\<close> and \<^verbatim>\<open>Log_Crash\<close> describe
  what is on disk and show that a restart finds everything that was accepted, and that an
  append cut off at any byte is recovered as a whole or not at all.

  \<^bold>\<open>Broker shard.\<close> \<^verbatim>\<open>Partition_Table\<close> is the sorted vector of logs, an instance of the locale
  \<open>keyed_store\<close>. \<^verbatim>\<open>Broker_Shard\<close> has the data path, \<^verbatim>\<open>Broker_Control\<close> start, stop, reload and maintenance,
  \<^verbatim>\<open>Kafka_Protocol\<close> the request handlers, \<^verbatim>\<open>Broker_Front\<close> connections. \<^verbatim>\<open>Broker_Properties\<close> shows
  that requests reach the owner and what \<^verbatim>\<open>acks=-1\<close> means, \<^verbatim>\<open>Broker_Lifecycle\<close> what start and reload do
  to the logs. \<^verbatim>\<open>Broker_Service\<close> states the contract of a partition operation as the locale
  \<open>partition_service\<close>, interprets it on append, fetch and offset lookup, and derives that every frame
  is served and every partition answered. \<^verbatim>\<open>Broker_Main\<close> is the process around the shards.

  \<^bold>\<open>Several brokers.\<close> \<^verbatim>\<open>Cluster\<close> connects nodes by a network that delivers, and shows that a produce
  with \<^verbatim>\<open>acks=-1\<close> brings leader and followers to the same log; \<^verbatim>\<open>Catch_Up\<close> that a follower that is
  behind reaches the leader after as many rounds as record sets are missing.

  \<^bold>\<open>RPC layer.\<close> \<^verbatim>\<open>Mercury_Shard\<close> models \<^verbatim>\<open>mercury_shard.cpp\<close> operation by operation, with the resources
  it takes and gives back in a ledger. \<^verbatim>\<open>Mercury_Properties\<close> shows that every operation keeps the
  account, \<^verbatim>\<open>Mercury_Steps\<close> that this holds in every interleaving (an \<open>inductive\<close> step relation) and that
  every future is completed once and not lost. \<^verbatim>\<open>Mercury_Proc\<close> has the serialisers and their round trip over the
  primitives of Mercury.

  \<^bold>\<open>Tools.\<close> \<^verbatim>\<open>Bench_Client\<close> models the client; what it sends is what the broker decodes.
  \<^verbatim>\<open>Schema_Generator\<close> models the checks of the generator: its version ranges mean what Kafka means by them, and
  the table it accepts is the one that is checked in.

  \<^bold>\<open>Fuel and loops.\<close> Loops over bytes and files are recursive functions with a termination
  proof. Sending a request to the owning shard takes fuel, as the target consults its own
  configuration again; two hops are enough when the shards of a node agree, and the
  theorems about services are stated for any fuel from two on. The loop that triggers
  Mercury callbacks may run for ever and is a partial function; that it returns when Mercury
  runs out of callbacks is a lemma. The loop of the process runs over the given bursts of signals.

  \<^bold>\<open>Deviations that the theorems show.\<close> A batch length below 9 makes the checksum read out of bounds; file names of
  different topics can collide; a follower with a small frame limit never catches up; a
  lookup that resolves can leave a dangling reference, leak an address, or keep its callers
  waiting without a timeout; a failed start leaves the RPC layer running; a reload
  signal can swallow a stop signal, and a rejected reload ends the process. Each of these has a
  lemma in the theory of its component.

  \<^bold>\<open>Not modelled.\<close> Seastar, Mercury, YAML, the sockets and the file system themselves: they are not part of the
  repository, the model takes what they answer as arguments. Latency histograms, the registration of
  metrics, console output, percentiles and clocks: they only feed displays. The bodies of text that
  the generator writes: their result is modelled as the generated codec. The build without Mercury,
  the tests, scripts and sample configurations. Time passes in the model only as the firing of a
  timer or as the decision that a wait ran out. Requests of different connections interleave in the
  model between whole operations of a shard, and within an append between submission and completion of a
  write; interleavings inside other operations at their suspension points are not explored.
\<close>

end
